theory Spec2Isabelle
  imports Main "HOL-Library.Log_Nat" "HOL-Library.AList"
begin

section \<open>Python text primitives used by the statistics scripts\<close>

text \<open>
  A Python \<open>str\<close> is modelled as a \<open>string\<close>: each \<open>char\<close> stands for one code point
  below 256 (the simulator's reports are ASCII). The text handed to the scripts is the
  text Python's text layer delivers: decoded, with line ends already translated to
  the newline character.
\<close>

datatype pyerror =
  ValueError | ZeroDivisionError | TypeError | OverflowError | FileNotFoundError | KeyError

definition newline :: char where
  "newline = CHR 0x0A"

text \<open>\<open>str.isspace\<close> on one code point below 256; the same set is \<open>\s\<close> of \<open>re\<close>.\<close>

definition is_space :: "char \<Rightarrow> bool" where
  "is_space c =
     (let n = (of_char c :: nat)
      in (9 \<le> n \<and> n \<le> 13) \<or> (28 \<le> n \<and> n \<le> 32) \<or> n = 133 \<or> n = 160)"

text \<open>A decimal digit (category Nd) below 256: only \<open>0\<close> to \<open>9\<close>; the same set is \<open>\d\<close>.\<close>

definition is_digit :: "char \<Rightarrow> bool" where
  "is_digit c = (let n = (of_char c :: nat) in 48 \<le> n \<and> n \<le> 57)"

definition digit_val :: "char \<Rightarrow> nat" where
  "digit_val c = (of_char c :: nat) - 48"

text \<open>\<open>s.split()\<close>: the maximal runs of non-whitespace characters, in order.\<close>

function py_split :: "string \<Rightarrow> string list" where
  "py_split s =
     (case dropWhile is_space s of
        [] \<Rightarrow> []
      | c # cs \<Rightarrow>
          (c # takeWhile (\<lambda>x. \<not> is_space x) cs)
            # py_split (dropWhile (\<lambda>x. \<not> is_space x) cs))"
  by pat_completeness auto
termination
proof (relation "measure length")
  show "wf (measure length)" by simp
next
  fix s :: string and c cs
  assume h: "dropWhile is_space s = c # cs"
  have "length (dropWhile (\<lambda>x. \<not> is_space x) cs) \<le> length cs"
    by (rule length_dropWhile_le)
  moreover have "length (c # cs) \<le> length s"
    using length_dropWhile_le [of is_space s] h by simp
  ultimately show "(dropWhile (\<lambda>x. \<not> is_space x) cs, s) \<in> measure length"
    by simp
qed

declare py_split.simps [simp del]

text \<open>\<open>s.strip()\<close>: whitespace removed at both ends.\<close>

definition py_strip :: "string \<Rightarrow> string" where
  "py_strip s = rev (dropWhile is_space (rev (dropWhile is_space s)))"

text \<open>\<open>s.startswith(p)\<close> and \<open>p in s\<close> (substring test).\<close>

fun startswith :: "string \<Rightarrow> string \<Rightarrow> bool" where
  "startswith s [] = True"
| "startswith [] (p # ps) = False"
| "startswith (c # cs) (p # ps) = (c = p \<and> startswith cs ps)"

fun contains :: "string \<Rightarrow> string \<Rightarrow> bool" where
  "contains [] p = (p = [])"
| "contains (c # cs) p = (startswith (c # cs) p \<or> contains cs p)"

text \<open>
  Iterating over a text file yields its lines, each with its terminating newline
  (the last line may have none).
\<close>

function file_lines :: "string \<Rightarrow> string list" where
  "file_lines s =
     (if s = [] then []
      else (takeWhile (\<lambda>c. c \<noteq> newline) s @ take 1 (dropWhile (\<lambda>c. c \<noteq> newline) s))
             # file_lines (drop 1 (dropWhile (\<lambda>c. c \<noteq> newline) s)))"
  by pat_completeness auto
termination
proof (relation "measure length")
  show "wf (measure length)" by simp
next
  fix s :: string
  assume "s \<noteq> []"
  then show "(drop 1 (dropWhile (\<lambda>c. c \<noteq> newline) s), s) \<in> measure length"
    using length_dropWhile_le [of "\<lambda>c. c \<noteq> newline" s] by (cases s) auto
qed

declare file_lines.simps [simp del]


section \<open>Python numbers\<close>

text \<open>
  A Python \<open>float\<close> is an IEEE 754 binary64 value: a finite value is kept as the
  rational number it denotes, next to the two infinities and not-a-number. The sign of
  zero is not kept: Python compares \<open>-0.0\<close> equal to \<open>0.0\<close>, both are false as
  conditions and both raise \<open>ZeroDivisionError\<close> as divisors.
\<close>

datatype pyfloat = Finite rat | PosInf | NegInf | NaN

datatype pyvalue = PyInt int | PyFloat pyfloat | PyStr string

definition pow2 :: "int \<Rightarrow> rat" where
  "pow2 e = (if 0 \<le> e then 2 ^ nat e else 1 / 2 ^ nat (- e))"

text \<open>The integer \<open>e\<close> with \<open>2^e \<le> a < 2^(e+1)\<close>, for a positive \<open>a\<close>.\<close>

definition ilog2 :: "rat \<Rightarrow> int" where
  "ilog2 a = (if 1 \<le> a then bitlen \<lfloor>a\<rfloor> - 1 else - bitlen (\<lceil>1 / a\<rceil> - 1))"

definition round_half_even :: "rat \<Rightarrow> int" where
  "round_half_even t =
     (let f = \<lfloor>t\<rfloor>; r = t - of_int f
      in if r < 1 / 2 then f else if 1 / 2 < r then f + 1
         else if even f then f else f + 1)"

text \<open>
  Rounding a rational to binary64, to nearest with ties to even: 53 significant bits,
  least exponent of the last place \<open>-1074\<close> (subnormal numbers), and infinity from
  \<open>2^1024\<close> on.
\<close>

definition round_double :: "rat \<Rightarrow> pyfloat" where
  "round_double x =
     (if x = 0 then Finite 0
      else
        let a = \<bar>x\<bar>;
            q = max (ilog2 a) (- 1022) - 52;
            m = round_half_even (a / pow2 q);
            y = of_int m * pow2 q
        in if 2 ^ 1024 \<le> y then (if 0 < x then PosInf else NegInf)
           else Finite (if 0 < x then y else - y))"

fun fneg :: "pyfloat \<Rightarrow> pyfloat" where
  "fneg (Finite a) = Finite (- a)"
| "fneg PosInf = NegInf"
| "fneg NegInf = PosInf"
| "fneg NaN = NaN"

fun fadd :: "pyfloat \<Rightarrow> pyfloat \<Rightarrow> pyfloat" where
  "fadd NaN y = NaN"
| "fadd x NaN = NaN"
| "fadd (Finite a) (Finite b) = round_double (a + b)"
| "fadd PosInf NegInf = NaN"
| "fadd NegInf PosInf = NaN"
| "fadd PosInf y = PosInf"
| "fadd NegInf y = NegInf"
| "fadd (Finite a) y = y"

definition fsub :: "pyfloat \<Rightarrow> pyfloat \<Rightarrow> pyfloat" where
  "fsub x y = fadd x (fneg y)"

definition fsign_inf :: "bool \<Rightarrow> pyfloat" where
  "fsign_inf neg = (if neg then NegInf else PosInf)"

fun fis_neg :: "pyfloat \<Rightarrow> bool" where
  "fis_neg (Finite a) = (a < 0)"
| "fis_neg NegInf = True"
| "fis_neg x = False"

fun fmul :: "pyfloat \<Rightarrow> pyfloat \<Rightarrow> pyfloat" where
  "fmul NaN y = NaN"
| "fmul x NaN = NaN"
| "fmul (Finite a) (Finite b) = round_double (a * b)"
| "fmul (Finite a) y = (if a = 0 then NaN else fsign_inf (fis_neg y \<noteq> (a < 0)))"
| "fmul x (Finite b) = (if b = 0 then NaN else fsign_inf (fis_neg x \<noteq> (b < 0)))"
| "fmul x y = fsign_inf (fis_neg x \<noteq> fis_neg y)"

text \<open>
  The IEEE quotient for a divisor that is not zero; Python's \<open>/\<close> raises before it
  divides by zero (see \<open>py_truediv\<close>).
\<close>

fun fdiv :: "pyfloat \<Rightarrow> pyfloat \<Rightarrow> pyfloat" where
  "fdiv NaN y = NaN"
| "fdiv x NaN = NaN"
| "fdiv (Finite a) (Finite b) = round_double (a / b)"
| "fdiv (Finite a) y = Finite 0"
| "fdiv x (Finite b) = fsign_inf (fis_neg x \<noteq> (b < 0))"
| "fdiv x y = NaN"

text \<open>\<open>x < y\<close> on floats: false whenever an operand is not-a-number.\<close>

fun fless :: "pyfloat \<Rightarrow> pyfloat \<Rightarrow> bool" where
  "fless NaN y = False"
| "fless x NaN = False"
| "fless (Finite a) (Finite b) = (a < b)"
| "fless x PosInf = (x \<noteq> PosInf)"
| "fless NegInf y = (y \<noteq> NegInf)"
| "fless x y = False"

definition fle :: "pyfloat \<Rightarrow> pyfloat \<Rightarrow> bool" where
  "fle x y = (x \<noteq> NaN \<and> y \<noteq> NaN \<and> (x = y \<or> fless x y))"

text \<open>
  Converting an \<open>int\<close> operand to \<open>float\<close> rounds to nearest and raises
  \<open>OverflowError\<close> when the result is not finite.
\<close>

definition int_to_float :: "int \<Rightarrow> pyerror + pyfloat" where
  "int_to_float i =
     (case round_double (of_int i) of
        Finite r \<Rightarrow> Inr (Finite r)
      | _ \<Rightarrow> Inl OverflowError)"


subsection \<open>\<open>int(s)\<close> and \<open>float(s)\<close> on a string\<close>

text \<open>
  A digit part is \<open>digit (["_"] digit)*\<close>: single underscores between digits are
  allowed and dropped. The result is the digits alone.
\<close>

fun digitpart :: "string \<Rightarrow> string option" where
  "digitpart [] = None"
| "digitpart [c] = (if is_digit c then Some [c] else None)"
| "digitpart (c # d # r) =
     (if is_digit c
      then (if d = CHR ''_'' then map_option (Cons c) (digitpart r)
            else map_option (Cons c) (digitpart (d # r)))
      else None)"

definition dec_value :: "string \<Rightarrow> nat" where
  "dec_value ds = foldl (\<lambda>a c. 10 * a + digit_val c) 0 ds"

text \<open>An optional sign in front: whether it is a minus, and the rest.\<close>

fun split_sign :: "string \<Rightarrow> bool \<times> string" where
  "split_sign [] = (False, [])"
| "split_sign (c # r) =
     (if c = CHR ''-'' then (True, r) else if c = CHR ''+'' then (False, r)
      else (False, c # r))"

text \<open>
  CPython's default limit on the number of digits of a decimal string that \<open>int\<close>
  converts (\<open>sys.get_int_max_str_digits()\<close>); a longer one raises \<open>ValueError\<close>.
\<close>

definition int_max_str_digits :: nat where
  "int_max_str_digits = 4300"

definition py_int :: "string \<Rightarrow> pyerror + int" where
  "py_int s =
     (case split_sign (py_strip s) of
        (neg, b) \<Rightarrow>
          (case digitpart b of
             None \<Rightarrow> Inl ValueError
           | Some ds \<Rightarrow>
               if int_max_str_digits < length ds then Inl ValueError
               else Inr (if neg then - int (dec_value ds) else int (dec_value ds))))"

definition pow10 :: "int \<Rightarrow> rat" where
  "pow10 e = (if 0 \<le> e then 10 ^ nat e else 1 / 10 ^ nat (- e))"

definition lower :: "char \<Rightarrow> char" where
  "lower c =
     (let n = (of_char c :: nat)
      in if 65 \<le> n \<and> n \<le> 90 then char_of (n + 32) else c)"

definition is_exp_marker :: "char \<Rightarrow> bool" where
  "is_exp_marker c = (c = CHR ''e'' \<or> c = CHR ''E'')"

text \<open>
  The text before the first character satisfying \<open>P\<close>, and the text after it when
  there is one.
\<close>

definition split_first :: "(char \<Rightarrow> bool) \<Rightarrow> string \<Rightarrow> string \<times> string option" where
  "split_first P s =
     (takeWhile (\<lambda>c. \<not> P c) s,
      case dropWhile (\<lambda>c. \<not> P c) s of [] \<Rightarrow> None | _ # r \<Rightarrow> Some r)"

text \<open>An optional digit part: the empty text gives no digits.\<close>

definition opt_digitpart :: "string \<Rightarrow> string option" where
  "opt_digitpart s = (if s = [] then Some [] else digitpart s)"

text \<open>
  The decimal number a \<open>float\<close> string denotes, exactly:
  \<open>[digits] ["." [digits]] [("e" | "E") ["+" | "-"] digits]\<close> with a digit before or
  after the point.
\<close>

definition parse_decimal :: "string \<Rightarrow> rat option" where
  "parse_decimal b =
     (case split_first is_exp_marker b of
        (mant, ex) \<Rightarrow>
          (case split_first (\<lambda>c. c = CHR ''.'') mant of
             (ip, fp) \<Rightarrow>
               (let frac = (case fp of None \<Rightarrow> [] | Some f \<Rightarrow> f);
                    e = (case ex of
                           None \<Rightarrow> Some 0
                         | Some es \<Rightarrow>
                             (case split_sign es of
                                (eneg, ed) \<Rightarrow>
                                  map_option
                                    (\<lambda>ds. if eneg then - int (dec_value ds)
                                          else int (dec_value ds))
                                    (digitpart ed)))
                in if ip = [] \<and> frac = [] then None
                   else
                     (case (opt_digitpart ip, opt_digitpart frac, e) of
                        (Some ids, Some fds, Some n) \<Rightarrow>
                          Some (of_nat (dec_value (ids @ fds)) * pow10 (n - int (length fds)))
                      | _ \<Rightarrow> None))))"

text \<open>
  \<open>float(s)\<close>: surrounding whitespace is dropped; \<open>inf\<close>, \<open>infinity\<close> and \<open>nan\<close>
  are read in any case, with an optional sign; a decimal number is rounded to the
  nearest binary64 value, and to infinity when it is too large; anything else raises
  \<open>ValueError\<close>.
\<close>

definition py_float :: "string \<Rightarrow> pyerror + pyfloat" where
  "py_float s =
     (case split_sign (py_strip s) of
        (neg, b) \<Rightarrow>
          if map lower b = ''inf'' \<or> map lower b = ''infinity''
          then Inr (if neg then NegInf else PosInf)
          else if map lower b = ''nan'' then Inr NaN
          else
            (case parse_decimal b of
               None \<Rightarrow> Inl ValueError
             | Some r \<Rightarrow> Inr (round_double (if neg then - r else r))))"

subsection \<open>Operators on values\<close>

text \<open>The truth value of a number or string as a condition.\<close>

fun py_truthy :: "pyvalue \<Rightarrow> bool" where
  "py_truthy (PyInt i) = (i \<noteq> 0)"
| "py_truthy (PyFloat f) = (f \<noteq> Finite 0)"
| "py_truthy (PyStr s) = (s \<noteq> [])"

fun to_float :: "pyvalue \<Rightarrow> pyerror + pyfloat" where
  "to_float (PyInt i) = int_to_float i"
| "to_float (PyFloat f) = Inr f"
| "to_float (PyStr s) = Inl TypeError"

definition bind :: "pyerror + 'a \<Rightarrow> ('a \<Rightarrow> pyerror + 'b) \<Rightarrow> pyerror + 'b" where
  "bind r f = (case r of Inl e \<Rightarrow> Inl e | Inr v \<Rightarrow> f v)"

text \<open>
  \<open>a / b\<close>. Two \<open>int\<close>s give the correctly rounded quotient, or \<open>OverflowError\<close>
  when it is too large for a \<open>float\<close>; with a \<open>float\<close> operand both are converted
  first; a zero divisor raises \<open>ZeroDivisionError\<close>; a string operand raises
  \<open>TypeError\<close>.
\<close>

fun py_truediv :: "pyvalue \<Rightarrow> pyvalue \<Rightarrow> pyerror + pyvalue" where
  "py_truediv (PyStr s) b = Inl TypeError"
| "py_truediv a (PyStr s) = Inl TypeError"
| "py_truediv (PyInt i) (PyInt j) =
     (if j = 0 then Inl ZeroDivisionError
      else (case round_double (of_int i / of_int j) of
              Finite r \<Rightarrow> Inr (PyFloat (Finite r))
            | _ \<Rightarrow> Inl OverflowError))"
| "py_truediv a b =
     bind (to_float a) (\<lambda>x. bind (to_float b) (\<lambda>y.
       if y = Finite 0 then Inl ZeroDivisionError else Inr (PyFloat (fdiv x y))))"

text \<open>\<open>a - b\<close>.\<close>

fun py_sub :: "pyvalue \<Rightarrow> pyvalue \<Rightarrow> pyerror + pyvalue" where
  "py_sub (PyStr s) b = Inl TypeError"
| "py_sub a (PyStr s) = Inl TypeError"
| "py_sub (PyInt i) (PyInt j) = Inr (PyInt (i - j))"
| "py_sub a b =
     bind (to_float a) (\<lambda>x. bind (to_float b) (\<lambda>y. Inr (PyFloat (fsub x y))))"

text \<open>
  \<open>a * b\<close>. A string times an \<open>int\<close> repeats the string: the count has to fit a
  machine index of 64 bits, and so has the length of the result, or \<open>OverflowError\<close> is
  raised; a count of zero or less gives the empty string. (The memory of the machine,
  which a long result can exhaust, is not modelled.)
\<close>

definition str_repeat :: "string \<Rightarrow> int \<Rightarrow> pyerror + pyvalue" where
  "str_repeat s n =
     (if n < - (2 ^ 63) \<or> 2 ^ 63 \<le> n then Inl OverflowError
      else if n \<le> 0 \<or> s = [] then Inr (PyStr [])
      else if 2 ^ 63 - 1 < int (length s) * n then Inl OverflowError
      else Inr (PyStr (concat (replicate (nat n) s))))"

fun py_mul :: "pyvalue \<Rightarrow> pyvalue \<Rightarrow> pyerror + pyvalue" where
  "py_mul (PyStr s) (PyInt n) = str_repeat s n"
| "py_mul (PyInt n) (PyStr s) = str_repeat s n"
| "py_mul (PyStr s) b = Inl TypeError"
| "py_mul a (PyStr s) = Inl TypeError"
| "py_mul (PyInt i) (PyInt j) = Inr (PyInt (i * j))"
| "py_mul a b =
     bind (to_float a) (\<lambda>x. bind (to_float b) (\<lambda>y. Inr (PyFloat (fmul x y))))"

fun py_add :: "pyvalue \<Rightarrow> pyvalue \<Rightarrow> pyerror + pyvalue" where
  "py_add (PyStr s) (PyStr t) = Inr (PyStr (s @ t))"
| "py_add (PyStr s) b = Inl TypeError"
| "py_add a (PyStr s) = Inl TypeError"
| "py_add (PyInt i) (PyInt j) = Inr (PyInt (i + j))"
| "py_add a b =
     bind (to_float a) (\<lambda>x. bind (to_float b) (\<lambda>y. Inr (PyFloat (fadd x y))))"

text \<open>
  \<open>v > n\<close> for an \<open>int\<close> literal \<open>n\<close>: numbers are compared by their exact values, a
  string raises \<open>TypeError\<close>.
\<close>

fun py_gt_int :: "pyvalue \<Rightarrow> int \<Rightarrow> pyerror + bool" where
  "py_gt_int (PyInt i) n = Inr (n < i)"
| "py_gt_int (PyFloat f) n = Inr (fless (Finite (of_int n)) f)"
| "py_gt_int (PyStr s) n = Inl TypeError"

text \<open>
  \<open>int(v)\<close>: a finite \<open>float\<close> is truncated towards zero, an infinity raises
  \<open>OverflowError\<close>, not-a-number raises \<open>ValueError\<close>, a string is parsed.
\<close>

fun py_int_of_value :: "pyvalue \<Rightarrow> pyerror + int" where
  "py_int_of_value (PyInt i) = Inr i"
| "py_int_of_value (PyFloat (Finite r)) = Inr (if 0 \<le> r then \<lfloor>r\<rfloor> else \<lceil>r\<rceil>)"
| "py_int_of_value (PyFloat NaN) = Inl ValueError"
| "py_int_of_value (PyFloat f) = Inl OverflowError"
| "py_int_of_value (PyStr s) = py_int s"

subsection \<open>Dictionaries\<close>

text \<open>
  A \<open>dict\<close> with string keys is an association list in insertion order with distinct
  keys: assigning to a key that is present replaces its value in place, a new key goes
  to the end.
\<close>

type_synonym 'v dict = "(string \<times> 'v) list"

definition dict_get :: "'v dict \<Rightarrow> string \<Rightarrow> 'v option" where
  "dict_get d k = map_of d k"

definition dict_get_default :: "'v dict \<Rightarrow> string \<Rightarrow> 'v \<Rightarrow> 'v" where
  "dict_get_default d k dflt = (case map_of d k of None \<Rightarrow> dflt | Some v \<Rightarrow> v)"

definition dict_index :: "'v dict \<Rightarrow> string \<Rightarrow> pyerror + 'v" where
  "dict_index d k = (case map_of d k of None \<Rightarrow> Inl KeyError | Some v \<Rightarrow> Inr v)"

definition dict_set :: "'v dict \<Rightarrow> string \<Rightarrow> 'v \<Rightarrow> 'v dict" where
  "dict_set d k v = AList.update k v d"

definition dict_keys :: "'v dict \<Rightarrow> string list" where
  "dict_keys d = map fst d"

text \<open>
  The file system as far as the scripts see it: the text of each file that exists.
\<close>

type_synonym filesystem = "string \<Rightarrow> string option"


section \<open>\<open>scripts/analyze_results.py\<close> (instruction-level parallelism experiments)\<close>

text \<open>
  The body of the \<open>try\<close> in \<open>parse_stats_file\<close>: \<open>float\<close> when the value has a
  point, \<open>int\<close> otherwise; \<open>except ValueError\<close> stores the text itself.
\<close>

definition analyze_results_store ::
  "pyvalue dict \<Rightarrow> string \<Rightarrow> string \<Rightarrow> pyerror + pyvalue dict" where
  "analyze_results_store stats stat_name stat_value =
     (case (if contains stat_value ''.''
            then map_sum id PyFloat (py_float stat_value)
            else map_sum id PyInt (py_int stat_value)) of
        Inr v \<Rightarrow> Inr (dict_set stats stat_name v)
      | Inl ValueError \<Rightarrow> Inr (dict_set stats stat_name (PyStr stat_value))
      | Inl e \<Rightarrow> Inl e)"

fun analyze_results_parse_lines ::
  "pyvalue dict \<Rightarrow> string list \<Rightarrow> pyerror + pyvalue dict" where
  "analyze_results_parse_lines stats [] = Inr stats"
| "analyze_results_parse_lines stats (line # rest) =
     (if startswith line ''#'' \<or> py_strip line = []
      then analyze_results_parse_lines stats rest
      else
        (let parts = py_split line
         in if 2 \<le> length parts
            then (case analyze_results_store stats (parts ! 0) (parts ! 1) of
                    Inl e \<Rightarrow> Inl e
                  | Inr stats' \<Rightarrow> analyze_results_parse_lines stats' rest)
            else analyze_results_parse_lines stats rest))"

text \<open>A file that does not exist gives the empty dictionary (after a warning).\<close>

definition analyze_results_parse_stats_file ::
  "filesystem \<Rightarrow> string \<Rightarrow> pyerror + pyvalue dict" where
  "analyze_results_parse_stats_file fs filename =
     (case fs filename of
        None \<Rightarrow> Inr []
      | Some text \<Rightarrow> analyze_results_parse_lines [] (file_lines text))"

text \<open>
  \<open>analyze_experiment\<close>, without the text it prints; the \<open>int(...)\<close> conversions inside
  the printed lines are kept because they can raise. \<open>None\<close> is the result for an empty
  dictionary of statistics.
\<close>

definition analyze_experiment ::
  "filesystem \<Rightarrow> string \<Rightarrow> pyerror + pyvalue dict option" where
  "analyze_experiment fs stats_file =
     bind (analyze_results_parse_stats_file fs stats_file) (\<lambda>stats.
       if stats = [] then Inr None
       else
         (let insts =
                (case dict_get stats ''system.cpu.numInsts'' of
                   Some v \<Rightarrow> Some v
                 | None \<Rightarrow> dict_get stats ''system.cpu.commitStats0.committedInsts'');
              cycles = dict_get_default stats ''system.cpu.numCycles'' (PyInt 0)
          in case insts of
               None \<Rightarrow> Inr (Some [])
             | Some i \<Rightarrow>
                 if py_truthy i \<and> py_truthy cycles
                 then
                   bind (py_truediv i cycles) (\<lambda>ipc.
                   bind (py_truediv cycles i) (\<lambda>cpi.
                     (let results =
                            dict_set (dict_set (dict_set (dict_set []
                              ''instructions'' i) ''cycles'' cycles) ''ipc'' ipc) ''cpi'' cpi
                      in bind (py_int_of_value i) (\<lambda>_.
                         bind (py_int_of_value cycles) (\<lambda>_.
                           (let bp_predicted =
                                  dict_get_default stats
                                    ''system.cpu.branchPred.condPredicted'' (PyInt 0);
                                bp_incorrect =
                                  dict_get_default stats
                                    ''system.cpu.branchPred.condIncorrect'' (PyInt 0)
                            in bind (py_gt_int bp_predicted 0) (\<lambda>positive.
                                 if positive
                                 then
                                   bind (py_sub bp_predicted bp_incorrect) (\<lambda>d.
                                   bind (py_truediv d bp_predicted) (\<lambda>q.
                                   bind (py_mul q (PyInt 100)) (\<lambda>bp_accuracy.
                                     Inr (Some (dict_set results
                                                  ''branch_accuracy'' bp_accuracy)))))
                                 else Inr (Some results))))))))
                 else Inr (Some [])))"

section \<open>\<open>DLP/parse_gem_stat.py\<close>\<close>

definition parse_gem_stat_store ::
  "pyvalue dict \<Rightarrow> string \<Rightarrow> string \<Rightarrow> pyerror + pyvalue dict" where
  "parse_gem_stat_store stats key val =
     (case py_float val of
        Inr f \<Rightarrow> Inr (dict_set stats key (PyFloat f))
      | Inl ValueError \<Rightarrow> Inr (dict_set stats key (PyStr val))
      | Inl e \<Rightarrow> Inl e)"

fun parse_gem_stat_parse_lines ::
  "pyvalue dict \<Rightarrow> string list \<Rightarrow> pyerror + pyvalue dict" where
  "parse_gem_stat_parse_lines stats [] = Inr stats"
| "parse_gem_stat_parse_lines stats (line # rest) =
     (if contains line ''::'' \<and> \<not> startswith line ''#''
      then
        (let parts = py_split line
         in if 2 \<le> length parts
            then (case parse_gem_stat_store stats (parts ! 0) (parts ! 1) of
                    Inl e \<Rightarrow> Inl e
                  | Inr stats' \<Rightarrow> parse_gem_stat_parse_lines stats' rest)
            else parse_gem_stat_parse_lines stats rest)
      else parse_gem_stat_parse_lines stats rest)"

text \<open>The file is opened without a test: a missing one raises \<open>FileNotFoundError\<close>.\<close>

definition parse_gem_stat_parse_stats_file ::
  "filesystem \<Rightarrow> string \<Rightarrow> pyerror + pyvalue dict" where
  "parse_gem_stat_parse_stats_file fs stats_file =
     (case fs stats_file of
        None \<Rightarrow> Inl FileNotFoundError
      | Some text \<Rightarrow> parse_gem_stat_parse_lines [] (file_lines text))"

text \<open>The dictionary display of \<open>extract_key_metrics\<close>, evaluated item by item.\<close>

definition extract_key_metrics :: "pyvalue dict \<Rightarrow> pyerror + pyvalue dict" where
  "extract_key_metrics stats =
     bind (py_truediv
             (dict_get_default stats ''system.cpu.dcache.overallHits::total'' (PyInt 0))
             (dict_get_default stats ''system.cpu.dcache.overallAccesses::total'' (PyInt 1)))
       (\<lambda>dcache_hit_rate.
     bind (py_truediv
             (dict_get_default stats ''system.cpu.icache.overallHits::total'' (PyInt 0))
             (dict_get_default stats ''system.cpu.icache.overallAccesses::total'' (PyInt 1)))
       (\<lambda>icache_hit_rate.
       Inr [(''sim_seconds'', dict_get_default stats ''sim_seconds'' (PyInt 0)),
            (''sim_ticks'', dict_get_default stats ''sim_ticks'' (PyInt 0)),
            (''sim_insts'', dict_get_default stats ''system.cpu.committedInsts'' (PyInt 0)),
            (''ipc'', dict_get_default stats ''system.cpu.ipc'' (PyInt 0)),
            (''dcache_hit_rate'', dcache_hit_rate),
            (''icache_hit_rate'', icache_hit_rate)]))"


section \<open>\<open>Residency Project/extract_comparison_report.py\<close>\<close>

text \<open>
  Every pattern of \<open>parse_stats_file\<close> has the shape \<open>literal \s+ (class+)\<close>, the class
  being \<open>[\d.]\<close> or \<open>[\d]\<close>. No whitespace character is in either class, so a match at
  a position is: the literal, then the longest run of whitespace (not empty), then the
  longest run of class characters (not empty), which is the group.
\<close>

datatype capture_class = DigitsOrDots | DigitsOnly

fun in_class :: "capture_class \<Rightarrow> char \<Rightarrow> bool" where
  "in_class DigitsOrDots c = (is_digit c \<or> c = CHR ''.'')"
| "in_class DigitsOnly c = is_digit c"

definition match_here :: "string \<Rightarrow> capture_class \<Rightarrow> string \<Rightarrow> string option" where
  "match_here lit cls s =
     (if startswith s lit
      then
        (let r = drop (length lit) s;
             g = takeWhile (in_class cls) (dropWhile is_space r)
         in if takeWhile is_space r \<noteq> [] \<and> g \<noteq> [] then Some g else None)
      else None)"

text \<open>\<open>re.search\<close>: the group of the leftmost match.\<close>

fun re_search :: "string \<Rightarrow> capture_class \<Rightarrow> string \<Rightarrow> string option" where
  "re_search lit cls [] = match_here lit cls []"
| "re_search lit cls (c # cs) =
     (case match_here lit cls (c # cs) of
        Some g \<Rightarrow> Some g
      | None \<Rightarrow> re_search lit cls cs)"

definition patterns :: "(string \<times> string \<times> capture_class) list" where
  "patterns =
     [(''sim_seconds'', ''sim_seconds'', DigitsOrDots),
      (''sim_insts'', ''sim_insts'', DigitsOnly),
      (''ipc'', ''system.cpu.ipc'', DigitsOrDots),
      (''num_cycles'', ''system.cpu.numCycles'', DigitsOnly),
      (''icache_miss_rate'', ''system.cpu.icache.overallMissRate::total'', DigitsOrDots),
      (''dcache_miss_rate'', ''system.cpu.dcache.overallMissRate::total'', DigitsOrDots),
      (''l2cache_miss_rate'', ''system.l2cache.overallMissRate::total'', DigitsOrDots),
      (''icache_misses'', ''system.cpu.icache.overallMisses::total'', DigitsOnly),
      (''dcache_misses'', ''system.cpu.dcache.overallMisses::total'', DigitsOnly),
      (''l2cache_misses'', ''system.l2cache.overallMisses::total'', DigitsOnly)]"

text \<open>The loop over the patterns: \<open>float\<close> of the group, or \<open>0.0\<close> without a match.\<close>

fun extract_patterns ::
  "string \<Rightarrow> (string \<times> string \<times> capture_class) list \<Rightarrow> pyvalue dict
     \<Rightarrow> pyerror + pyvalue dict" where
  "extract_patterns content [] metrics = Inr metrics"
| "extract_patterns content ((key, lit, cls) # rest) metrics =
     (case re_search lit cls content of
        None \<Rightarrow> extract_patterns content rest (dict_set metrics key (PyFloat (Finite 0)))
      | Some g \<Rightarrow>
          (case py_float g of
             Inl e \<Rightarrow> Inl e
           | Inr f \<Rightarrow> extract_patterns content rest (dict_set metrics key (PyFloat f))))"

definition hit_rate_of :: "pyvalue dict \<Rightarrow> string \<Rightarrow> pyerror + pyvalue" where
  "hit_rate_of metrics miss_key =
     py_sub (PyFloat (Finite 1)) (dict_get_default metrics miss_key (PyFloat (Finite 0)))"

definition calculate_hit_rates :: "pyvalue dict \<Rightarrow> pyerror + pyvalue dict" where
  "calculate_hit_rates metrics =
     bind (hit_rate_of metrics ''icache_miss_rate'') (\<lambda>i.
       (let m1 = dict_set metrics ''icache_hit_rate'' i
        in bind (hit_rate_of m1 ''dcache_miss_rate'') (\<lambda>d.
             (let m2 = dict_set m1 ''dcache_hit_rate'' d
              in bind (hit_rate_of m2 ''l2cache_miss_rate'') (\<lambda>l.
                   Inr (dict_set m2 ''l2cache_hit_rate'' l))))))"

text \<open>
  \<open>parse_stats_file\<close>: \<open>None\<close> for a missing file, and \<open>None\<close> again when anything
  in the \<open>try\<close> raises (\<open>except Exception\<close>).
\<close>

definition extract_comparison_report_parse_stats_file ::
  "filesystem \<Rightarrow> string \<Rightarrow> pyvalue dict option" where
  "extract_comparison_report_parse_stats_file fs stats_file =
     (case fs stats_file of
        None \<Rightarrow> None
      | Some content \<Rightarrow>
          (case bind (extract_patterns content patterns []) calculate_hit_rates of
             Inl e \<Rightarrow> None
           | Inr metrics \<Rightarrow> Some metrics))"

text \<open>The \<open>float\<close> a decimal literal of the program text denotes.\<close>

definition float_lit :: "rat \<Rightarrow> pyfloat" where
  "float_lit r = round_double r"

definition op_params :: "(string \<times> pyfloat \<times> pyfloat) list" where
  "op_params =
     [(''low_power'', float_lit 100000000, float_lit (6 / 10)),
      (''balanced'', float_lit 200000000, float_lit (75 / 100)),
      (''high_perf'', float_lit 350000000, float_lit (9 / 10)),
      (''max_perf'', float_lit 500000000, float_lit 1)]"

text \<open>
  \<open>calculate_power_metrics\<close>. The power operator \<open>**\<close> on floats is the platform's
  \<open>pow\<close>, whose rounding IEEE 754 does not fix: it is the parameter \<open>pw\<close>.
\<close>

definition calculate_power_metrics ::
  "(pyfloat \<Rightarrow> pyfloat \<Rightarrow> pyfloat) \<Rightarrow> pyvalue dict \<Rightarrow> string \<Rightarrow> pyerror + pyvalue dict" where
  "calculate_power_metrics pw metrics op_name =
     (case (case map_of op_params op_name of
              None \<Rightarrow> (float_lit 200000000, float_lit (75 / 100))
            | Some fv \<Rightarrow> fv) of
        (freq, voltage) \<Rightarrow>
          (let base_cap = float_lit (50 * pow10 (- 12));
               activity = float_lit (5 / 10);
               dynamic_power =
                 fmul (fmul (fmul base_cap (pw voltage (Finite 2))) freq) activity;
               static_power = fmul (float_lit (3 / 1000)) (pw voltage (float_lit (15 / 10)));
               total_power = fadd dynamic_power static_power
           in bind (dict_index metrics ''sim_seconds'') (\<lambda>sim_seconds.
              bind (py_mul (PyFloat total_power) sim_seconds) (\<lambda>total_energy.
              bind (dict_index metrics ''sim_insts'') (\<lambda>sim_insts.
              bind (py_gt_int sim_insts 0) (\<lambda>positive.
              bind (if positive
                    then bind (dict_index metrics ''sim_insts'') (py_truediv total_energy)
                    else Inr (PyInt 0)) (\<lambda>energy_per_inst.
              bind (py_mul (PyFloat dynamic_power) (PyInt 1000)) (\<lambda>dynamic_mW.
              bind (py_mul (PyFloat static_power) (PyInt 1000)) (\<lambda>static_mW.
              bind (py_mul (PyFloat total_power) (PyInt 1000)) (\<lambda>total_mW.
              bind (py_mul total_energy (PyInt 1000)) (\<lambda>energy_mJ.
              bind (py_mul energy_per_inst (PyFloat (float_lit (pow10 12)))) (\<lambda>per_inst_pJ.
                Inr [(''frequency_MHz'', PyFloat (fdiv freq (float_lit 1000000))),
                     (''voltage_V'', PyFloat voltage),
                     (''dynamic_power_mW'', dynamic_mW),
                     (''static_power_mW'', static_mW),
                     (''total_power_mW'', total_mW),
                     (''total_energy_mJ'', energy_mJ),
                     (''energy_per_inst_pJ'', per_inst_pJ)]))))))))))))"

section \<open>\<open>DLP/energy_efficincy_analysis.py\<close>\<close>

text \<open>
  The fields of the data class are annotated \<open>int\<close> or \<open>float\<close> and not checked:
  each numeric field holds a value.
\<close>

record ProcessorConfig =
  name :: string
  cores :: pyvalue
  frequency_ghz :: pyvalue
  voltage :: pyvalue
  power_tdp :: pyvalue
  simd_width :: pyvalue
  cache_size_mb :: pyvalue

text \<open>\<open>a < b\<close>: numbers by their exact values, strings by code points.\<close>

fun str_less :: "string \<Rightarrow> string \<Rightarrow> bool" where
  "str_less s [] = False"
| "str_less [] (d # t) = True"
| "str_less (c # s) (d # t) =
     ((of_char c :: nat) < of_char d \<or> (c = d \<and> str_less s t))"

fun num_as_float :: "pyvalue \<Rightarrow> pyfloat" where
  "num_as_float (PyInt i) = Finite (of_int i)"
| "num_as_float (PyFloat f) = f"
| "num_as_float (PyStr s) = NaN"

fun py_lt :: "pyvalue \<Rightarrow> pyvalue \<Rightarrow> pyerror + bool" where
  "py_lt (PyStr s) (PyStr t) = Inr (str_less s t)"
| "py_lt (PyStr s) b = Inl TypeError"
| "py_lt a (PyStr t) = Inl TypeError"
| "py_lt a b = Inr (fless (num_as_float a) (num_as_float b))"

text \<open>\<open>min(a, b)\<close>: the second when it is smaller, the first otherwise.\<close>

definition py_min :: "pyvalue \<Rightarrow> pyvalue \<Rightarrow> pyerror + pyvalue" where
  "py_min a b = bind (py_lt b a) (\<lambda>smaller. Inr (if smaller then b else a))"

definition calculate_performance :: "ProcessorConfig \<Rightarrow> pyvalue \<Rightarrow> pyerror + pyvalue" where
  "calculate_performance config workload_size =
     bind (py_mul (cores config) (frequency_ghz config)) (\<lambda>cf.
     bind (py_mul cf (PyFloat (float_lit (pow10 9)))) (\<lambda>base_perf.
     bind (py_mul base_perf (simd_width config)) (\<lambda>bs.
     bind (py_mul bs (PyFloat (float_lit (85 / 100)))) (\<lambda>simd_perf.
     bind (py_truediv workload_size (PyFloat (float_lit (pow10 6)))) (\<lambda>w.
     bind (py_truediv (cache_size_mb config) w) (\<lambda>c.
     bind (py_min (PyFloat (float_lit 1)) c) (\<lambda>cache_factor.
       py_mul simd_perf cache_factor)))))))"

definition calculate_power :: "ProcessorConfig \<Rightarrow> pyvalue \<Rightarrow> pyerror + pyvalue" where
  "calculate_power config utilization =
     bind (py_mul (power_tdp config) (PyFloat (float_lit (3 / 10)))) (\<lambda>idle_power.
     bind (py_mul (power_tdp config) (PyFloat (float_lit (7 / 10)))) (\<lambda>p.
     bind (py_mul p utilization) (\<lambda>dynamic_power.
       py_add idle_power dynamic_power)))"

definition calculate_energy :: "ProcessorConfig \<Rightarrow> pyvalue \<Rightarrow> pyerror + pyvalue" where
  "calculate_energy config workload_size =
     bind (calculate_performance config workload_size) (\<lambda>perf.
     bind (py_truediv workload_size perf) (\<lambda>time_seconds.
     bind (calculate_power config (PyFloat (float_lit 1))) (\<lambda>power.
       py_mul power time_seconds)))"

definition calculate_energy_efficiency ::
  "ProcessorConfig \<Rightarrow> pyvalue \<Rightarrow> pyerror + pyvalue" where
  "calculate_energy_efficiency config workload_size =
     bind (calculate_energy config workload_size) (\<lambda>energy.
       py_truediv workload_size energy)"


section \<open>Auxiliary definitions for the statements\<close>

text \<open>A file system without files, and one that holds a single file.\<close>

definition no_files :: filesystem where
  "no_files = (\<lambda>p. None)"

definition only_file :: "string \<Rightarrow> string \<Rightarrow> filesystem" where
  "only_file path text = (\<lambda>p. if p = path then Some text else None)"

text \<open>The three assignments of the hit rates, for miss rates \<open>a\<close>, \<open>b\<close> and \<open>c\<close>.\<close>

definition with_hit_rates ::
  "pyvalue dict \<Rightarrow> pyfloat \<Rightarrow> pyfloat \<Rightarrow> pyfloat \<Rightarrow> pyvalue dict" where
  "with_hit_rates d a b c =
     dict_set (dict_set (dict_set d
       ''icache_hit_rate'' (PyFloat (fsub (Finite 1) a)))
       ''dcache_hit_rate'' (PyFloat (fsub (Finite 1) b)))
       ''l2cache_hit_rate'' (PyFloat (fsub (Finite 1) c))"

text \<open>
  The lines that \<open>parse_stats_file\<close> of \<open>analyze_results.py\<close> stores: not starting
  with \<open>#\<close>, not blank, with at least two tokens; the value it stores for a token;
  and the entries of a list of lines, in order.
\<close>

definition analyze_results_stat_line :: "string \<Rightarrow> bool" where
  "analyze_results_stat_line l =
     (\<not> startswith l ''#'' \<and> py_strip l \<noteq> [] \<and> 2 \<le> length (py_split l))"

definition analyze_results_value :: "string \<Rightarrow> pyvalue" where
  "analyze_results_value tok =
     (if contains tok ''.''
      then (case py_float tok of Inr x \<Rightarrow> PyFloat x | Inl e \<Rightarrow> PyStr tok)
      else (case py_int tok of Inr i \<Rightarrow> PyInt i | Inl e \<Rightarrow> PyStr tok))"

definition analyze_results_entries :: "string list \<Rightarrow> (string \<times> pyvalue) list" where
  "analyze_results_entries ls =
     map (\<lambda>l. (py_split l ! 0, analyze_results_value (py_split l ! 1)))
       (filter analyze_results_stat_line ls)"

text \<open>The same for \<open>parse_stats_file\<close> of \<open>parse_gem_stat.py\<close>.\<close>

definition parse_gem_stat_stat_line :: "string \<Rightarrow> bool" where
  "parse_gem_stat_stat_line l =
     (contains l ''::'' \<and> \<not> startswith l ''#'' \<and> 2 \<le> length (py_split l))"

definition parse_gem_stat_value :: "string \<Rightarrow> pyvalue" where
  "parse_gem_stat_value tok =
     (case py_float tok of Inr x \<Rightarrow> PyFloat x | Inl e \<Rightarrow> PyStr tok)"

definition parse_gem_stat_entries :: "string list \<Rightarrow> (string \<times> pyvalue) list" where
  "parse_gem_stat_entries ls =
     map (\<lambda>l. (py_split l ! 0, parse_gem_stat_value (py_split l ! 1)))
       (filter parse_gem_stat_stat_line ls)"

text \<open>Assigning a list of entries to a dictionary, one after the other.\<close>

definition dict_assign :: "'v dict \<Rightarrow> (string \<times> 'v) list \<Rightarrow> 'v dict" where
  "dict_assign d es = fold (\<lambda>kv acc. dict_set acc (fst kv) (snd kv)) es d"

text \<open>A plain integer literal: decimal digits and nothing else.\<close>

definition int_literal :: "string \<Rightarrow> bool" where
  "int_literal tok = (tok \<noteq> [] \<and> list_all is_digit tok)"

text \<open>A report of two lines, the first with a value that is no number.\<close>

definition malformed_report :: string where
  "malformed_report = ''a::b x1\<newline>c::d 7''"

text \<open>
  The two operands of \<open>analyze_experiment\<close>: the value of the first instruction-count
  key that is present, and the cycle count with its default \<open>0\<close>. A number is zero
  when it is the \<open>int\<close> \<open>0\<close> or the \<open>float\<close> \<open>0.0\<close>.
\<close>

definition insts_operand :: "pyvalue dict \<Rightarrow> pyvalue option" where
  "insts_operand stats =
     (case dict_get stats ''system.cpu.numInsts'' of
        Some v \<Rightarrow> Some v
      | None \<Rightarrow> dict_get stats ''system.cpu.commitStats0.committedInsts'')"

definition cycles_operand :: "pyvalue dict \<Rightarrow> pyvalue" where
  "cycles_operand stats = dict_get_default stats ''system.cpu.numCycles'' (PyInt 0)"

definition is_zero :: "pyvalue \<Rightarrow> bool" where
  "is_zero v = (v = PyInt 0 \<or> v = PyFloat (Finite 0))"

fun is_text :: "pyvalue \<Rightarrow> bool" where
  "is_text (PyStr s) = True"
| "is_text v = False"

text \<open>
  The two branch counts of \<open>analyze_experiment\<close>, with their default \<open>0\<close>. A number
  of finite size is an \<open>int\<close> below \<open>2^1022\<close> in size or a finite \<open>float\<close>; a plain
  number is such an \<open>int\<close> or any \<open>float\<close>.
\<close>

definition bp_predicted :: "pyvalue dict \<Rightarrow> pyvalue" where
  "bp_predicted stats =
     dict_get_default stats ''system.cpu.branchPred.condPredicted'' (PyInt 0)"

definition bp_incorrect :: "pyvalue dict \<Rightarrow> pyvalue" where
  "bp_incorrect stats =
     dict_get_default stats ''system.cpu.branchPred.condIncorrect'' (PyInt 0)"

fun finite_number :: "pyvalue \<Rightarrow> bool" where
  "finite_number (PyInt i) = (\<bar>i\<bar> < 2 ^ 1022)"
| "finite_number (PyFloat (Finite r)) = True"
| "finite_number v = False"

fun plain_number :: "pyvalue \<Rightarrow> bool" where
  "plain_number (PyInt i) = (\<bar>i\<bar> < 2 ^ 1022)"
| "plain_number (PyFloat x) = True"
| "plain_number (PyStr s) = False"

text \<open>
  The first configuration of \<open>EnergyEfficiencyAnalyzer\<close>, \<open>Scalar CPU\<close>, and the same
  with a thermal design power of zero.
\<close>

definition scalar_cpu :: ProcessorConfig where
  "scalar_cpu =
     \<lparr>name = ''Scalar CPU'', cores = PyInt 1, frequency_ghz = PyFloat (float_lit (35 / 10)),
      voltage = PyFloat (float_lit (12 / 10)), power_tdp = PyInt 65, simd_width = PyInt 1,
      cache_size_mb = PyInt 8\<rparr>"

definition zero_tdp_config :: ProcessorConfig where
  "zero_tdp_config = scalar_cpu\<lparr>power_tdp := PyInt 0\<rparr>"

text \<open>A stand-in for the platform's \<open>pow\<close> in examples: it always returns \<open>1.0\<close>.\<close>

definition sample_pow :: "pyfloat \<Rightarrow> pyfloat \<Rightarrow> pyfloat" where
  "sample_pow v e = Finite 1"

text \<open>
  A value that is zero or greater: a \<open>float\<close> compared with \<open>0.0\<close> (not-a-number is
  not), an \<open>int\<close> compared with \<open>0\<close>.
\<close>

fun value_non_negative :: "pyvalue \<Rightarrow> bool" where
  "value_non_negative (PyFloat x) = fle (Finite 0) x"
| "value_non_negative (PyInt i) = (0 \<le> i)"
| "value_non_negative (PyStr s) = False"

text \<open>
  The frequency and the voltage that \<open>calculate_power_metrics\<close> takes for the name of
  an operating point.
\<close>

definition operating_point :: "string \<Rightarrow> pyfloat \<times> pyfloat" where
  "operating_point op_name =
     (case map_of op_params op_name of
        None \<Rightarrow> (float_lit 200000000, float_lit (75 / 100))
      | Some fv \<Rightarrow> fv)"

text \<open>
  The number that a count of hits or accesses stands for: a finite \<open>float\<close>, or an
  \<open>int\<close> that a \<open>float\<close> holds exactly. The operands of the two hit rates of
  \<open>extract_key_metrics\<close>, with their defaults.
\<close>

fun rate_operand :: "pyvalue \<Rightarrow> rat option" where
  "rate_operand (PyFloat (Finite r)) = Some r"
| "rate_operand (PyInt i) = (if \<bar>i\<bar> < 2 ^ 53 then Some (of_int i) else None)"
| "rate_operand v = None"

definition dcache_hits :: "pyvalue dict \<Rightarrow> pyvalue" where
  "dcache_hits stats =
     dict_get_default stats ''system.cpu.dcache.overallHits::total'' (PyInt 0)"

definition dcache_accesses :: "pyvalue dict \<Rightarrow> pyvalue" where
  "dcache_accesses stats =
     dict_get_default stats ''system.cpu.dcache.overallAccesses::total'' (PyInt 1)"

definition icache_hits :: "pyvalue dict \<Rightarrow> pyvalue" where
  "icache_hits stats =
     dict_get_default stats ''system.cpu.icache.overallHits::total'' (PyInt 0)"

definition icache_accesses :: "pyvalue dict \<Rightarrow> pyvalue" where
  "icache_accesses stats =
     dict_get_default stats ''system.cpu.icache.overallAccesses::total'' (PyInt 1)"

text \<open>The miss-rate key and the hit-rate key of each cache.\<close>

definition rate_keys :: "(string \<times> string) list" where
  "rate_keys =
     [(''icache_miss_rate'', ''icache_hit_rate''),
      (''dcache_miss_rate'', ''dcache_hit_rate''),
      (''l2cache_miss_rate'', ''l2cache_hit_rate'')]"

text \<open>The two powers that \<open>calculate_power_metrics\<close> adds, as it computes them.\<close>

definition dynamic_power ::
  "(pyfloat \<Rightarrow> pyfloat \<Rightarrow> pyfloat) \<Rightarrow> pyfloat \<Rightarrow> pyfloat \<Rightarrow> pyfloat" where
  "dynamic_power pw freq volt =
     fmul (fmul (fmul (float_lit (50 * pow10 (- 12))) (pw volt (Finite 2))) freq)
       (float_lit (5 / 10))"

definition static_power :: "(pyfloat \<Rightarrow> pyfloat \<Rightarrow> pyfloat) \<Rightarrow> pyfloat \<Rightarrow> pyfloat" where
  "static_power pw volt = fmul (float_lit (3 / 1000)) (pw volt (float_lit (15 / 10)))"

section \<open>Facts about binary64 rounding\<close>

lemma pow2_powi: "pow2 e = 2 powi e"
  by (simp add: pow2_def power_int_def inverse_eq_divide power_one_over)

lemma pow2_pos: "0 < pow2 e"
  by (simp add: pow2_powi)

lemma pow2_add: "pow2 (a + b) = pow2 a * pow2 b"
  by (simp add: pow2_powi power_int_add)

lemma pow2_mono: "a \<le> b \<Longrightarrow> pow2 a \<le> pow2 b"
  by (simp add: pow2_powi power_int_increasing)

lemma pow2_nat: "0 \<le> e \<Longrightarrow> pow2 e = of_int (2 ^ nat e)"
  by (simp add: pow2_def)

lemma ilog2_lower:
  assumes "0 < a"
  shows "pow2 (ilog2 a) \<le> a"
proof (cases "1 \<le> a")
  case True
  then have fl: "0 < \<lfloor>a\<rfloor>" by simp
  have b1: "1 \<le> bitlen \<lfloor>a\<rfloor>"
    using fl bitlen_eq_zero_iff [of "\<lfloor>a\<rfloor>"] bitlen_nonneg [of "\<lfloor>a\<rfloor>"] by linarith
  have "(2::int) ^ nat (bitlen \<lfloor>a\<rfloor> - 1) \<le> \<lfloor>a\<rfloor>"
    using bitlen_bounds [OF fl] by simp
  then have "(of_int (2 ^ nat (bitlen \<lfloor>a\<rfloor> - 1)) :: rat) \<le> of_int \<lfloor>a\<rfloor>"
    by (simp only: of_int_le_iff)
  also have "\<dots> \<le> a" by simp
  finally show ?thesis
    using True b1 by (simp add: ilog2_def pow2_def)
next
  case False
  then have a1: "a < 1" by simp
  define n where "n = \<lceil>1 / a\<rceil> - 1"
  have "1 < 1 / a" using assms a1 by simp
  then have "1 < \<lceil>1 / a\<rceil>" by (simp add: less_ceiling_iff)
  then have npos: "0 < n" by (simp add: n_def)
  have "n < 2 ^ nat (bitlen n)" using bitlen_bounds [OF npos] by simp
  then have "\<lceil>1 / a\<rceil> \<le> 2 ^ nat (bitlen n)" by (simp add: n_def)
  then have "1 / a \<le> of_int (2 ^ nat (bitlen n))"
    by (simp only: ceiling_le_iff)
  then have "1 / a \<le> 2 ^ nat (bitlen n)" by simp
  then have "1 \<le> 2 ^ nat (bitlen n) * a"
    using assms by (simp add: field_simps)
  then have "1 / 2 ^ nat (bitlen n) \<le> a"
    by (simp add: field_simps)
  moreover have "pow2 (ilog2 a) = 1 / 2 ^ nat (bitlen n)"
    using False bitlen_nonneg [of n] by (auto simp add: ilog2_def pow2_def n_def)
  ultimately show ?thesis by simp
qed

lemma ilog2_le_zero: "a \<le> 1 \<Longrightarrow> ilog2 a \<le> 0"
  using bitlen_nonneg [of "\<lceil>1 / a\<rceil> - 1"]
  by (auto simp add: ilog2_def compute_bitlen [of 1])

lemma round_half_even_of_int: "round_half_even (of_int n) = n"
  by (simp add: round_half_even_def)

lemma round_half_even_nonneg: "0 \<le> t \<Longrightarrow> 0 \<le> round_half_even t"
  by (auto simp add: round_half_even_def Let_def)

lemma round_half_even_le:
  assumes "t \<le> of_int n"
  shows "round_half_even t \<le> n"
proof (cases "t = of_int n")
  case True
  then show ?thesis by (simp add: round_half_even_of_int)
next
  case False
  with assms have "t < of_int n" by simp
  then have "\<lfloor>t\<rfloor> < n" by (simp add: floor_less_iff)
  then show ?thesis by (auto simp add: round_half_even_def Let_def)
qed

text \<open>A value with at most 53 significant bits in the exponent range rounds to itself.\<close>

lemma round_double_exact_pos:
  assumes m: "0 < m" "m < 2 ^ 53" and q: "- 1074 \<le> q" "q \<le> 971"
  shows "round_double (of_int m * pow2 q) = Finite (of_int m * pow2 q)"
proof -
  define a :: rat where "a = of_int m * pow2 q"
  have apos: "0 < a" using m pow2_pos [of q] by (simp add: a_def)
  have "(of_int m :: rat) < of_int (2 ^ 53)" using m by (simp only: of_int_less_iff)
  then have "a < of_int (2 ^ 53) * pow2 q"
    unfolding a_def using pow2_pos [of q] by (simp only: mult_strict_right_mono)
  also have "\<dots> = pow2 53 * pow2 q" by (simp add: pow2_def)
  also have "\<dots> = pow2 (53 + q)" by (simp only: pow2_add)
  finally have up: "a < pow2 (53 + q)" .
  have lg: "ilog2 a < 53 + q"
  proof (rule ccontr)
    assume "\<not> ilog2 a < 53 + q"
    then have "pow2 (53 + q) \<le> pow2 (ilog2 a)" by (simp add: pow2_mono)
    with ilog2_lower [OF apos] up show False by simp
  qed
  define q' where "q' = max (ilog2 a) (- 1022) - 52"
  define d where "d = q - q'"
  have d0: "0 \<le> d" using lg q by (simp add: d_def q'_def)
  have qq: "pow2 q = pow2 d * pow2 q'" by (simp add: d_def flip: pow2_add)
  have quot: "a / pow2 q' = of_int (m * 2 ^ nat d)"
    using pow2_pos [of q'] d0 by (simp add: a_def qq pow2_nat)
  have rh: "round_half_even (a / pow2 q') = m * 2 ^ nat d"
    by (simp only: quot round_half_even_of_int)
  have bk: "of_int (m * 2 ^ nat d) * pow2 q' = a"
    using d0 by (simp add: a_def qq pow2_nat)
  have "pow2 (53 + q) \<le> pow2 1024" using q by (intro pow2_mono) simp
  with up have "a < pow2 1024" by simp
  then have small: "\<not> 2 ^ 1024 \<le> a" by (simp add: pow2_def)
  have "round_double a =
      (if 2 ^ 1024 \<le> of_int (round_half_even (a / pow2 q')) * pow2 q' then PosInf
       else Finite (of_int (round_half_even (a / pow2 q')) * pow2 q'))"
    using apos by (simp add: round_double_def Let_def flip: q'_def)
  also have "\<dots> = Finite a"
    unfolding rh bk using small by simp
  finally have "round_double a = Finite a" .
  then show ?thesis by (simp add: a_def)
qed

lemma round_double_neg: "round_double (- x) = fneg (round_double x)"
  by (simp add: round_double_def Let_def)

lemma round_double_exact:
  assumes "x = of_int m * pow2 q" "\<bar>m\<bar> < 2 ^ 53" "- 1074 \<le> q" "q \<le> 971"
  shows "round_double x = Finite x"
proof -
  consider "m = 0" | "0 < m" | "m < 0" by linarith
  then show ?thesis
  proof cases
    case 1
    then show ?thesis using assms by (simp add: round_double_def)
  next
    case 2
    then show ?thesis using assms round_double_exact_pos [of m q] by simp
  next
    case 3
    then have "round_double (of_int (- m) * pow2 q) = Finite (of_int (- m) * pow2 q)"
      using assms by (intro round_double_exact_pos) auto
    then have "round_double (- x) = Finite (- x)" using assms by simp
    then have "fneg (round_double x) = Finite (- x)" by (simp add: round_double_neg)
    then show ?thesis by (cases "round_double x") auto
  qed
qed

lemma round_double_int: "\<bar>n\<bar> < 2 ^ 53 \<Longrightarrow> round_double (of_int n) = Finite (of_int n)"
  by (rule round_double_exact [of _ n 0]) (simp_all add: pow2_def)

text \<open>Rounding keeps the sign, and keeps the unit interval.\<close>

lemma round_double_nonneg:
  assumes "0 \<le> x"
  shows "round_double x = PosInf \<or> (\<exists>r. round_double x = Finite r \<and> 0 \<le> r)"
proof (cases "x = 0")
  case True
  then show ?thesis by (simp add: round_double_def)
next
  case False
  with assms have xp: "0 < x" by simp
  define q where "q = max (ilog2 x) (- 1022) - 52"
  have "0 \<le> x / pow2 q" using xp pow2_pos [of q] by simp
  then have "0 \<le> round_half_even (x / pow2 q)" by (rule round_half_even_nonneg)
  then have "(0::rat) \<le> of_int (round_half_even (x / pow2 q)) * pow2 q"
    using pow2_pos [of q] by simp
  then show ?thesis
    using xp by (simp add: round_double_def Let_def flip: q_def)
qed

lemma round_double_unit:
  assumes "0 \<le> x" "x \<le> 1"
  shows "\<exists>r. round_double x = Finite r \<and> 0 \<le> r \<and> r \<le> 1"
proof (cases "x = 0")
  case True
  then show ?thesis by (simp add: round_double_def)
next
  case False
  with assms have xp: "0 < x" by simp
  define q where "q = max (ilog2 x) (- 1022) - 52"
  define m where "m = round_half_even (x / pow2 q)"
  have "ilog2 x \<le> 0" using assms by (intro ilog2_le_zero) simp
  then have q0: "q \<le> 0" by (simp add: q_def)
  have inv: "1 / pow2 q = of_int (2 ^ nat (- q))"
    using q0 by (cases "q = 0") (simp_all add: pow2_def)
  have "x / pow2 q \<le> 1 / pow2 q"
    using assms pow2_pos [of q] by (simp add: divide_le_cancel)
  then have "m \<le> 2 ^ nat (- q)"
    unfolding m_def inv by (rule round_half_even_le)
  then have "(of_int m :: rat) \<le> of_int (2 ^ nat (- q))" by (simp only: of_int_le_iff)
  then have "of_int m * pow2 q \<le> of_int (2 ^ nat (- q)) * pow2 q"
    using pow2_pos [of q] by (simp only: mult_le_cancel_right_pos)
  also have "\<dots> = 1" using q0 by (cases "q = 0") (simp_all add: pow2_def)
  finally have le1: "of_int m * pow2 q \<le> 1" .
  have "0 \<le> m"
    unfolding m_def using xp pow2_pos [of q] by (intro round_half_even_nonneg) simp
  then have ge0: "(0::rat) \<le> of_int m * pow2 q" using pow2_pos [of q] by simp
  have "\<not> (2::rat) ^ 1024 \<le> of_int m * pow2 q"
  proof
    assume "(2::rat) ^ 1024 \<le> of_int m * pow2 q"
    moreover have "(1::rat) < 2 ^ 1024" by simp
    ultimately show False using le1 by linarith
  qed
  then show ?thesis
    using xp le1 ge0 by (simp add: round_double_def Let_def flip: q_def m_def)
qed


section \<open>Evaluating the model on concrete reports\<close>

lemmas text_eval = is_space_def is_digit_def digit_val_def newline_def py_split.simps
  file_lines.simps py_strip_def dec_value_def int_max_str_digits_def pow10_def lower_def
  is_exp_marker_def split_first_def opt_digitpart_def parse_decimal_def py_int_def
  py_float_def

lemmas dict_eval = dict_get_def dict_get_default_def dict_index_def dict_set_def
  dict_keys_def bind_def

section \<open>Missing report files\<close>

text \<open>
  C7, as stated, fails for \<open>DLP/parse_gem_stat.py\<close>: its \<open>parse_stats_file\<close> opens the
  path without testing that it exists, so a path that is not on disk raises
  \<open>FileNotFoundError\<close> instead of giving an empty or null result.
\<close>

theorem parse_gem_stat_missing_file_raises:
  "parse_gem_stat_parse_stats_file no_files ''gem5_results/run1/stats.txt''
     = Inl FileNotFoundError"
  by (simp add: parse_gem_stat_parse_stats_file_def no_files_def)

text \<open>
  C7, amended: for a path that does not exist, \<open>parse_stats_file\<close> of
  \<open>analyze_results.py\<close> returns the empty dictionary (and \<open>analyze_experiment\<close> then
  returns \<open>None\<close>), \<open>parse_stats_file\<close> of \<open>extract_comparison_report.py\<close> returns
  \<open>None\<close>, neither raising; \<open>parse_stats_file\<close> of \<open>parse_gem_stat.py\<close> raises
  \<open>FileNotFoundError\<close>.
\<close>

theorem missing_file_results:
  assumes "fs p = None"
  shows "analyze_results_parse_stats_file fs p = Inr []
       \<and> analyze_experiment fs p = Inr None
       \<and> extract_comparison_report_parse_stats_file fs p = None
       \<and> parse_gem_stat_parse_stats_file fs p = Inl FileNotFoundError"
  using assms
  by (simp add: analyze_results_parse_stats_file_def analyze_experiment_def bind_def
       extract_comparison_report_parse_stats_file_def parse_gem_stat_parse_stats_file_def)

text \<open>C7, witness: the file system without files, and the path \<open>m5out/stats.txt\<close>.\<close>

theorem missing_file_results_witness:
  "no_files ''m5out/stats.txt'' = None
   \<and> analyze_results_parse_stats_file no_files ''m5out/stats.txt'' = Inr []
   \<and> analyze_experiment no_files ''m5out/stats.txt'' = Inr None
   \<and> extract_comparison_report_parse_stats_file no_files ''m5out/stats.txt'' = None
   \<and> parse_gem_stat_parse_stats_file no_files ''m5out/stats.txt''
       = Inl FileNotFoundError"
  using missing_file_results [of no_files "''m5out/stats.txt''"]
  by (simp add: no_files_def)

section \<open>Ratios of counts\<close>

text \<open>
  C2 at the failing input: a report whose only line gives zero accesses of the data
  cache. \<open>extract_key_metrics\<close> of \<open>parse_gem_stat.py\<close> divides the default \<open>0\<close> hits
  by the parsed \<open>0.0\<close> accesses and raises \<open>ZeroDivisionError\<close>; the default \<open>1\<close> of
  the denominator only covers a key that is absent.
\<close>

theorem extract_key_metrics_zero_accesses:
  "bind (parse_gem_stat_parse_stats_file
           (only_file ''stats.txt'' ''system.cpu.dcache.overallAccesses::total 0'')
           ''stats.txt'')
     extract_key_metrics = Inl ZeroDivisionError"
  by (simp add: only_file_def parse_gem_stat_parse_stats_file_def parse_gem_stat_store_def
        extract_key_metrics_def text_eval dict_eval round_double_def int_to_float_def)

section \<open>Facts about the parsers of numbers and about dictionaries\<close>

lemma py_float_error: "py_float s = Inl e \<Longrightarrow> e = ValueError"
  by (auto simp add: py_float_def split: prod.splits if_splits option.splits)

lemma py_int_error: "py_int s = Inl e \<Longrightarrow> e = ValueError"
  by (auto simp add: py_int_def split: prod.splits if_splits option.splits)

lemma dict_get_set:
  "dict_get (dict_set d k v) k' = (if k' = k then Some v else dict_get d k')"
  by (simp add: dict_get_def dict_set_def update_conv')

lemma dict_keys_set:
  "dict_keys (dict_set d k v) =
     (if k \<in> set (dict_keys d) then dict_keys d else dict_keys d @ [k])"
  by (simp add: dict_keys_def dict_set_def update_keys)

lemma dict_get_default_get:
  "dict_get_default d k dflt = (case dict_get d k of None \<Rightarrow> dflt | Some v \<Rightarrow> v)"
  by (simp add: dict_get_default_def dict_get_def)

lemma dict_get_keys: "dict_get d k = Some v \<Longrightarrow> k \<in> set (dict_keys d)"
  by (auto simp add: dict_get_def dict_keys_def dest: map_of_SomeD intro: rev_image_eqI)

lemma py_sub_floats: "py_sub (PyFloat a) (PyFloat b) = Inr (PyFloat (fsub a b))"
  by (simp add: bind_def)

lemma round_three_quarters: "round_double (3 / 4) = Finite (3 / 4)"
  by (rule round_double_exact [of _ 3 "- 2"]) (simp_all add: pow2_def)

lemma round_quarter: "round_double (1 / 4) = Finite (1 / 4)"
  by (rule round_double_exact [of _ 1 "- 2"]) (simp_all add: pow2_def)

lemma round_one: "round_double 1 = Finite 1"
  using round_double_int [of 1] by simp

section \<open>The pattern extraction of \<open>extract_comparison_report.py\<close>\<close>

lemma distinct_patterns: "distinct (map fst patterns)"
  by (simp add: patterns_def)

lemma extract_patterns_keys:
  "extract_patterns c ps d = Inr m \<Longrightarrow> distinct (dict_keys d @ map fst ps)
     \<Longrightarrow> dict_keys m = dict_keys d @ map fst ps"
proof (induction ps arbitrary: d)
  case Nil
  then show ?case by simp
next
  case (Cons p ps)
  obtain key lit cls where p: "p = (key, lit, cls)" by (cases p)
  from Cons.prems(2) have fresh: "key \<notin> set (dict_keys d)" by (auto simp add: p)
  show ?case
  proof (cases "re_search lit cls c")
    case None
    with Cons.prems(1)
    have "extract_patterns c ps (dict_set d key (PyFloat (Finite 0))) = Inr m"
      by (simp add: p)
    moreover have "distinct (dict_keys (dict_set d key (PyFloat (Finite 0))) @ map fst ps)"
      using Cons.prems(2) fresh by (auto simp add: dict_keys_set p)
    ultimately show ?thesis
      using Cons.IH fresh by (simp add: dict_keys_set p)
  next
    case (Some g)
    with Cons.prems(1) obtain x where x: "py_float g = Inr x"
      and rec: "extract_patterns c ps (dict_set d key (PyFloat x)) = Inr m"
      by (auto simp add: p split: sum.splits)
    moreover have "distinct (dict_keys (dict_set d key (PyFloat x)) @ map fst ps)"
      using Cons.prems(2) fresh by (auto simp add: dict_keys_set p)
    ultimately show ?thesis
      using Cons.IH fresh by (simp add: dict_keys_set p)
  qed
qed

lemma extract_patterns_other:
  "extract_patterns c ps d = Inr m \<Longrightarrow> k \<notin> fst ` set ps \<Longrightarrow> dict_get m k = dict_get d k"
proof (induction ps arbitrary: d)
  case Nil
  then show ?case by simp
next
  case (Cons p ps)
  obtain key lit cls where p: "p = (key, lit, cls)" by (cases p)
  from Cons.prems(2) have ne: "k \<noteq> key" and out: "k \<notin> fst ` set ps"
    by (auto simp add: p)
  from Cons.prems(1) obtain x
    where "extract_patterns c ps (dict_set d key (PyFloat x)) = Inr m"
    by (auto simp add: p split: option.splits sum.splits)
  from Cons.IH [OF this out] show ?case using ne by (simp add: dict_get_set)
qed

lemma extract_patterns_value:
  "extract_patterns c ps d = Inr m \<Longrightarrow> distinct (map fst ps) \<Longrightarrow> (key, lit, cls) \<in> set ps
     \<Longrightarrow> (re_search lit cls c = None \<and> dict_get m key = Some (PyFloat (Finite 0)))
       \<or> (\<exists>g x. re_search lit cls c = Some g \<and> py_float g = Inr x
             \<and> dict_get m key = Some (PyFloat x))"
proof (induction ps arbitrary: d)
  case Nil
  then show ?case by simp
next
  case (Cons p ps)
  obtain key' lit' cls' where p: "p = (key', lit', cls')" by (cases p)
  from Cons.prems(2) have out: "key' \<notin> fst ` set ps" and dist: "distinct (map fst ps)"
    by (auto simp add: p)
  show ?case
  proof (cases "(key, lit, cls) \<in> set ps")
    case True
    from Cons.prems(1) obtain x
      where "extract_patterns c ps (dict_set d key' (PyFloat x)) = Inr m"
      by (auto simp add: p split: option.splits sum.splits)
    from Cons.IH [OF this dist True] show ?thesis .
  next
    case False
    with Cons.prems(3) have same: "key' = key" "lit' = lit" "cls' = cls"
      by (auto simp add: p)
    show ?thesis
    proof (cases "re_search lit cls c")
      case None
      with Cons.prems(1)
      have "extract_patterns c ps (dict_set d key (PyFloat (Finite 0))) = Inr m"
        by (simp add: p same)
      from extract_patterns_other [OF this] out same None show ?thesis
        by (simp add: dict_get_set)
    next
      case (Some g)
      with Cons.prems(1) obtain x where x: "py_float g = Inr x"
        and rec: "extract_patterns c ps (dict_set d key (PyFloat x)) = Inr m"
        by (auto simp add: p same split: sum.splits)
      from extract_patterns_other [OF rec] out same Some x show ?thesis
        by (simp add: dict_get_set)
    qed
  qed
qed

lemma extract_patterns_error:
  "extract_patterns c ps d = Inl e \<Longrightarrow>
     \<exists>key lit cls g. (key, lit, cls) \<in> set ps \<and> re_search lit cls c = Some g
        \<and> py_float g = Inl ValueError"
proof (induction ps arbitrary: d)
  case Nil
  then show ?case by simp
next
  case (Cons p ps)
  obtain key lit cls where p: "p = (key, lit, cls)" by (cases p)
  show ?case
  proof (cases "re_search lit cls c")
    case None
    with Cons.prems
    have "extract_patterns c ps (dict_set d key (PyFloat (Finite 0))) = Inl e"
      by (simp add: p)
    from Cons.IH [OF this] show ?thesis by auto
  next
    case (Some g)
    show ?thesis
    proof (cases "py_float g")
      case (Inl e')
      then have "py_float g = Inl ValueError" using py_float_error by blast
      with Some show ?thesis
        unfolding p
        by (intro exI [of _ key] exI [of _ lit] exI [of _ cls] exI [of _ g]) simp
    next
      case (Inr x)
      with Some Cons.prems
      have "extract_patterns c ps (dict_set d key (PyFloat x)) = Inl e"
        by (simp add: p)
      from Cons.IH [OF this] show ?thesis by auto
    qed
  qed
qed

lemma extract_patterns_float:
  assumes "extract_patterns c patterns [] = Inr m" "(key, lit, cls) \<in> set patterns"
  shows "\<exists>x. dict_get m key = Some (PyFloat x)"
  using extract_patterns_value [OF assms(1) distinct_patterns assms(2)] by auto

lemma calculate_hit_rates_result:
  assumes "dict_get d ''icache_miss_rate'' = Some (PyFloat a)"
      and "dict_get d ''dcache_miss_rate'' = Some (PyFloat b)"
      and "dict_get d ''l2cache_miss_rate'' = Some (PyFloat c)"
  shows "calculate_hit_rates d = Inr (with_hit_rates d a b c)"
  using assms
  by (simp add: calculate_hit_rates_def hit_rate_of_def dict_get_default_get dict_get_set
        bind_def Let_def with_hit_rates_def)

lemma extract_patterns_miss_rates:
  assumes "extract_patterns content patterns [] = Inr m10"
  shows "\<exists>a b c. dict_get m10 ''icache_miss_rate'' = Some (PyFloat a)
           \<and> dict_get m10 ''dcache_miss_rate'' = Some (PyFloat b)
           \<and> dict_get m10 ''l2cache_miss_rate'' = Some (PyFloat c)"
proof -
  obtain a where "dict_get m10 ''icache_miss_rate'' = Some (PyFloat a)"
    using extract_patterns_float [OF assms, of "''icache_miss_rate''"]
    by (auto simp add: patterns_def)
  moreover obtain b where "dict_get m10 ''dcache_miss_rate'' = Some (PyFloat b)"
    using extract_patterns_float [OF assms, of "''dcache_miss_rate''"]
    by (auto simp add: patterns_def)
  moreover obtain c where "dict_get m10 ''l2cache_miss_rate'' = Some (PyFloat c)"
    using extract_patterns_float [OF assms, of "''l2cache_miss_rate''"]
    by (auto simp add: patterns_def)
  ultimately show ?thesis by blast
qed

lemma parse_stats_file_Some:
  assumes "extract_comparison_report_parse_stats_file fs f = Some m"
  shows "\<exists>content m10 a b c. fs f = Some content
           \<and> extract_patterns content patterns [] = Inr m10
           \<and> dict_get m10 ''icache_miss_rate'' = Some (PyFloat a)
           \<and> dict_get m10 ''dcache_miss_rate'' = Some (PyFloat b)
           \<and> dict_get m10 ''l2cache_miss_rate'' = Some (PyFloat c)
           \<and> m = with_hit_rates m10 a b c"
proof -
  from assms obtain content where c: "fs f = Some content"
    by (auto simp add: extract_comparison_report_parse_stats_file_def split: option.splits)
  from assms c obtain m10 where m10: "extract_patterns content patterns [] = Inr m10"
    and hr: "calculate_hit_rates m10 = Inr m"
    by (auto simp add: extract_comparison_report_parse_stats_file_def bind_def
          split: sum.splits)
  from extract_patterns_miss_rates [OF m10] obtain a b d where
    abd: "dict_get m10 ''icache_miss_rate'' = Some (PyFloat a)"
         "dict_get m10 ''dcache_miss_rate'' = Some (PyFloat b)"
         "dict_get m10 ''l2cache_miss_rate'' = Some (PyFloat d)"
    by blast
  from calculate_hit_rates_result [OF abd] hr have "m = with_hit_rates m10 a b d" by simp
  with c m10 abd show ?thesis by blast
qed

lemma parse_stats_file_of_patterns:
  assumes "fs f = Some content" "extract_patterns content patterns [] = Inr m10"
      and "dict_get m10 ''icache_miss_rate'' = Some (PyFloat a)"
      and "dict_get m10 ''dcache_miss_rate'' = Some (PyFloat b)"
      and "dict_get m10 ''l2cache_miss_rate'' = Some (PyFloat c)"
  shows "extract_comparison_report_parse_stats_file fs f = Some (with_hit_rates m10 a b c)"
  using assms calculate_hit_rates_result [OF assms(3-5)]
  by (simp add: extract_comparison_report_parse_stats_file_def bind_def)

section \<open>Hit rate from miss rate\<close>



section \<open>The shape of the report of \<open>extract_comparison_report.py\<close>\<close>

text \<open>
  C10, as stated, fails: the classes \<open>[\d.]+\<close> of the patterns also capture text that
  is no number, such as \<open>1.2.3\<close>; \<open>float\<close> then raises \<open>ValueError\<close>, the handler
  \<open>except Exception\<close> catches it, and \<open>parse_stats_file\<close> returns \<open>None\<close> for a file
  that exists and is readable.
\<close>

theorem parse_stats_file_none_on_bad_number:
  "extract_comparison_report_parse_stats_file
     (only_file ''stats.txt'' ''sim_seconds 1.2.3'') ''stats.txt'' = None"
  by (simp add: only_file_def extract_comparison_report_parse_stats_file_def patterns_def
        match_here_def text_eval dict_eval)

text \<open>
  C10, amended: for a file that exists, \<open>parse_stats_file\<close> either returns \<open>None\<close>,
  and then some pattern captured text that \<open>float\<close> rejects, or returns a dictionary
  with exactly the ten pattern keys followed by the three hit-rate keys, every key bound
  to a \<open>float\<close>, every pattern's key bound to the \<open>float\<close> of its captured text, and to
  \<open>0.0\<close> when the pattern finds no match, and every hit-rate key bound to \<open>1.0\<close> minus
  the miss rate of its cache in that dictionary.
\<close>

theorem parse_stats_file_shape:
  assumes "fs f = Some content"
  shows "(extract_comparison_report_parse_stats_file fs f = None
          \<and> (\<exists>key lit cls g. (key, lit, cls) \<in> set patterns
                \<and> re_search lit cls content = Some g \<and> py_float g = Inl ValueError))
       \<or> (\<exists>m. extract_comparison_report_parse_stats_file fs f = Some m
            \<and> dict_keys m =
                [''sim_seconds'', ''sim_insts'', ''ipc'', ''num_cycles'',
                 ''icache_miss_rate'', ''dcache_miss_rate'', ''l2cache_miss_rate'',
                 ''icache_misses'', ''dcache_misses'', ''l2cache_misses'',
                 ''icache_hit_rate'', ''dcache_hit_rate'', ''l2cache_hit_rate'']
            \<and> (\<forall>k \<in> set (dict_keys m). \<exists>x. dict_get m k = Some (PyFloat x))
            \<and> (\<forall>(key, lit, cls) \<in> set patterns.
                  (re_search lit cls content = None
                     \<and> dict_get m key = Some (PyFloat (Finite 0)))
                  \<or> (\<exists>g x. re_search lit cls content = Some g \<and> py_float g = Inr x
                        \<and> dict_get m key = Some (PyFloat x)))
            \<and> (\<exists>a. dict_get m ''icache_miss_rate'' = Some (PyFloat a)
                  \<and> dict_get m ''icache_hit_rate'' = Some (PyFloat (fsub (Finite 1) a)))
            \<and> (\<exists>a. dict_get m ''dcache_miss_rate'' = Some (PyFloat a)
                  \<and> dict_get m ''dcache_hit_rate'' = Some (PyFloat (fsub (Finite 1) a)))
            \<and> (\<exists>a. dict_get m ''l2cache_miss_rate'' = Some (PyFloat a)
                  \<and> dict_get m ''l2cache_hit_rate'' = Some (PyFloat (fsub (Finite 1) a))))"
proof (cases "extract_patterns content patterns []")
  case (Inl e)
  then have "extract_comparison_report_parse_stats_file fs f = None"
    using assms by (simp add: extract_comparison_report_parse_stats_file_def bind_def)
  with extract_patterns_error [OF Inl] show ?thesis by blast
next
  case (Inr m10)
  from extract_patterns_miss_rates [OF Inr] obtain a b c where
    abc: "dict_get m10 ''icache_miss_rate'' = Some (PyFloat a)"
         "dict_get m10 ''dcache_miss_rate'' = Some (PyFloat b)"
         "dict_get m10 ''l2cache_miss_rate'' = Some (PyFloat c)"
    by blast
  define m where "m = with_hit_rates m10 a b c"
  have res: "extract_comparison_report_parse_stats_file fs f = Some m"
    unfolding m_def
    using parse_stats_file_of_patterns [of fs f content m10 a b c] assms Inr abc by simp
  have k10: "dict_keys m10 = map fst patterns"
    using extract_patterns_keys [OF Inr] distinct_patterns by (simp add: dict_keys_def)
  have keys: "dict_keys m =
                [''sim_seconds'', ''sim_insts'', ''ipc'', ''num_cycles'',
                 ''icache_miss_rate'', ''dcache_miss_rate'', ''l2cache_miss_rate'',
                 ''icache_misses'', ''dcache_misses'', ''l2cache_misses'',
                 ''icache_hit_rate'', ''dcache_hit_rate'', ''l2cache_hit_rate'']"
    by (simp add: m_def with_hit_rates_def dict_keys_set k10 patterns_def)
  have old: "dict_get m key = dict_get m10 key" if "(key, lit, cls) \<in> set patterns"
    for key lit cls
    using that by (auto simp add: m_def with_hit_rates_def dict_get_set patterns_def)
  have vals: "(re_search lit cls content = None
                  \<and> dict_get m key = Some (PyFloat (Finite 0)))
              \<or> (\<exists>g x. re_search lit cls content = Some g \<and> py_float g = Inr x
                    \<and> dict_get m key = Some (PyFloat x))"
    if "(key, lit, cls) \<in> set patterns" for key lit cls
    using extract_patterns_value [OF Inr distinct_patterns that] old [OF that] by simp
  have floats: "\<exists>x. dict_get m k = Some (PyFloat x)" if "k \<in> set (dict_keys m)" for k
  proof (cases "k \<in> fst ` set patterns")
    case True
    then obtain lit cls where "(k, lit, cls) \<in> set patterns" by force
    from vals [OF this] show ?thesis by auto
  next
    case False
    with that have "k = ''icache_hit_rate'' \<or> k = ''dcache_hit_rate'' \<or> k = ''l2cache_hit_rate''"
      unfolding keys by (auto simp add: patterns_def)
    then show ?thesis
      by (auto simp add: m_def with_hit_rates_def dict_get_set)
  qed
  have rates:
    "dict_get m ''icache_miss_rate'' = Some (PyFloat a)"
    "dict_get m ''icache_hit_rate'' = Some (PyFloat (fsub (Finite 1) a))"
    "dict_get m ''dcache_miss_rate'' = Some (PyFloat b)"
    "dict_get m ''dcache_hit_rate'' = Some (PyFloat (fsub (Finite 1) b))"
    "dict_get m ''l2cache_miss_rate'' = Some (PyFloat c)"
    "dict_get m ''l2cache_hit_rate'' = Some (PyFloat (fsub (Finite 1) c))"
    using abc by (simp_all add: m_def with_hit_rates_def dict_get_set)
  have shape: "extract_comparison_report_parse_stats_file fs f = Some m
            \<and> dict_keys m =
                [''sim_seconds'', ''sim_insts'', ''ipc'', ''num_cycles'',
                 ''icache_miss_rate'', ''dcache_miss_rate'', ''l2cache_miss_rate'',
                 ''icache_misses'', ''dcache_misses'', ''l2cache_misses'',
                 ''icache_hit_rate'', ''dcache_hit_rate'', ''l2cache_hit_rate'']
            \<and> (\<forall>k \<in> set (dict_keys m). \<exists>x. dict_get m k = Some (PyFloat x))
            \<and> (\<forall>(key, lit, cls) \<in> set patterns.
                  (re_search lit cls content = None
                     \<and> dict_get m key = Some (PyFloat (Finite 0)))
                  \<or> (\<exists>g x. re_search lit cls content = Some g \<and> py_float g = Inr x
                        \<and> dict_get m key = Some (PyFloat x)))"
    using res keys floats vals by blast
  from shape rates show ?thesis by blast
qed

text \<open>
  C10, witness: a report with a count of instructions and the miss rate \<open>0.25\<close> of
  the instruction cache, and nothing else.
\<close>

theorem parse_stats_file_shape_witness:
  "only_file ''stats.txt'' ''sim_insts 42\<newline>system.cpu.icache.overallMissRate::total 0.25'' ''stats.txt''
     = Some ''sim_insts 42\<newline>system.cpu.icache.overallMissRate::total 0.25''
   \<and> extract_comparison_report_parse_stats_file
        (only_file ''stats.txt'' ''sim_insts 42\<newline>system.cpu.icache.overallMissRate::total 0.25'') ''stats.txt''
       = Some [(''sim_seconds'', PyFloat (Finite 0)),
               (''sim_insts'', PyFloat (Finite 42)),
               (''ipc'', PyFloat (Finite 0)), (''num_cycles'', PyFloat (Finite 0)),
               (''icache_miss_rate'', PyFloat (Finite (1 / 4))),
               (''dcache_miss_rate'', PyFloat (Finite 0)),
               (''l2cache_miss_rate'', PyFloat (Finite 0)),
               (''icache_misses'', PyFloat (Finite 0)),
               (''dcache_misses'', PyFloat (Finite 0)),
               (''l2cache_misses'', PyFloat (Finite 0)),
               (''icache_hit_rate'', PyFloat (Finite (3 / 4))),
               (''dcache_hit_rate'', PyFloat (Finite 1)),
               (''l2cache_hit_rate'', PyFloat (Finite 1))]"
proof -
  have h: "only_file ''stats.txt'' ''sim_insts 42\<newline>system.cpu.icache.overallMissRate::total 0.25'' ''stats.txt''
             = Some ''sim_insts 42\<newline>system.cpu.icache.overallMissRate::total 0.25''"
    by (simp add: only_file_def)
  from parse_stats_file_shape
         [of "only_file ''stats.txt'' ''sim_insts 42\<newline>system.cpu.icache.overallMissRate::total 0.25''" "''stats.txt''"
             "''sim_insts 42\<newline>system.cpu.icache.overallMissRate::total 0.25''", OF h]
  have "\<exists>m. extract_comparison_report_parse_stats_file
              (only_file ''stats.txt'' ''sim_insts 42\<newline>system.cpu.icache.overallMissRate::total 0.25'') ''stats.txt''
             \<in> {None, Some m}"
    by blast
  moreover
  have "extract_comparison_report_parse_stats_file
        (only_file ''stats.txt'' ''sim_insts 42\<newline>system.cpu.icache.overallMissRate::total 0.25'') ''stats.txt''
       = Some [(''sim_seconds'', PyFloat (Finite 0)),
               (''sim_insts'', PyFloat (Finite 42)),
               (''ipc'', PyFloat (Finite 0)), (''num_cycles'', PyFloat (Finite 0)),
               (''icache_miss_rate'', PyFloat (Finite (1 / 4))),
               (''dcache_miss_rate'', PyFloat (Finite 0)),
               (''l2cache_miss_rate'', PyFloat (Finite 0)),
               (''icache_misses'', PyFloat (Finite 0)),
               (''dcache_misses'', PyFloat (Finite 0)),
               (''l2cache_misses'', PyFloat (Finite 0)),
               (''icache_hit_rate'', PyFloat (Finite (3 / 4))),
               (''dcache_hit_rate'', PyFloat (Finite 1)),
               (''l2cache_hit_rate'', PyFloat (Finite 1))]"
    by (simp add: only_file_def extract_comparison_report_parse_stats_file_def patterns_def
          match_here_def calculate_hit_rates_def hit_rate_of_def text_eval dict_eval
          fsub_def round_quarter round_three_quarters round_one
          round_double_int [of 42, simplified])
  ultimately show ?thesis using h by blast
qed

section \<open>The line parsers as a sequence of assignments\<close>

lemma dict_assign_Nil: "dict_assign d [] = d"
  by (simp add: dict_assign_def)

lemma dict_assign_Cons: "dict_assign d ((k, v) # es) = dict_assign (dict_set d k v) es"
  by (simp add: dict_assign_def)

lemma dict_get_assign:
  "dict_get (dict_assign d es) k =
     (case map_of (rev es) k of None \<Rightarrow> dict_get d k | Some v \<Rightarrow> Some v)"
proof (induction es arbitrary: d)
  case Nil
  then show ?case by (simp add: dict_assign_Nil)
next
  case (Cons e es)
  obtain k' v' where e: "e = (k', v')" by (cases e)
  show ?case
    by (simp add: e dict_assign_Cons Cons.IH dict_get_set map_add_def
          split: option.splits)
qed

lemma dict_keys_assign:
  "set (dict_keys (dict_assign d es)) = set (dict_keys d) \<union> fst ` set es"
proof (induction es arbitrary: d)
  case Nil
  then show ?case by (simp add: dict_assign_Nil)
next
  case (Cons e es)
  obtain k' v' where e: "e = (k', v')" by (cases e)
  show ?case
    by (auto simp add: e dict_assign_Cons Cons.IH dict_keys_set)
qed

lemma map_of_rev_last:
  assumes "k \<notin> fst ` set post"
  shows "map_of (rev (pre @ (k, v) # post)) k = Some v"
proof -
  have "map_of (rev post) k = None"
    using assms by (simp add: map_of_eq_None_iff)
  then show ?thesis by (simp add: map_add_def)
qed

lemma analyze_results_store_value:
  "analyze_results_store stats k tok = Inr (dict_set stats k (analyze_results_value tok))"
proof (cases "contains tok ''.''")
  case True
  show ?thesis
  proof (cases "py_float tok")
    case (Inl e)
    then have "e = ValueError" by (rule py_float_error)
    with Inl True show ?thesis
      by (simp add: analyze_results_store_def analyze_results_value_def)
  next
    case (Inr x)
    with True show ?thesis
      by (simp add: analyze_results_store_def analyze_results_value_def)
  qed
next
  case False
  show ?thesis
  proof (cases "py_int tok")
    case (Inl e)
    then have "e = ValueError" by (rule py_int_error)
    with Inl False show ?thesis
      by (simp add: analyze_results_store_def analyze_results_value_def)
  next
    case (Inr x)
    with False show ?thesis
      by (simp add: analyze_results_store_def analyze_results_value_def)
  qed
qed

lemma parse_gem_stat_store_value:
  "parse_gem_stat_store stats k tok = Inr (dict_set stats k (parse_gem_stat_value tok))"
proof (cases "py_float tok")
  case (Inl e)
  then have "e = ValueError" by (rule py_float_error)
  with Inl show ?thesis
    by (simp add: parse_gem_stat_store_def parse_gem_stat_value_def)
next
  case (Inr x)
  then show ?thesis
    by (simp add: parse_gem_stat_store_def parse_gem_stat_value_def)
qed

lemma analyze_results_parse_lines_assign:
  "analyze_results_parse_lines stats ls
     = Inr (dict_assign stats (analyze_results_entries ls))"
proof (induction ls arbitrary: stats)
  case Nil
  then show ?case by (simp add: analyze_results_entries_def dict_assign_Nil)
next
  case (Cons l ls)
  show ?case
  proof (cases "analyze_results_stat_line l")
    case True
    then have "analyze_results_entries (l # ls)
        = (py_split l ! 0, analyze_results_value (py_split l ! 1))
            # analyze_results_entries ls"
      by (simp add: analyze_results_entries_def)
    with True show ?thesis
      by (simp add: analyze_results_stat_line_def analyze_results_store_value
            dict_assign_Cons Cons.IH Let_def)
  next
    case False
    then have "analyze_results_entries (l # ls) = analyze_results_entries ls"
      by (simp add: analyze_results_entries_def)
    with False show ?thesis
      by (auto simp add: analyze_results_stat_line_def Cons.IH Let_def)
  qed
qed

lemma parse_gem_stat_parse_lines_assign:
  "parse_gem_stat_parse_lines stats ls
     = Inr (dict_assign stats (parse_gem_stat_entries ls))"
proof (induction ls arbitrary: stats)
  case Nil
  then show ?case by (simp add: parse_gem_stat_entries_def dict_assign_Nil)
next
  case (Cons l ls)
  show ?case
  proof (cases "parse_gem_stat_stat_line l")
    case True
    then have "parse_gem_stat_entries (l # ls)
        = (py_split l ! 0, parse_gem_stat_value (py_split l ! 1))
            # parse_gem_stat_entries ls"
      by (simp add: parse_gem_stat_entries_def)
    with True show ?thesis
      by (simp add: parse_gem_stat_stat_line_def parse_gem_stat_store_value
            dict_assign_Cons Cons.IH Let_def)
  next
    case False
    then have "parse_gem_stat_entries (l # ls) = parse_gem_stat_entries ls"
      by (simp add: parse_gem_stat_entries_def)
    with False show ?thesis
      by (auto simp add: parse_gem_stat_stat_line_def Cons.IH Let_def)
  qed
qed

lemma py_split_blank: "py_strip l = [] \<Longrightarrow> py_split l = []"
proof -
  assume "py_strip l = []"
  then have "dropWhile is_space (rev (dropWhile is_space l)) = []"
    by (simp add: py_strip_def)
  then have "\<forall>c \<in> set (dropWhile is_space l). is_space c"
    by (simp add: dropWhile_eq_Nil_conv)
  moreover have "dropWhile is_space l \<noteq> [] \<longrightarrow> \<not> is_space (hd (dropWhile is_space l))"
    using hd_dropWhile [of is_space l] by blast
  ultimately have "dropWhile is_space l = []"
    by (cases "dropWhile is_space l") auto
  then show ?thesis by (subst py_split.simps) (simp del: dropWhile_eq_Nil_conv)
qed

lemma analyze_results_stat_line_iff:
  "analyze_results_stat_line l \<longleftrightarrow> \<not> startswith l ''#'' \<and> 2 \<le> length (py_split l)"
  using py_split_blank [of l] by (auto simp add: analyze_results_stat_line_def)

lemma analyze_results_file_result:
  "analyze_results_parse_stats_file (only_file f text) f
     = Inr (dict_assign [] (analyze_results_entries (file_lines text)))"
  by (simp add: analyze_results_parse_stats_file_def only_file_def
        analyze_results_parse_lines_assign)

lemma parse_gem_stat_file_result:
  "parse_gem_stat_parse_stats_file (only_file f text) f
     = Inr (dict_assign [] (parse_gem_stat_entries (file_lines text)))"
  by (simp add: parse_gem_stat_parse_stats_file_def only_file_def
        parse_gem_stat_parse_lines_assign)

lemma dict_keys_Nil: "dict_keys [] = []"
  by (simp add: dict_keys_def)

section \<open>Which lines give an entry\<close>

text \<open>
  C3, as stated, fails for \<open>DLP/parse_gem_stat.py\<close>: its \<open>parse_stats_file\<close> only looks
  at lines that contain \<open>::\<close>. The line \<open>sim_seconds 0.5\<close> is not empty, is no comment
  and has two tokens, and gives no entry.
\<close>

theorem parse_gem_stat_skips_plain_line:
  "\<not> startswith ''sim_seconds 0.5'' ''#''
   \<and> py_split ''sim_seconds 0.5'' = [''sim_seconds'', ''0.5'']
   \<and> parse_gem_stat_parse_stats_file (only_file ''stats.txt'' ''sim_seconds 0.5'')
         ''stats.txt'' = Inr []"
  by (simp add: only_file_def parse_gem_stat_parse_stats_file_def text_eval)

text \<open>
  C3, amended: for every input text neither parser raises. In \<open>analyze_results.py\<close> the
  keys of the result are exactly the first tokens of the lines that do not start with
  \<open>#\<close> and split into at least two tokens (such a line is not empty); every other line
  gives no entry. In \<open>parse_gem_stat.py\<close> the same holds for the lines that moreover
  contain \<open>::\<close>.
\<close>

theorem stat_lines_give_entries:
  "(\<exists>m. analyze_results_parse_stats_file (only_file f text) f = Inr m
        \<and> set (dict_keys m)
            = {py_split l ! 0 | l. l \<in> set (file_lines text)
                 \<and> \<not> startswith l ''#'' \<and> 2 \<le> length (py_split l)})
   \<and> (\<exists>m. parse_gem_stat_parse_stats_file (only_file f text) f = Inr m
        \<and> set (dict_keys m)
            = {py_split l ! 0 | l. l \<in> set (file_lines text) \<and> contains l ''::''
                 \<and> \<not> startswith l ''#'' \<and> 2 \<le> length (py_split l)})"
proof -
  have "set (dict_keys (dict_assign ([] :: pyvalue dict)
               (analyze_results_entries (file_lines text))))
          = {py_split l ! 0 | l. l \<in> set (file_lines text)
               \<and> \<not> startswith l ''#'' \<and> 2 \<le> length (py_split l)}"
    by (auto simp add: dict_keys_assign analyze_results_entries_def dict_keys_Nil
          analyze_results_stat_line_iff image_iff)
  moreover
  have "set (dict_keys (dict_assign ([] :: pyvalue dict)
               (parse_gem_stat_entries (file_lines text))))
          = {py_split l ! 0 | l. l \<in> set (file_lines text) \<and> contains l ''::''
               \<and> \<not> startswith l ''#'' \<and> 2 \<le> length (py_split l)}"
    by (auto simp add: dict_keys_assign parse_gem_stat_entries_def dict_keys_Nil
          parse_gem_stat_stat_line_def image_iff)
  ultimately show ?thesis
    by (simp add: analyze_results_file_result parse_gem_stat_file_result)
qed

section \<open>The value stored for a line\<close>

lemma analyze_results_entries_split:
  assumes "analyze_results_stat_line l"
  shows "analyze_results_entries (pre @ l # post)
           = analyze_results_entries pre
               @ (py_split l ! 0, analyze_results_value (py_split l ! 1))
               # analyze_results_entries post"
  using assms by (simp add: analyze_results_entries_def)

lemma parse_gem_stat_entries_split:
  assumes "parse_gem_stat_stat_line l"
  shows "parse_gem_stat_entries (pre @ l # post)
           = parse_gem_stat_entries pre
               @ (py_split l ! 0, parse_gem_stat_value (py_split l ! 1))
               # parse_gem_stat_entries post"
  using assms by (simp add: parse_gem_stat_entries_def)

text \<open>The last line with a key decides the value of the key.\<close>

lemma analyze_results_last_value:
  assumes "file_lines text = pre @ l # post" and "analyze_results_stat_line l"
      and "\<forall>l' \<in> set post. analyze_results_stat_line l' \<longrightarrow> py_split l' ! 0 \<noteq> py_split l ! 0"
  shows "\<exists>m. analyze_results_parse_stats_file (only_file f text) f = Inr m
           \<and> dict_get m (py_split l ! 0) = Some (analyze_results_value (py_split l ! 1))"
proof -
  have "py_split l ! 0 \<notin> fst ` set (analyze_results_entries post)"
    using assms(3) by (auto simp add: analyze_results_entries_def)
  then have "map_of (rev (analyze_results_entries (file_lines text))) (py_split l ! 0)
               = Some (analyze_results_value (py_split l ! 1))"
    unfolding assms(1) analyze_results_entries_split [OF assms(2)]
    by (rule map_of_rev_last)
  then show ?thesis
    by (simp add: analyze_results_file_result dict_get_assign)
qed

lemma parse_gem_stat_last_value:
  assumes "file_lines text = pre @ l # post" and "parse_gem_stat_stat_line l"
      and "\<forall>l' \<in> set post. parse_gem_stat_stat_line l' \<longrightarrow> py_split l' ! 0 \<noteq> py_split l ! 0"
  shows "\<exists>m. parse_gem_stat_parse_stats_file (only_file f text) f = Inr m
           \<and> dict_get m (py_split l ! 0) = Some (parse_gem_stat_value (py_split l ! 1))"
proof -
  have "py_split l ! 0 \<notin> fst ` set (parse_gem_stat_entries post)"
    using assms(3) by (auto simp add: parse_gem_stat_entries_def)
  then have "map_of (rev (parse_gem_stat_entries (file_lines text))) (py_split l ! 0)
               = Some (parse_gem_stat_value (py_split l ! 1))"
    unfolding assms(1) parse_gem_stat_entries_split [OF assms(2)]
    by (rule map_of_rev_last)
  then show ?thesis
    by (simp add: parse_gem_stat_file_result dict_get_assign)
qed

section \<open>Malformed values\<close>

text \<open>
  C8: for every input text both line parsers return a dictionary, that is, no line
  makes them raise; every line that qualifies for an entry has its key in the result,
  whatever came before it; and when the conversion the parser attempts on the second
  token of a line raises (\<open>int\<close> or \<open>float\<close> in \<open>analyze_results.py\<close>, \<open>float\<close> in
  \<open>parse_gem_stat.py\<close>; in particular when the token is no number at all), the value of
  the key is the token itself, as text, unless a later line assigns the key again.
\<close>

theorem malformed_value_kept_as_text:
  "(\<exists>m. analyze_results_parse_stats_file (only_file f text) f = Inr m
      \<and> (\<forall>l \<in> set (file_lines text).
            analyze_results_stat_line l \<longrightarrow> py_split l ! 0 \<in> set (dict_keys m))
      \<and> (\<forall>pre l post.
            file_lines text = pre @ l # post \<and> analyze_results_stat_line l
            \<and> (\<forall>l' \<in> set post. analyze_results_stat_line l'
                   \<longrightarrow> py_split l' ! 0 \<noteq> py_split l ! 0)
            \<and> (if contains (py_split l ! 1) ''.'' then isl (py_float (py_split l ! 1))
                else isl (py_int (py_split l ! 1)))
            \<longrightarrow> dict_get m (py_split l ! 0) = Some (PyStr (py_split l ! 1))))
   \<and> (\<exists>m. parse_gem_stat_parse_stats_file (only_file f text) f = Inr m
      \<and> (\<forall>l \<in> set (file_lines text).
            parse_gem_stat_stat_line l \<longrightarrow> py_split l ! 0 \<in> set (dict_keys m))
      \<and> (\<forall>pre l post.
            file_lines text = pre @ l # post \<and> parse_gem_stat_stat_line l
            \<and> (\<forall>l' \<in> set post. parse_gem_stat_stat_line l'
                   \<longrightarrow> py_split l' ! 0 \<noteq> py_split l ! 0)
            \<and> isl (py_float (py_split l ! 1))
            \<longrightarrow> dict_get m (py_split l ! 0) = Some (PyStr (py_split l ! 1))))"
proof (intro conjI)
  define m where "m = dict_assign ([] :: pyvalue dict) (analyze_results_entries (file_lines text))"
  have res: "analyze_results_parse_stats_file (only_file f text) f = Inr m"
    by (simp add: m_def analyze_results_file_result)
  have keys: "\<forall>l \<in> set (file_lines text).
            analyze_results_stat_line l \<longrightarrow> py_split l ! 0 \<in> set (dict_keys m)"
    by (auto simp add: m_def dict_keys_assign analyze_results_entries_def image_iff)
  have vals: "dict_get m (py_split l ! 0) = Some (PyStr (py_split l ! 1))"
    if "file_lines text = pre @ l # post" "analyze_results_stat_line l"
       "\<forall>l' \<in> set post. analyze_results_stat_line l' \<longrightarrow> py_split l' ! 0 \<noteq> py_split l ! 0"
       "if contains (py_split l ! 1) ''.'' then isl (py_float (py_split l ! 1))
        else isl (py_int (py_split l ! 1))"
    for pre l post
  proof -
    from that(4) have "analyze_results_value (py_split l ! 1) = PyStr (py_split l ! 1)"
      by (auto simp add: analyze_results_value_def isl_def split: if_splits)
    with analyze_results_last_value [OF that(1-3), of f] res show ?thesis by simp
  qed
  from res keys vals
  show "\<exists>m. analyze_results_parse_stats_file (only_file f text) f = Inr m
      \<and> (\<forall>l \<in> set (file_lines text).
            analyze_results_stat_line l \<longrightarrow> py_split l ! 0 \<in> set (dict_keys m))
      \<and> (\<forall>pre l post.
            file_lines text = pre @ l # post \<and> analyze_results_stat_line l
            \<and> (\<forall>l' \<in> set post. analyze_results_stat_line l'
                   \<longrightarrow> py_split l' ! 0 \<noteq> py_split l ! 0)
            \<and> (if contains (py_split l ! 1) ''.'' then isl (py_float (py_split l ! 1))
                else isl (py_int (py_split l ! 1)))
            \<longrightarrow> dict_get m (py_split l ! 0) = Some (PyStr (py_split l ! 1)))"
    by blast
next
  define m where "m = dict_assign ([] :: pyvalue dict) (parse_gem_stat_entries (file_lines text))"
  have res: "parse_gem_stat_parse_stats_file (only_file f text) f = Inr m"
    by (simp add: m_def parse_gem_stat_file_result)
  have keys: "\<forall>l \<in> set (file_lines text).
            parse_gem_stat_stat_line l \<longrightarrow> py_split l ! 0 \<in> set (dict_keys m)"
    by (auto simp add: m_def dict_keys_assign parse_gem_stat_entries_def image_iff)
  have vals: "dict_get m (py_split l ! 0) = Some (PyStr (py_split l ! 1))"
    if "file_lines text = pre @ l # post" "parse_gem_stat_stat_line l"
       "\<forall>l' \<in> set post. parse_gem_stat_stat_line l' \<longrightarrow> py_split l' ! 0 \<noteq> py_split l ! 0"
       "isl (py_float (py_split l ! 1))"
    for pre l post
  proof -
    from that(4) have "parse_gem_stat_value (py_split l ! 1) = PyStr (py_split l ! 1)"
      by (auto simp add: parse_gem_stat_value_def isl_def)
    with parse_gem_stat_last_value [OF that(1-3), of f] res show ?thesis by simp
  qed
  from res keys vals
  show "\<exists>m. parse_gem_stat_parse_stats_file (only_file f text) f = Inr m
      \<and> (\<forall>l \<in> set (file_lines text).
            parse_gem_stat_stat_line l \<longrightarrow> py_split l ! 0 \<in> set (dict_keys m))
      \<and> (\<forall>pre l post.
            file_lines text = pre @ l # post \<and> parse_gem_stat_stat_line l
            \<and> (\<forall>l' \<in> set post. parse_gem_stat_stat_line l'
                   \<longrightarrow> py_split l' ! 0 \<noteq> py_split l ! 0)
            \<and> isl (py_float (py_split l ! 1))
            \<longrightarrow> dict_get m (py_split l ! 0) = Some (PyStr (py_split l ! 1)))"
    by blast
qed
text \<open>
  C8, witness: the report \<open>malformed_report\<close>, whose first line has the value \<open>x1\<close>;
  the second line is still parsed.
\<close>

theorem malformed_value_kept_as_text_witness:
  "file_lines malformed_report = [''a::b x1\<newline>'', ''c::d 7'']
   \<and> analyze_results_stat_line ''a::b x1\<newline>''
   \<and> parse_gem_stat_stat_line ''a::b x1\<newline>''
   \<and> py_split ''a::b x1\<newline>'' = [''a::b'', ''x1'']
   \<and> py_split ''c::d 7'' = [''c::d'', ''7'']
   \<and> \<not> contains ''x1'' ''.'' \<and> isl (py_int ''x1'') \<and> isl (py_float ''x1'')
   \<and> analyze_results_parse_stats_file (only_file ''stats.txt'' malformed_report) ''stats.txt''
       = Inr [(''a::b'', PyStr ''x1''), (''c::d'', PyInt 7)]
   \<and> parse_gem_stat_parse_stats_file (only_file ''stats.txt'' malformed_report) ''stats.txt''
       = Inr [(''a::b'', PyStr ''x1''), (''c::d'', PyFloat (Finite 7))]"
proof -
  have fl: "file_lines malformed_report = [''a::b x1\<newline>'', ''c::d 7'']"
    by (simp add: malformed_report_def file_lines.simps newline_def)
  have s1: "py_split ''a::b x1\<newline>'' = [''a::b'', ''x1'']"
    by (simp add: text_eval)
  have s2: "py_split ''c::d 7'' = [''c::d'', ''7'']"
    by (simp add: text_eval)
  have q1: "analyze_results_stat_line ''a::b x1\<newline>''"
    by (simp add: analyze_results_stat_line_iff s1)
  have q2: "parse_gem_stat_stat_line ''a::b x1\<newline>''"
    by (simp add: parse_gem_stat_stat_line_def s1)
  have np: "\<not> contains ''x1'' ''.''" by simp
  have bi: "isl (py_int ''x1'')" by (simp add: text_eval)
  have bf: "isl (py_float ''x1'')" by (simp add: text_eval)
  from malformed_value_kept_as_text [of "''stats.txt''" malformed_report]
  obtain m m' where
    m: "analyze_results_parse_stats_file (only_file ''stats.txt'' malformed_report) ''stats.txt''
          = Inr m"
    and v: "\<And>pre l post.
            file_lines malformed_report = pre @ l # post \<and> analyze_results_stat_line l
            \<and> (\<forall>l' \<in> set post. analyze_results_stat_line l'
                   \<longrightarrow> py_split l' ! 0 \<noteq> py_split l ! 0)
            \<and> (if contains (py_split l ! 1) ''.'' then isl (py_float (py_split l ! 1))
                else isl (py_int (py_split l ! 1)))
            \<Longrightarrow> dict_get m (py_split l ! 0) = Some (PyStr (py_split l ! 1))"
    and m': "parse_gem_stat_parse_stats_file (only_file ''stats.txt'' malformed_report) ''stats.txt''
          = Inr m'"
    and v': "\<And>pre l post.
            file_lines malformed_report = pre @ l # post \<and> parse_gem_stat_stat_line l
            \<and> (\<forall>l' \<in> set post. parse_gem_stat_stat_line l'
                   \<longrightarrow> py_split l' ! 0 \<noteq> py_split l ! 0)
            \<and> isl (py_float (py_split l ! 1))
            \<Longrightarrow> dict_get m' (py_split l ! 0) = Some (PyStr (py_split l ! 1))"
    by blast
  have "dict_get m (py_split ''a::b x1\<newline>'' ! 0)
          = Some (PyStr (py_split ''a::b x1\<newline>'' ! 1))"
    by (rule v [of "[]" _ "[''c::d 7'']"]) (simp add: fl q1 s1 s2 np bi)
  then have g: "dict_get m ''a::b'' = Some (PyStr ''x1'')" by (simp add: s1)
  have "dict_get m' (py_split ''a::b x1\<newline>'' ! 0)
          = Some (PyStr (py_split ''a::b x1\<newline>'' ! 1))"
    by (rule v' [of "[]" _ "[''c::d 7'']"]) (simp add: fl q2 s1 s2 bf)
  then have g': "dict_get m' ''a::b'' = Some (PyStr ''x1'')" by (simp add: s1)
  have e: "analyze_results_parse_stats_file (only_file ''stats.txt'' malformed_report) ''stats.txt''
       = Inr [(''a::b'', PyStr ''x1''), (''c::d'', PyInt 7)]"
    by (simp add: analyze_results_parse_stats_file_def only_file_def malformed_report_def
          analyze_results_store_def text_eval dict_eval)
  have e': "parse_gem_stat_parse_stats_file (only_file ''stats.txt'' malformed_report) ''stats.txt''
       = Inr [(''a::b'', PyStr ''x1''), (''c::d'', PyFloat (Finite 7))]"
    by (simp add: parse_gem_stat_parse_stats_file_def only_file_def malformed_report_def
          parse_gem_stat_store_def text_eval dict_eval round_double_int [of 7, simplified])
  from fl s1 s2 q1 q2 np bi bf e e' g g' m m' show ?thesis by simp
qed

section \<open>Plain integer literals\<close>

lemma digit_not_space: "is_digit c \<Longrightarrow> \<not> is_space c"
  by (auto simp add: is_digit_def is_space_def Let_def)

lemma digit_not_special:
  assumes "is_digit c"
  shows "c \<noteq> CHR ''_''" "c \<noteq> CHR ''-''" "c \<noteq> CHR ''+''" "c \<noteq> CHR ''.''"
        "\<not> is_exp_marker c" "lower c = c"
  using assms by (auto simp add: is_digit_def is_exp_marker_def lower_def Let_def)

lemma py_strip_no_space:
  assumes "\<forall>c \<in> set s. \<not> is_space c"
  shows "py_strip s = s"
proof -
  have a: "dropWhile is_space s = s" using assms by (cases s) auto
  have "dropWhile is_space (rev s) = rev s" using assms by (cases "rev s") auto
  with a show ?thesis by (simp add: py_strip_def)
qed

lemma digitpart_digits: "s \<noteq> [] \<Longrightarrow> list_all is_digit s \<Longrightarrow> digitpart s = Some s"
  by (induction s rule: digitpart.induct) (auto simp add: digit_not_special)

lemma contains_char: "contains s [c] \<longleftrightarrow> c \<in> set s"
  by (induction s) auto

lemma split_first_none:
  assumes "\<forall>c \<in> set s. \<not> P c"
  shows "split_first P s = (s, None)"
proof -
  have "takeWhile (\<lambda>c. \<not> P c) s = s" using assms by (simp add: takeWhile_eq_all_conv)
  moreover have "dropWhile (\<lambda>c. \<not> P c) s = []" using assms by (simp add: dropWhile_eq_Nil_conv)
  ultimately show ?thesis unfolding split_first_def by (simp only: list.case)
qed

lemma int_literal_facts:
  assumes "int_literal tok"
  shows "tok \<noteq> []" "list_all is_digit tok" "\<forall>c \<in> set tok. is_digit c"
  using assms by (auto simp add: int_literal_def list_all_iff)

lemma int_literal_no_point: "int_literal tok \<Longrightarrow> \<not> contains tok ''.''"
  using digit_not_special(4) by (auto simp add: contains_char dest: int_literal_facts(3))

lemma int_literal_strip_sign:
  assumes "int_literal tok"
  shows "split_sign (py_strip tok) = (False, tok)"
proof -
  from assms have "py_strip tok = tok"
    by (intro py_strip_no_space) (auto dest: int_literal_facts(3) digit_not_space)
  moreover from assms obtain c r where "tok = c # r" "is_digit c"
    by (cases tok) (auto simp add: int_literal_def)
  ultimately show ?thesis by (simp add: digit_not_special)
qed

lemma int_literal_py_int:
  assumes "int_literal tok" "length tok \<le> int_max_str_digits"
  shows "py_int tok = Inr (int (dec_value tok))"
  using assms digitpart_digits [of tok]
  by (simp add: py_int_def int_literal_strip_sign int_literal_facts)

lemma int_literal_parse_decimal:
  assumes "int_literal tok"
  shows "parse_decimal tok = Some (of_nat (dec_value tok))"
proof -
  have e: "split_first is_exp_marker tok = (tok, None)"
    using assms by (intro split_first_none) (auto dest: int_literal_facts(3) digit_not_special(5))
  have p: "split_first (\<lambda>c. c = CHR ''.'') tok = (tok, None)"
    using assms by (intro split_first_none) (auto dest: int_literal_facts(3) digit_not_special(4))
  show ?thesis
    using assms digitpart_digits [of tok]
    by (simp add: parse_decimal_def e p opt_digitpart_def pow10_def int_literal_facts)
qed

lemma int_literal_py_float:
  assumes "int_literal tok"
  shows "py_float tok = Inr (round_double (of_nat (dec_value tok)))"
proof -
  have "map lower tok = tok"
    using assms by (intro map_idI) (auto dest: int_literal_facts(3) digit_not_special(6))
  moreover have "tok \<noteq> ''inf''" "tok \<noteq> ''infinity''" "tok \<noteq> ''nan''"
    using int_literal_facts(2) [OF assms] by (auto simp add: is_digit_def)
  ultimately show ?thesis
    using assms
    by (simp add: py_float_def int_literal_strip_sign int_literal_parse_decimal)
qed

section \<open>How a value is converted\<close>

text \<open>
  C1, as stated, fails in both parsers. \<open>analyze_results.py\<close> looks only for a point:
  the token \<open>1e5\<close> has an exponent marker and no point, so \<open>int\<close> is tried, fails,
  and the text \<open>1e5\<close> is stored although \<open>float\<close> reads it as \<open>100000.0\<close>.
  \<open>parse_gem_stat.py\<close> never tries \<open>int\<close>: the integer literal \<open>42\<close> is stored as
  the \<open>float\<close> \<open>42.0\<close>.
\<close>

theorem exponent_token_kept_as_text:
  "py_float ''1e5'' = Inr (Finite 100000)
   \<and> analyze_results_parse_stats_file
         (only_file ''stats.txt'' ''system.cpu.numCycles 1e5'') ''stats.txt''
       = Inr [(''system.cpu.numCycles'', PyStr ''1e5'')]
   \<and> parse_gem_stat_parse_stats_file
         (only_file ''stats.txt'' ''system.cpu.dcache.overallHits::total 42'') ''stats.txt''
       = Inr [(''system.cpu.dcache.overallHits::total'', PyFloat (Finite 42))]"
  by (simp add: analyze_results_parse_stats_file_def parse_gem_stat_parse_stats_file_def
        only_file_def analyze_results_store_def parse_gem_stat_store_def text_eval dict_eval
        round_double_int [of 100000, simplified] round_double_int [of 42, simplified])

text \<open>
  C1, amended: for a line that gives an entry and is the last one with its key,
  \<open>analyze_results.py\<close> tries \<open>int\<close> on the second token exactly when the token has
  no decimal point (an exponent marker is not looked at) and \<open>float\<close> otherwise, and
  stores the token as text exactly when the conversion it tried fails; a plain integer
  literal of at most 4300 digits is stored as the \<open>int\<close> of its value.
  \<open>parse_gem_stat.py\<close> tries \<open>float\<close> only and stores the token as text when that
  fails; a plain integer literal is stored as the \<open>float\<close> nearest to its value.
\<close>

theorem value_coercion:
  assumes "file_lines text = pre @ l # post"
  shows "(analyze_results_stat_line l
          \<and> (\<forall>l' \<in> set post. analyze_results_stat_line l'
                \<longrightarrow> py_split l' ! 0 \<noteq> py_split l ! 0)
          \<longrightarrow> (\<exists>m. analyze_results_parse_stats_file (only_file f text) f = Inr m
                \<and> dict_get m (py_split l ! 0)
                    = Some (if contains (py_split l ! 1) ''.''
                            then (case py_float (py_split l ! 1) of
                                    Inr x \<Rightarrow> PyFloat x
                                  | Inl e \<Rightarrow> PyStr (py_split l ! 1))
                            else (case py_int (py_split l ! 1) of
                                    Inr i \<Rightarrow> PyInt i
                                  | Inl e \<Rightarrow> PyStr (py_split l ! 1)))
                \<and> (int_literal (py_split l ! 1)
                      \<and> length (py_split l ! 1) \<le> int_max_str_digits
                    \<longrightarrow> dict_get m (py_split l ! 0)
                          = Some (PyInt (int (dec_value (py_split l ! 1)))))))
       \<and> (parse_gem_stat_stat_line l
          \<and> (\<forall>l' \<in> set post. parse_gem_stat_stat_line l'
                \<longrightarrow> py_split l' ! 0 \<noteq> py_split l ! 0)
          \<longrightarrow> (\<exists>m. parse_gem_stat_parse_stats_file (only_file f text) f = Inr m
                \<and> dict_get m (py_split l ! 0)
                    = Some (case py_float (py_split l ! 1) of
                              Inr x \<Rightarrow> PyFloat x
                            | Inl e \<Rightarrow> PyStr (py_split l ! 1))
                \<and> (int_literal (py_split l ! 1)
                    \<longrightarrow> dict_get m (py_split l ! 0)
                          = Some (PyFloat (round_double
                                    (of_nat (dec_value (py_split l ! 1))))))))"
proof (intro conjI impI)
  assume h: "analyze_results_stat_line l
          \<and> (\<forall>l' \<in> set post. analyze_results_stat_line l'
                \<longrightarrow> py_split l' ! 0 \<noteq> py_split l ! 0)"
  then have h1: "analyze_results_stat_line l"
    and h2: "\<forall>l' \<in> set post. analyze_results_stat_line l'
                \<longrightarrow> py_split l' ! 0 \<noteq> py_split l ! 0"
    by blast+
  from analyze_results_last_value [OF assms h1 h2, of f] obtain m where
    m: "analyze_results_parse_stats_file (only_file f text) f = Inr m"
    and v: "dict_get m (py_split l ! 0) = Some (analyze_results_value (py_split l ! 1))"
    by blast
  have "int_literal (py_split l ! 1) \<and> length (py_split l ! 1) \<le> int_max_str_digits
          \<longrightarrow> analyze_results_value (py_split l ! 1)
                = PyInt (int (dec_value (py_split l ! 1)))"
    by (simp add: analyze_results_value_def int_literal_no_point int_literal_py_int)
  with v have il: "int_literal (py_split l ! 1)
                      \<and> length (py_split l ! 1) \<le> int_max_str_digits
                    \<longrightarrow> dict_get m (py_split l ! 0)
                          = Some (PyInt (int (dec_value (py_split l ! 1))))"
    by simp
  note v' = v [unfolded analyze_results_value_def]
  from m v' il
  show "\<exists>m. analyze_results_parse_stats_file (only_file f text) f = Inr m
                \<and> dict_get m (py_split l ! 0)
                    = Some (if contains (py_split l ! 1) ''.''
                            then (case py_float (py_split l ! 1) of
                                    Inr x \<Rightarrow> PyFloat x
                                  | Inl e \<Rightarrow> PyStr (py_split l ! 1))
                            else (case py_int (py_split l ! 1) of
                                    Inr i \<Rightarrow> PyInt i
                                  | Inl e \<Rightarrow> PyStr (py_split l ! 1)))
                \<and> (int_literal (py_split l ! 1)
                      \<and> length (py_split l ! 1) \<le> int_max_str_digits
                    \<longrightarrow> dict_get m (py_split l ! 0)
                          = Some (PyInt (int (dec_value (py_split l ! 1)))))"
    by blast
next
  assume h: "parse_gem_stat_stat_line l
          \<and> (\<forall>l' \<in> set post. parse_gem_stat_stat_line l'
                \<longrightarrow> py_split l' ! 0 \<noteq> py_split l ! 0)"
  then have h1: "parse_gem_stat_stat_line l"
    and h2: "\<forall>l' \<in> set post. parse_gem_stat_stat_line l'
                \<longrightarrow> py_split l' ! 0 \<noteq> py_split l ! 0"
    by blast+
  from parse_gem_stat_last_value [OF assms h1 h2, of f] obtain m where
    m: "parse_gem_stat_parse_stats_file (only_file f text) f = Inr m"
    and v: "dict_get m (py_split l ! 0) = Some (parse_gem_stat_value (py_split l ! 1))"
    by blast
  have "int_literal (py_split l ! 1)
          \<longrightarrow> parse_gem_stat_value (py_split l ! 1)
                = PyFloat (round_double (of_nat (dec_value (py_split l ! 1))))"
    by (simp add: parse_gem_stat_value_def int_literal_py_float)
  with v have il: "int_literal (py_split l ! 1)
                    \<longrightarrow> dict_get m (py_split l ! 0)
                          = Some (PyFloat (round_double
                                    (of_nat (dec_value (py_split l ! 1)))))"
    by simp
  note v' = v [unfolded parse_gem_stat_value_def]
  from m v' il
  show "\<exists>m. parse_gem_stat_parse_stats_file (only_file f text) f = Inr m
                \<and> dict_get m (py_split l ! 0)
                    = Some (case py_float (py_split l ! 1) of
                              Inr x \<Rightarrow> PyFloat x
                            | Inl e \<Rightarrow> PyStr (py_split l ! 1))
                \<and> (int_literal (py_split l ! 1)
                    \<longrightarrow> dict_get m (py_split l ! 0)
                          = Some (PyFloat (round_double
                                    (of_nat (dec_value (py_split l ! 1))))))"
    by blast
qed
text \<open>
  C1, witness: the report with the single line \<open>a::b 42\<close>, which both parsers store.
\<close>

theorem value_coercion_witness:
  "file_lines ''a::b 42'' = [] @ ''a::b 42'' # []
   \<and> analyze_results_stat_line ''a::b 42'' \<and> parse_gem_stat_stat_line ''a::b 42''
   \<and> py_split ''a::b 42'' = [''a::b'', ''42'']
   \<and> int_literal ''42'' \<and> length ''42'' \<le> int_max_str_digits \<and> dec_value ''42'' = 42
   \<and> analyze_results_parse_stats_file (only_file ''stats.txt'' ''a::b 42'') ''stats.txt''
       = Inr [(''a::b'', PyInt 42)]
   \<and> parse_gem_stat_parse_stats_file (only_file ''stats.txt'' ''a::b 42'') ''stats.txt''
       = Inr [(''a::b'', PyFloat (Finite 42))]"
proof -
  have fl: "file_lines ''a::b 42'' = [] @ ''a::b 42'' # []"
    by (simp add: file_lines.simps newline_def)
  have s1: "py_split ''a::b 42'' = [''a::b'', ''42'']"
    by (simp add: text_eval)
  have q1: "analyze_results_stat_line ''a::b 42''"
    by (simp add: analyze_results_stat_line_iff s1)
  have q2: "parse_gem_stat_stat_line ''a::b 42''"
    by (simp add: parse_gem_stat_stat_line_def s1)
  have lit: "int_literal ''42''" by (simp add: int_literal_def is_digit_def)
  have len: "length ''42'' \<le> int_max_str_digits" by (simp add: int_max_str_digits_def)
  have dv: "dec_value ''42'' = 42" by (simp add: dec_value_def digit_val_def)
  note T = value_coercion [OF fl, of "''stats.txt''"]
  have "\<exists>m. analyze_results_parse_stats_file (only_file ''stats.txt'' ''a::b 42'') ''stats.txt''
              = Inr m
           \<and> dict_get m ''a::b'' = Some (PyInt 42)"
    using T q1 lit len by (auto simp add: s1 dv)
  moreover
  have "\<exists>m. parse_gem_stat_parse_stats_file (only_file ''stats.txt'' ''a::b 42'') ''stats.txt''
              = Inr m
           \<and> dict_get m ''a::b'' = Some (PyFloat (Finite 42))"
    using T q2 lit by (auto simp add: s1 dv round_double_int [of 42, simplified])
  moreover
  have "analyze_results_parse_stats_file (only_file ''stats.txt'' ''a::b 42'') ''stats.txt''
       = Inr [(''a::b'', PyInt 42)]"
    by (simp add: analyze_results_parse_stats_file_def only_file_def
          analyze_results_store_def text_eval dict_eval)
  moreover
  have "parse_gem_stat_parse_stats_file (only_file ''stats.txt'' ''a::b 42'') ''stats.txt''
       = Inr [(''a::b'', PyFloat (Finite 42))]"
    by (simp add: parse_gem_stat_parse_stats_file_def only_file_def
          parse_gem_stat_store_def text_eval dict_eval round_double_int [of 42, simplified])
  ultimately show ?thesis using fl s1 q1 q2 lit len dv by simp
qed

section \<open>More facts about binary64 rounding\<close>

lemma pow2_strict_mono: "a < b \<Longrightarrow> pow2 a < pow2 b"
  by (simp add: pow2_powi power_int_strict_increasing)

lemma ilog2_upper:
  assumes "0 < a"
  shows "a < pow2 (ilog2 a + 1)"
proof (cases "1 \<le> a")
  case True
  then have fl: "0 < \<lfloor>a\<rfloor>" by simp
  have b0: "0 \<le> bitlen \<lfloor>a\<rfloor>" by (rule bitlen_nonneg)
  have "\<lfloor>a\<rfloor> < 2 ^ nat (bitlen \<lfloor>a\<rfloor>)" using bitlen_bounds [OF fl] by simp
  then have "\<lfloor>a\<rfloor> + 1 \<le> 2 ^ nat (bitlen \<lfloor>a\<rfloor>)" by simp
  then have "(of_int (\<lfloor>a\<rfloor> + 1) :: rat) \<le> of_int (2 ^ nat (bitlen \<lfloor>a\<rfloor>))"
    by (simp only: of_int_le_iff)
  moreover have "a < of_int (\<lfloor>a\<rfloor> + 1)" by linarith
  ultimately have "a < of_int (2 ^ nat (bitlen \<lfloor>a\<rfloor>))" by simp
  then show ?thesis using True b0 by (simp add: ilog2_def pow2_def)
next
  case False
  then have a1: "a < 1" by simp
  define n where "n = \<lceil>1 / a\<rceil> - 1"
  have "1 < 1 / a" using assms a1 by simp
  then have "1 < \<lceil>1 / a\<rceil>" by (simp add: less_ceiling_iff)
  then have npos: "0 < n" by (simp add: n_def)
  have b1: "1 \<le> bitlen n"
    using npos bitlen_eq_zero_iff [of n] bitlen_nonneg [of n] by linarith
  have "(2::int) ^ nat (bitlen n - 1) \<le> n" using bitlen_bounds [OF npos] by simp
  then have "(of_int (2 ^ nat (bitlen n - 1)) :: rat) \<le> of_int n"
    by (simp only: of_int_le_iff)
  then have "(2::rat) ^ nat (bitlen n - 1) \<le> of_int n"
    by (simp only: of_int_power of_int_numeral)
  moreover have "of_int n < 1 / a" unfolding n_def by linarith
  ultimately have "(2::rat) ^ nat (bitlen n - 1) < 1 / a" by (rule order_le_less_trans)
  then have "2 ^ nat (bitlen n - 1) * a < 1" using assms by (simp add: field_simps)
  then have lt: "a < 1 / 2 ^ nat (bitlen n - 1)" by (simp add: field_simps)
  have "ilog2 a + 1 = - (bitlen n - 1)" using False by (simp add: ilog2_def n_def)
  then have "pow2 (ilog2 a + 1) = 1 / 2 ^ nat (bitlen n - 1)"
    using b1 by (cases "bitlen n = 1") (simp_all add: pow2_def)
  with lt show ?thesis by simp
qed

lemma round_half_even_near:
  "t - 1 \<le> of_int (round_half_even t)" "of_int (round_half_even t) \<le> t + 1"
proof -
  have f: "of_int \<lfloor>t\<rfloor> \<le> t" "t < of_int \<lfloor>t\<rfloor> + 1" by linarith+
  have "round_half_even t = \<lfloor>t\<rfloor> \<or> round_half_even t = \<lfloor>t\<rfloor> + 1"
    by (auto simp add: round_half_even_def Let_def)
  then have "of_int (round_half_even t) = (of_int \<lfloor>t\<rfloor> :: rat)
           \<or> of_int (round_half_even t) = (of_int \<lfloor>t\<rfloor> :: rat) + 1"
    by auto
  with f show "t - 1 \<le> of_int (round_half_even t)" "of_int (round_half_even t) \<le> t + 1"
    by linarith+
qed

text \<open>The rounded value of a positive number, and how far it is from the number.\<close>

lemma round_double_pos_unfold:
  assumes "0 < x"
  shows "round_double x =
           (let q = max (ilog2 x) (- 1022) - 52;
                y = of_int (round_half_even (x / pow2 q)) * pow2 q
            in if 2 ^ 1024 \<le> y then PosInf else Finite y)"
  using assms by (simp add: round_double_def Let_def)

lemma round_double_close:
  assumes "0 < x" and "q = max (ilog2 x) (- 1022) - 52"
      and "y = of_int (round_half_even (x / pow2 q)) * pow2 q"
  shows "x - pow2 q \<le> y" "y \<le> x + pow2 q"
proof -
  have p: "0 < pow2 q" by (rule pow2_pos)
  then have pn: "pow2 q \<noteq> 0" by simp
  have e1: "(x / pow2 q - 1) * pow2 q = x - pow2 q"
    by (simp add: left_diff_distrib pn)
  have e2: "(x / pow2 q + 1) * pow2 q = x + pow2 q"
    by (simp add: distrib_right pn)
  have "(x / pow2 q - 1) * pow2 q \<le> y"
    unfolding assms(3) using p round_half_even_near(1) [of "x / pow2 q"]
    by (simp only: mult_le_cancel_right_pos)
  then show "x - pow2 q \<le> y" by (simp only: e1)
  have "y \<le> (x / pow2 q + 1) * pow2 q"
    unfolding assms(3) using p round_half_even_near(2) [of "x / pow2 q"]
    by (simp only: mult_le_cancel_right_pos)
  then show "y \<le> x + pow2 q" by (simp only: e2)
qed

lemma ilog2_less: "0 < x \<Longrightarrow> x < pow2 n \<Longrightarrow> ilog2 x < n"
proof (rule ccontr)
  assume a: "0 < x" "x < pow2 n" "\<not> ilog2 x < n"
  then have "pow2 n \<le> pow2 (ilog2 x)" by (simp add: pow2_mono)
  with ilog2_lower [OF a(1)] a(2) show False by simp
qed

lemma ilog2_ge: "0 < x \<Longrightarrow> pow2 n \<le> x \<Longrightarrow> n \<le> ilog2 x"
proof (rule ccontr)
  assume a: "0 < x" "pow2 n \<le> x" "\<not> n \<le> ilog2 x"
  then have "pow2 (ilog2 x + 1) \<le> pow2 n" by (simp add: pow2_mono)
  with ilog2_upper [OF a(1)] a(2) show False by simp
qed

lemma round_double_finite_pos:
  assumes "0 < x" "x < 2 ^ 1023"
  shows "\<exists>r. round_double x = Finite r \<and> 0 \<le> r"
proof -
  define q where "q = max (ilog2 x) (- 1022) - 52"
  define y where "y = of_int (round_half_even (x / pow2 q)) * pow2 q"
  have "x < pow2 1023" using assms(2) by (simp add: pow2_def)
  then have "ilog2 x < 1023" using assms(1) by (intro ilog2_less)
  then have "q \<le> 970" by (simp add: q_def)
  then have "pow2 q \<le> pow2 970" by (rule pow2_mono)
  then have "pow2 q \<le> 2 ^ 970" by (simp add: pow2_def)
  with round_double_close(2) [OF assms(1) q_def y_def] assms(2)
  have "y < 2 ^ 1023 + 2 ^ 970" by linarith
  moreover have "(2::rat) ^ 1023 + 2 ^ 970 \<le> 2 ^ 1024" by simp
  ultimately have small: "\<not> 2 ^ 1024 \<le> y" by linarith
  have "0 \<le> x / pow2 q" using assms(1) pow2_pos [of q] by simp
  then have "0 \<le> round_half_even (x / pow2 q)" by (rule round_half_even_nonneg)
  then have "0 \<le> y" unfolding y_def using pow2_pos [of q] by simp
  with small show ?thesis
    unfolding round_double_pos_unfold [OF assms(1)]
    by (simp add: Let_def flip: q_def y_def)
qed

lemma round_double_finite:
  assumes "\<bar>x\<bar> < 2 ^ 1023"
  shows "\<exists>r. round_double x = Finite r"
proof -
  consider "x = 0" | "0 < x" | "x < 0" by linarith
  then show ?thesis
  proof cases
    case 1
    then show ?thesis by (simp add: round_double_def)
  next
    case 2
    with assms round_double_finite_pos [of x] show ?thesis by auto
  next
    case 3
    with assms round_double_finite_pos [of "- x"] obtain r
      where "round_double (- x) = Finite r" by auto
    then have "fneg (round_double x) = Finite r" by (simp add: round_double_neg)
    then show ?thesis by (cases "round_double x") auto
  qed
qed

text \<open>In the range of the normal numbers, rounding changes a value by a factor of at most two.\<close>

lemma round_double_normal:
  assumes "pow2 (- 1022) \<le> x" "x < 2 ^ 1023"
  shows "\<exists>r. round_double x = Finite r \<and> x / 2 \<le> r \<and> r \<le> 2 * x"
proof -
  have xp: "0 < x" using assms(1) pow2_pos [of "- 1022"] by linarith
  define q where "q = max (ilog2 x) (- 1022) - 52"
  define y where "y = of_int (round_half_even (x / pow2 q)) * pow2 q"
  have "- 1022 \<le> ilog2 x" using xp assms(1) by (rule ilog2_ge)
  then have qe: "q = ilog2 x - 52" by (simp add: q_def)
  have "pow2 (q + 52) \<le> x" unfolding qe using ilog2_lower [OF xp] by simp
  then have "pow2 q * pow2 52 \<le> x" by (simp only: pow2_add)
  moreover have "pow2 52 = 2 ^ 52" by (simp add: pow2_def)
  ultimately have "pow2 q * 2 ^ 52 \<le> x" by simp
  moreover have "pow2 q * 2 \<le> pow2 q * 2 ^ 52" using pow2_pos [of q] by simp
  ultimately have half: "pow2 q \<le> x / 2" by linarith
  from round_double_close [OF xp q_def y_def] half
  have lo: "x / 2 \<le> y" and hi: "y \<le> 2 * x" by linarith+
  have "2 * x < 2 ^ 1024" using assms(2) by simp
  with hi have small: "\<not> 2 ^ 1024 \<le> y" by linarith
  from small lo hi show ?thesis
    unfolding round_double_pos_unfold [OF xp]
    by (simp add: Let_def flip: q_def y_def)
qed

section \<open>Instructions per cycle\<close>

lemma analyze_experiment_unfold:
  assumes "analyze_results_parse_stats_file fs f = Inr stats"
  shows "analyze_experiment fs f =
     (if stats = [] then Inr None
      else case insts_operand stats of
             None \<Rightarrow> Inr (Some [])
           | Some i \<Rightarrow>
               if py_truthy i \<and> py_truthy (cycles_operand stats)
               then
                 bind (py_truediv i (cycles_operand stats)) (\<lambda>ipc.
                 bind (py_truediv (cycles_operand stats) i) (\<lambda>cpi.
                 bind (py_int_of_value i) (\<lambda>_.
                 bind (py_int_of_value (cycles_operand stats)) (\<lambda>_.
                 bind (py_gt_int (dict_get_default stats
                         ''system.cpu.branchPred.condPredicted'' (PyInt 0)) 0) (\<lambda>positive.
                   if positive
                   then
                     bind (py_sub
                             (dict_get_default stats
                                ''system.cpu.branchPred.condPredicted'' (PyInt 0))
                             (dict_get_default stats
                                ''system.cpu.branchPred.condIncorrect'' (PyInt 0))) (\<lambda>d.
                     bind (py_truediv d (dict_get_default stats
                             ''system.cpu.branchPred.condPredicted'' (PyInt 0))) (\<lambda>q.
                     bind (py_mul q (PyInt 100)) (\<lambda>bp_accuracy.
                       Inr (Some [(''instructions'', i),
                                  (''cycles'', cycles_operand stats),
                                  (''ipc'', ipc), (''cpi'', cpi),
                                  (''branch_accuracy'', bp_accuracy)]))))
                   else Inr (Some [(''instructions'', i),
                                   (''cycles'', cycles_operand stats),
                                   (''ipc'', ipc), (''cpi'', cpi)]))))))
               else Inr (Some []))"
  using assms
  by (simp add: analyze_experiment_def bind_def insts_operand_def cycles_operand_def
        Let_def dict_set_def split: option.splits sum.splits)

lemma truthy_not_zero: "py_truthy v \<Longrightarrow> \<not> is_text v \<Longrightarrow> \<not> is_zero v"
  by (cases v) (auto simp add: is_zero_def)

lemma zero_not_truthy: "is_zero v \<Longrightarrow> \<not> py_truthy v"
  by (auto simp add: is_zero_def)

lemma py_truediv_text: "is_text a \<or> is_text b \<Longrightarrow> py_truediv a b = Inl TypeError"
  by (cases a; cases b) auto

lemma py_truediv_ints:
  assumes "c \<noteq> 0" "\<bar>i\<bar> < 2 ^ 1023"
  shows "py_truediv (PyInt i) (PyInt c)
           = Inr (PyFloat (round_double (of_int i / of_int c)))"
proof -
  have "\<bar>of_int i / of_int c :: rat\<bar> \<le> \<bar>of_int i\<bar>"
  proof -
    have "1 \<le> \<bar>c\<bar>" using assms(1) by simp
    then have "(1::rat) \<le> \<bar>of_int c\<bar>" by (metis of_int_1_le_iff of_int_abs)
    then have "\<bar>of_int i :: rat\<bar> / \<bar>of_int c\<bar> \<le> \<bar>of_int i\<bar> / 1"
      by (intro divide_left_mono) auto
    then show ?thesis by simp
  qed
  moreover have "\<bar>of_int i :: rat\<bar> < 2 ^ 1023"
  proof -
    have "(of_int \<bar>i\<bar> :: rat) < of_int (2 ^ 1023)" using assms(2) by (simp only: of_int_less_iff)
    then show ?thesis by simp
  qed
  ultimately have "\<bar>of_int i / of_int c :: rat\<bar> < 2 ^ 1023" by linarith
  from round_double_finite [OF this] obtain r
    where "round_double (of_int i / of_int c) = Finite r" by blast
  then show ?thesis using assms(1) by simp
qed
text \<open>
  C4, as stated, fails: a report can hold an operand that is present and not zero and
  still is no number. The value \<open>nan\<close> of \<open>system.cpu.numInsts\<close> has no point, \<open>int\<close>
  rejects it, and the parser keeps it as text; \<open>analyze_experiment\<close> takes the text for
  true, divides it by the cycle count and raises \<open>TypeError\<close>: no field is computed.
\<close>

theorem analyze_experiment_text_operand:
  "analyze_experiment
     (only_file ''stats.txt'' ''system.cpu.numInsts nan\<newline>system.cpu.numCycles 500'')
     ''stats.txt'' = Inl TypeError"
  by (simp add: analyze_experiment_def analyze_results_parse_stats_file_def only_file_def
        analyze_results_store_def text_eval dict_eval)

lemma round_double_int_ne_zero:
  assumes "i \<noteq> 0" "\<bar>i\<bar> < 2 ^ 1023"
  shows "\<exists>r. round_double (of_int i) = Finite r \<and> r \<noteq> 0"
proof -
  have small: "pow2 (- 1022) \<le> 1"
    using pow2_mono [of "- 1022" 0] by (simp add: pow2_def)
  have pos: "\<exists>r. round_double (of_int j) = Finite r \<and> r \<noteq> 0"
    if j: "0 < j" "j < 2 ^ 1023" for j :: int
  proof -
    have "(1::rat) \<le> of_int j" using j(1) by simp
    with small have lo: "pow2 (- 1022) \<le> of_int j" by linarith
    have "(of_int j :: rat) < of_int (2 ^ 1023)" using j(2) by (simp only: of_int_less_iff)
    then have hi: "(of_int j :: rat) < 2 ^ 1023" by simp
    from round_double_normal [OF lo hi] obtain r
      where r: "round_double (of_int j) = Finite r" "of_int j / 2 \<le> r" by blast
    have "(0::rat) < of_int j / 2" using j(1) by simp
    with r show ?thesis by auto
  qed
  show ?thesis
  proof (cases "0 < i")
    case True
    with assms pos [of i] show ?thesis by simp
  next
    case False
    with assms have "0 < - i" "- i < 2 ^ 1023" by simp_all
    from pos [OF this] obtain r
      where r: "round_double (of_int (- i)) = Finite r" "r \<noteq> 0" by blast
    from r(1) have "fneg (round_double (of_int i)) = Finite r"
      by (simp add: round_double_neg)
    with r(2) show ?thesis by (cases "round_double (of_int i)") auto
  qed
qed

lemma int_to_float_finite:
  assumes "\<bar>i\<bar> < 2 ^ 1023"
  shows "\<exists>r. int_to_float i = Inr (Finite r) \<and> (i \<noteq> 0 \<longrightarrow> r \<noteq> 0)"
proof (cases "i = 0")
  case True
  then show ?thesis by (simp add: int_to_float_def round_double_def)
next
  case False
  from round_double_int_ne_zero [OF False assms] show ?thesis
    by (auto simp add: int_to_float_def)
qed

lemma finite_number_bound: "finite_number (PyInt i) \<Longrightarrow> \<bar>i\<bar> < 2 ^ 1023"
proof -
  assume "finite_number (PyInt i)"
  then have "\<bar>i\<bar> < 2 ^ 1022" by simp
  moreover have "(2::int) ^ 1022 < 2 ^ 1023" by simp
  ultimately show ?thesis by linarith
qed

lemma plain_number_bound: "plain_number (PyInt i) \<Longrightarrow> \<bar>i\<bar> < 2 ^ 1023"
proof -
  assume "plain_number (PyInt i)"
  then have "\<bar>i\<bar> < 2 ^ 1022" by simp
  moreover have "(2::int) ^ 1022 < 2 ^ 1023" by simp
  ultimately show ?thesis by linarith
qed

lemma finite_number_truthy: "finite_number v \<Longrightarrow> \<not> is_zero v \<Longrightarrow> py_truthy v"
  by (cases v) (auto simp add: is_zero_def)

lemma finite_number_int: "finite_number v \<Longrightarrow> \<exists>n. py_int_of_value v = Inr n"
proof (cases v)
  case (PyInt i)
  then show ?thesis by simp
next
  case (PyFloat x)
  assume "finite_number v"
  with PyFloat show ?thesis by (cases x) simp_all
next
  case (PyStr s)
  assume "finite_number v"
  with PyStr show ?thesis by simp
qed

text \<open>The quotient of two numbers of finite size, the divisor not zero, is a \<open>float\<close>.\<close>

lemma finite_numbers_divide:
  assumes "finite_number a" "finite_number b" "\<not> is_zero b"
  shows "\<exists>x. py_truediv a b = Inr (PyFloat x)"
proof (cases a)
  case ia: (PyInt i)
  with assms(1) have bi: "\<bar>i\<bar> < 2 ^ 1023" by (simp add: finite_number_bound)
  show ?thesis
  proof (cases b)
    case (PyInt j)
    with assms(3) have "j \<noteq> 0" by (simp add: is_zero_def)
    from py_truediv_ints [OF this bi] show ?thesis unfolding ia PyInt by blast
  next
    case (PyFloat y)
    with assms(2) obtain r where y: "y = Finite r" by (cases y) simp_all
    with assms(3) PyFloat have "r \<noteq> 0" by (simp add: is_zero_def)
    moreover from int_to_float_finite [OF bi] obtain ri
      where "int_to_float i = Inr (Finite ri)" by blast
    ultimately show ?thesis by (simp add: ia PyFloat y bind_def)
  next
    case (PyStr s)
    with assms(2) show ?thesis by simp
  qed
next
  case fa: (PyFloat x)
  show ?thesis
  proof (cases b)
    case (PyInt j)
    with assms(3) have j: "j \<noteq> 0" by (simp add: is_zero_def)
    from assms(2) PyInt have "\<bar>j\<bar> < 2 ^ 1023" by (simp add: finite_number_bound)
    from int_to_float_finite [OF this] j obtain rj
      where "int_to_float j = Inr (Finite rj)" "rj \<noteq> 0" by blast
    then show ?thesis by (simp add: fa PyInt bind_def)
  next
    case (PyFloat y)
    with assms(2) obtain r where y: "y = Finite r" by (cases y) simp_all
    with assms(3) PyFloat have "r \<noteq> 0" by (simp add: is_zero_def)
    then show ?thesis by (simp add: fa PyFloat y bind_def)
  next
    case (PyStr s)
    with assms(2) show ?thesis by simp
  qed
next
  case (PyStr s)
  with assms(1) show ?thesis by simp
qed

text \<open>
  The accuracy of the branch predictor, \<open>((predicted - incorrect) / predicted) * 100\<close>,
  for a count of predicted branches above zero: no step of it raises.
\<close>

lemma branch_accuracy_defined:
  assumes "plain_number p" "plain_number q" "py_gt_int p 0 = Inr True"
  shows "\<exists>d x. py_sub p q = Inr d \<and> py_truediv d p = Inr (PyFloat x)
           \<and> py_mul (PyFloat x) (PyInt 100) = Inr (PyFloat (fmul x (Finite 100)))"
proof -
  have hundred: "py_mul (PyFloat x) (PyInt 100) = Inr (PyFloat (fmul x (Finite 100)))" for x
    using round_double_int [of 100] by (simp add: bind_def int_to_float_def)
  have "\<exists>d x. py_sub p q = Inr d \<and> py_truediv d p = Inr (PyFloat x)"
  proof (cases p)
    case ip: (PyInt i)
    with assms(3) have ipos: "0 < i" by simp
    from assms(1) ip have i22: "\<bar>i\<bar> < 2 ^ 1022" by simp
    from assms(1) ip have bi: "\<bar>i\<bar> < 2 ^ 1023" by (simp add: plain_number_bound)
    from int_to_float_finite [OF bi] ipos obtain ri
      where ri: "int_to_float i = Inr (Finite ri)" "ri \<noteq> 0" by auto
    show ?thesis
    proof (cases q)
      case (PyInt j)
      with assms(2) have "\<bar>j\<bar> < 2 ^ 1022" by simp
      with i22 have "\<bar>i - j\<bar> < 2 ^ 1022 + 2 ^ 1022" by linarith
      then have "\<bar>i - j\<bar> < 2 ^ 1023" by simp
      with ipos py_truediv_ints [of i "i - j"] show ?thesis
        unfolding ip PyInt by (simp del: py_truediv.simps)
    next
      case (PyFloat y)
      with ri show ?thesis by (simp add: ip bind_def)
    next
      case (PyStr s)
      with assms(2) show ?thesis by simp
    qed
  next
    case fp: (PyFloat f)
    with assms(3) have fne: "f \<noteq> Finite 0" by auto
    show ?thesis
    proof (cases q)
      case (PyInt j)
      with assms(2) have "\<bar>j\<bar> < 2 ^ 1023" by (simp add: plain_number_bound)
      from int_to_float_finite [OF this] obtain rj
        where "int_to_float j = Inr (Finite rj)" by blast
      with fne show ?thesis by (simp add: fp PyInt bind_def)
    next
      case (PyFloat y)
      with fne show ?thesis by (simp add: fp bind_def)
    next
      case (PyStr s)
      with assms(2) show ?thesis by simp
    qed
  next
    case (PyStr s)
    with assms(1) show ?thesis by simp
  qed
  with hundred show ?thesis by blast
qed

text \<open>
  C4, amended: let \<open>stats\<close> be the parsed report. Without any entry the result is
  \<open>None\<close>. When an operand is missing or is a zero number, the result has no field and
  nothing is raised. Whenever the result has fields, both operands are present, are
  numbers and are not zero, and \<open>ipc\<close> is \<open>instructions / cycles\<close> and \<open>cpi\<close> is
  \<open>cycles / instructions\<close>. For two \<open>int\<close> operands that are not zero (below \<open>2^1023\<close>
  in size) and a report without predicted branches, the result is exactly these four
  fields. In general, for two operands that are numbers of finite size (an \<open>int\<close> below
  \<open>2^1022\<close> in size or a finite \<open>float\<close>) and not zero: when the count of predicted
  branches is a number that is not above zero, the result is exactly the four fields
  \<open>instructions\<close>, \<open>cycles\<close>, \<open>ipc\<close> and \<open>cpi\<close>; when the count of predicted branches
  is a number above zero and the count of incorrect ones is a number, the result is
  these four fields followed by \<open>branch_accuracy\<close>. When an operand is text (a value
  that is no number) and the other one is not zero, \<open>TypeError\<close> is raised.
\<close>

theorem ipc_cpi_derivation:
  assumes "analyze_results_parse_stats_file fs f = Inr stats"
  shows "(stats = [] \<longrightarrow> analyze_experiment fs f = Inr None)
       \<and> (stats \<noteq> []
            \<and> (insts_operand stats = None
                \<or> (\<exists>i. insts_operand stats = Some i \<and> is_zero i)
                \<or> dict_get stats ''system.cpu.numCycles'' = None
                \<or> is_zero (cycles_operand stats))
          \<longrightarrow> analyze_experiment fs f = Inr (Some []))
       \<and> (\<forall>r. analyze_experiment fs f = Inr (Some r) \<and> r \<noteq> []
          \<longrightarrow> (\<exists>i c ipc cpi.
                 insts_operand stats = Some i
                 \<and> dict_get stats ''system.cpu.numCycles'' = Some c
                 \<and> \<not> is_zero i \<and> \<not> is_zero c \<and> \<not> is_text i \<and> \<not> is_text c
                 \<and> py_truediv i c = Inr ipc \<and> py_truediv c i = Inr cpi
                 \<and> dict_get r ''instructions'' = Some i \<and> dict_get r ''cycles'' = Some c
                 \<and> dict_get r ''ipc'' = Some ipc \<and> dict_get r ''cpi'' = Some cpi))
       \<and> (\<forall>i c. insts_operand stats = Some (PyInt i)
                \<and> dict_get stats ''system.cpu.numCycles'' = Some (PyInt c)
                \<and> i \<noteq> 0 \<and> c \<noteq> 0 \<and> \<bar>i\<bar> < 2 ^ 1023 \<and> \<bar>c\<bar> < 2 ^ 1023
                \<and> dict_get stats ''system.cpu.branchPred.condPredicted'' = None
          \<longrightarrow> analyze_experiment fs f
                = Inr (Some [(''instructions'', PyInt i), (''cycles'', PyInt c),
                             (''ipc'', PyFloat (round_double (of_int i / of_int c))),
                             (''cpi'', PyFloat (round_double (of_int c / of_int i)))]))
       \<and> (\<forall>i c. insts_operand stats = Some i
                \<and> dict_get stats ''system.cpu.numCycles'' = Some c
                \<and> finite_number i \<and> finite_number c \<and> \<not> is_zero i \<and> \<not> is_zero c
                \<and> py_gt_int (bp_predicted stats) 0 = Inr False
          \<longrightarrow> (\<exists>ipc cpi.
                 py_truediv i c = Inr (PyFloat ipc) \<and> py_truediv c i = Inr (PyFloat cpi)
                 \<and> analyze_experiment fs f
                   = Inr (Some [(''instructions'', i), (''cycles'', c),
                                (''ipc'', PyFloat ipc), (''cpi'', PyFloat cpi)])))
       \<and> (\<forall>i c. insts_operand stats = Some i
                \<and> dict_get stats ''system.cpu.numCycles'' = Some c
                \<and> finite_number i \<and> finite_number c \<and> \<not> is_zero i \<and> \<not> is_zero c
                \<and> py_gt_int (bp_predicted stats) 0 = Inr True
                \<and> plain_number (bp_predicted stats) \<and> plain_number (bp_incorrect stats)
          \<longrightarrow> (\<exists>ipc cpi d q.
                 py_truediv i c = Inr (PyFloat ipc) \<and> py_truediv c i = Inr (PyFloat cpi)
                 \<and> py_sub (bp_predicted stats) (bp_incorrect stats) = Inr d
                 \<and> py_truediv d (bp_predicted stats) = Inr (PyFloat q)
                 \<and> analyze_experiment fs f
                   = Inr (Some [(''instructions'', i), (''cycles'', c),
                                (''ipc'', PyFloat ipc), (''cpi'', PyFloat cpi),
                                (''branch_accuracy'', PyFloat (fmul q (Finite 100)))])))
       \<and> (\<forall>i. insts_operand stats = Some i
                \<and> py_truthy i \<and> py_truthy (cycles_operand stats)
                \<and> (is_text i \<or> is_text (cycles_operand stats))
          \<longrightarrow> analyze_experiment fs f = Inl TypeError)"
proof (intro conjI allI impI)
  assume "stats = []"
  then show "analyze_experiment fs f = Inr None"
    by (simp add: analyze_experiment_unfold [OF assms])
next
  assume h: "stats \<noteq> []
            \<and> (insts_operand stats = None
                \<or> (\<exists>i. insts_operand stats = Some i \<and> is_zero i)
                \<or> dict_get stats ''system.cpu.numCycles'' = None
                \<or> is_zero (cycles_operand stats))"
  have "dict_get stats ''system.cpu.numCycles'' = None \<Longrightarrow> \<not> py_truthy (cycles_operand stats)"
    by (simp add: cycles_operand_def dict_get_default_get)
  with h show "analyze_experiment fs f = Inr (Some [])"
    by (auto simp add: analyze_experiment_unfold [OF assms] zero_not_truthy
          split: option.splits)
next
  fix r
  assume h: "analyze_experiment fs f = Inr (Some r) \<and> r \<noteq> []"
  then have ne: "stats \<noteq> []"
    by (auto simp add: analyze_experiment_unfold [OF assms])
  from h ne obtain i where i: "insts_operand stats = Some i"
    by (cases "insts_operand stats") (auto simp add: analyze_experiment_unfold [OF assms])
  from h ne i have t: "py_truthy i" "py_truthy (cycles_operand stats)"
    by (auto simp add: analyze_experiment_unfold [OF assms] split: if_splits)
  from t(2) obtain c where c: "dict_get stats ''system.cpu.numCycles'' = Some c"
    and co: "cycles_operand stats = c"
    by (cases "dict_get stats ''system.cpu.numCycles''")
       (auto simp add: cycles_operand_def dict_get_default_get)
  from h ne i t co obtain ipc where ipc: "py_truediv i c = Inr ipc"
    by (cases "py_truediv i c") (auto simp add: analyze_experiment_unfold [OF assms] bind_def)
  from h ne i t co ipc obtain cpi where cpi: "py_truediv c i = Inr cpi"
    by (cases "py_truediv c i") (auto simp add: analyze_experiment_unfold [OF assms] bind_def)
  have nt: "\<not> is_text i" "\<not> is_text c"
    using ipc py_truediv_text [of i c] by auto
  have r: "r = [(''instructions'', i), (''cycles'', c), (''ipc'', ipc), (''cpi'', cpi)]
           \<or> (\<exists>a. r = [(''instructions'', i), (''cycles'', c), (''ipc'', ipc), (''cpi'', cpi),
                        (''branch_accuracy'', a)])"
    using h ne i t co ipc cpi
    by (auto simp add: analyze_experiment_unfold [OF assms] bind_def
          split: sum.splits if_splits)
  have "dict_get r ''instructions'' = Some i \<and> dict_get r ''cycles'' = Some c
         \<and> dict_get r ''ipc'' = Some ipc \<and> dict_get r ''cpi'' = Some cpi"
    using r by (auto simp add: dict_get_def)
  with i c ipc cpi nt t co
  show "\<exists>i c ipc cpi.
                 insts_operand stats = Some i
                 \<and> dict_get stats ''system.cpu.numCycles'' = Some c
                 \<and> \<not> is_zero i \<and> \<not> is_zero c \<and> \<not> is_text i \<and> \<not> is_text c
                 \<and> py_truediv i c = Inr ipc \<and> py_truediv c i = Inr cpi
                 \<and> dict_get r ''instructions'' = Some i \<and> dict_get r ''cycles'' = Some c
                 \<and> dict_get r ''ipc'' = Some ipc \<and> dict_get r ''cpi'' = Some cpi"
    using truthy_not_zero by blast
next
  fix i c
  assume h: "insts_operand stats = Some (PyInt i)
                \<and> dict_get stats ''system.cpu.numCycles'' = Some (PyInt c)
                \<and> i \<noteq> 0 \<and> c \<noteq> 0 \<and> \<bar>i\<bar> < 2 ^ 1023 \<and> \<bar>c\<bar> < 2 ^ 1023
                \<and> dict_get stats ''system.cpu.branchPred.condPredicted'' = None"
  then have ne: "stats \<noteq> []" by (auto simp add: dict_get_def)
  from h have co: "cycles_operand stats = PyInt c"
    by (simp add: cycles_operand_def dict_get_default_get)
  from h have bp: "dict_get_default stats ''system.cpu.branchPred.condPredicted'' (PyInt 0)
                     = PyInt 0"
    by (simp add: dict_get_default_get)
  from h have d1: "py_truediv (PyInt i) (PyInt c)
                     = Inr (PyFloat (round_double (of_int i / of_int c)))"
    by (intro py_truediv_ints) auto
  from h have d2: "py_truediv (PyInt c) (PyInt i)
                     = Inr (PyFloat (round_double (of_int c / of_int i)))"
    by (intro py_truediv_ints) auto
  from h ne show "analyze_experiment fs f
                = Inr (Some [(''instructions'', PyInt i), (''cycles'', PyInt c),
                             (''ipc'', PyFloat (round_double (of_int i / of_int c))),
                             (''cpi'', PyFloat (round_double (of_int c / of_int i)))])"
    by (simp add: analyze_experiment_unfold [OF assms] co bp d1 d2 bind_def
          del: py_truediv.simps)
next
  fix i c
  assume h: "insts_operand stats = Some i
                \<and> dict_get stats ''system.cpu.numCycles'' = Some c
                \<and> finite_number i \<and> finite_number c \<and> \<not> is_zero i \<and> \<not> is_zero c
                \<and> py_gt_int (bp_predicted stats) 0 = Inr False"
  then have ne: "stats \<noteq> []" by (auto simp add: dict_get_def)
  from h have io: "insts_operand stats = Some i" by simp
  from h have co: "cycles_operand stats = c"
    by (simp add: cycles_operand_def dict_get_default_get)
  from h have t: "py_truthy i" "py_truthy c" by (simp_all add: finite_number_truthy)
  from h finite_numbers_divide [of i c] obtain ipc
    where ipc: "py_truediv i c = Inr (PyFloat ipc)" by blast
  from h finite_numbers_divide [of c i] obtain cpi
    where cpi: "py_truediv c i = Inr (PyFloat cpi)" by blast
  from h finite_number_int [of i] obtain n1 where n1: "py_int_of_value i = Inr n1" by blast
  from h finite_number_int [of c] obtain n2 where n2: "py_int_of_value c = Inr n2" by blast
  from h have bp: "py_gt_int (dict_get_default stats
                     ''system.cpu.branchPred.condPredicted'' (PyInt 0)) 0 = Inr False"
    by (simp add: bp_predicted_def)
  have "analyze_experiment fs f
          = Inr (Some [(''instructions'', i), (''cycles'', c),
                       (''ipc'', PyFloat ipc), (''cpi'', PyFloat cpi)])"
    using ne
    by (simp add: analyze_experiment_unfold [OF assms] io co t ipc cpi n1 n2 bp bind_def
          del: py_truediv.simps py_int_of_value.simps py_gt_int.simps)
  with ipc cpi
  show "\<exists>ipc cpi.
                 py_truediv i c = Inr (PyFloat ipc) \<and> py_truediv c i = Inr (PyFloat cpi)
                 \<and> analyze_experiment fs f
                   = Inr (Some [(''instructions'', i), (''cycles'', c),
                                (''ipc'', PyFloat ipc), (''cpi'', PyFloat cpi)])"
    by blast
next
  fix i c
  assume h: "insts_operand stats = Some i
                \<and> dict_get stats ''system.cpu.numCycles'' = Some c
                \<and> finite_number i \<and> finite_number c \<and> \<not> is_zero i \<and> \<not> is_zero c
                \<and> py_gt_int (bp_predicted stats) 0 = Inr True
                \<and> plain_number (bp_predicted stats) \<and> plain_number (bp_incorrect stats)"
  then have ne: "stats \<noteq> []" by (auto simp add: dict_get_def)
  from h have io: "insts_operand stats = Some i" by simp
  from h have co: "cycles_operand stats = c"
    by (simp add: cycles_operand_def dict_get_default_get)
  from h have t: "py_truthy i" "py_truthy c" by (simp_all add: finite_number_truthy)
  from h finite_numbers_divide [of i c] obtain ipc
    where ipc: "py_truediv i c = Inr (PyFloat ipc)" by blast
  from h finite_numbers_divide [of c i] obtain cpi
    where cpi: "py_truediv c i = Inr (PyFloat cpi)" by blast
  from h finite_number_int [of i] obtain n1 where n1: "py_int_of_value i = Inr n1" by blast
  from h finite_number_int [of c] obtain n2 where n2: "py_int_of_value c = Inr n2" by blast
  from h branch_accuracy_defined [of "bp_predicted stats" "bp_incorrect stats"] obtain d q
    where d: "py_sub (bp_predicted stats) (bp_incorrect stats) = Inr d"
      and q: "py_truediv d (bp_predicted stats) = Inr (PyFloat q)"
      and a: "py_mul (PyFloat q) (PyInt 100) = Inr (PyFloat (fmul q (Finite 100)))"
    by blast
  from h have bp: "py_gt_int (bp_predicted stats) 0 = Inr True" by simp
  have "analyze_experiment fs f
          = Inr (Some [(''instructions'', i), (''cycles'', c),
                       (''ipc'', PyFloat ipc), (''cpi'', PyFloat cpi),
                       (''branch_accuracy'', PyFloat (fmul q (Finite 100)))])"
    using ne
    by (simp add: analyze_experiment_unfold [OF assms] io co t ipc cpi n1 n2 bind_def
          bp [unfolded bp_predicted_def]
          d [unfolded bp_predicted_def bp_incorrect_def]
          q [unfolded bp_predicted_def] a
          del: py_truediv.simps py_int_of_value.simps py_gt_int.simps py_sub.simps
               py_mul.simps)
  with ipc cpi d q
  show "\<exists>ipc cpi d q.
                 py_truediv i c = Inr (PyFloat ipc) \<and> py_truediv c i = Inr (PyFloat cpi)
                 \<and> py_sub (bp_predicted stats) (bp_incorrect stats) = Inr d
                 \<and> py_truediv d (bp_predicted stats) = Inr (PyFloat q)
                 \<and> analyze_experiment fs f
                   = Inr (Some [(''instructions'', i), (''cycles'', c),
                                (''ipc'', PyFloat ipc), (''cpi'', PyFloat cpi),
                                (''branch_accuracy'', PyFloat (fmul q (Finite 100)))])"
    by blast
next
  fix i
  assume h: "insts_operand stats = Some i
                \<and> py_truthy i \<and> py_truthy (cycles_operand stats)
                \<and> (is_text i \<or> is_text (cycles_operand stats))"
  then have ne: "stats \<noteq> []" by (auto simp add: insts_operand_def dict_get_def)
  from h have "py_truediv i (cycles_operand stats) = Inl TypeError"
    by (intro py_truediv_text) simp
  with h ne show "analyze_experiment fs f = Inl TypeError"
    by (simp add: analyze_experiment_unfold [OF assms] bind_def)
qed

lemma round_half: "round_double (1 / 2) = Finite (1 / 2)"
  by (rule round_double_exact [of _ 1 "- 1"]) (simp_all add: pow2_def)

lemma round_two: "round_double 2 = Finite 2"
  using round_double_int [of 2] by simp

text \<open>
  C4, witness: a report with 1000 instructions and 500 cycles gives \<open>ipc = 2.0\<close> and
  \<open>cpi = 0.5\<close>, also when the count of instructions is the \<open>float\<close> \<open>1000.0\<close>; with
  four predicted branches, one of them incorrect, the accuracy \<open>75.0\<close> is added; a
  report without the cycle count gives a result without fields.
\<close>

theorem ipc_cpi_derivation_witness:
  "analyze_results_parse_stats_file
     (only_file ''stats.txt'' ''system.cpu.numInsts 1000\<newline>system.cpu.numCycles 500'')
     ''stats.txt''
     = Inr [(''system.cpu.numInsts'', PyInt 1000), (''system.cpu.numCycles'', PyInt 500)]
   \<and> analyze_experiment
       (only_file ''stats.txt'' ''system.cpu.numInsts 1000\<newline>system.cpu.numCycles 500'')
       ''stats.txt''
     = Inr (Some [(''instructions'', PyInt 1000), (''cycles'', PyInt 500),
                  (''ipc'', PyFloat (Finite 2)), (''cpi'', PyFloat (Finite (1 / 2)))])
   \<and> analyze_results_parse_stats_file
       (only_file ''stats.txt'' ''system.cpu.numInsts 1000'') ''stats.txt''
     = Inr [(''system.cpu.numInsts'', PyInt 1000)]
   \<and> analyze_experiment (only_file ''stats.txt'' ''system.cpu.numInsts 1000'') ''stats.txt''
     = Inr (Some [])
   \<and> analyze_results_parse_stats_file
       (only_file ''stats.txt'' ''system.cpu.numInsts 1000.0\<newline>system.cpu.numCycles 500'')
       ''stats.txt''
     = Inr [(''system.cpu.numInsts'', PyFloat (Finite 1000)),
            (''system.cpu.numCycles'', PyInt 500)]
   \<and> analyze_experiment
       (only_file ''stats.txt'' ''system.cpu.numInsts 1000.0\<newline>system.cpu.numCycles 500'')
       ''stats.txt''
     = Inr (Some [(''instructions'', PyFloat (Finite 1000)), (''cycles'', PyInt 500),
                  (''ipc'', PyFloat (Finite 2)), (''cpi'', PyFloat (Finite (1 / 2)))])
   \<and> analyze_results_parse_stats_file
       (only_file ''stats.txt''
          ''system.cpu.numInsts 1000\<newline>system.cpu.numCycles 500\<newline>system.cpu.branchPred.condPredicted 4\<newline>system.cpu.branchPred.condIncorrect 1'')
       ''stats.txt''
     = Inr [(''system.cpu.numInsts'', PyInt 1000), (''system.cpu.numCycles'', PyInt 500),
            (''system.cpu.branchPred.condPredicted'', PyInt 4),
            (''system.cpu.branchPred.condIncorrect'', PyInt 1)]
   \<and> analyze_experiment
       (only_file ''stats.txt''
          ''system.cpu.numInsts 1000\<newline>system.cpu.numCycles 500\<newline>system.cpu.branchPred.condPredicted 4\<newline>system.cpu.branchPred.condIncorrect 1'')
       ''stats.txt''
     = Inr (Some [(''instructions'', PyInt 1000), (''cycles'', PyInt 500),
                  (''ipc'', PyFloat (Finite 2)), (''cpi'', PyFloat (Finite (1 / 2))),
                  (''branch_accuracy'', PyFloat (Finite 75))])"
proof -
  have p1: "analyze_results_parse_stats_file
     (only_file ''stats.txt'' ''system.cpu.numInsts 1000\<newline>system.cpu.numCycles 500'')
     ''stats.txt''
     = Inr [(''system.cpu.numInsts'', PyInt 1000), (''system.cpu.numCycles'', PyInt 500)]"
    by (simp add: analyze_results_parse_stats_file_def only_file_def
          analyze_results_store_def text_eval dict_eval)
  have p2: "analyze_results_parse_stats_file
       (only_file ''stats.txt'' ''system.cpu.numInsts 1000'') ''stats.txt''
     = Inr [(''system.cpu.numInsts'', PyInt 1000)]"
    by (simp add: analyze_results_parse_stats_file_def only_file_def
          analyze_results_store_def text_eval dict_eval)
  have p3: "analyze_results_parse_stats_file
       (only_file ''stats.txt'' ''system.cpu.numInsts 1000.0\<newline>system.cpu.numCycles 500'')
       ''stats.txt''
     = Inr [(''system.cpu.numInsts'', PyFloat (Finite 1000)),
            (''system.cpu.numCycles'', PyInt 500)]"
    by (simp add: analyze_results_parse_stats_file_def only_file_def
          analyze_results_store_def text_eval dict_eval
          round_double_int [of 1000, simplified])
  have p4: "analyze_results_parse_stats_file
       (only_file ''stats.txt''
          ''system.cpu.numInsts 1000\<newline>system.cpu.numCycles 500\<newline>system.cpu.branchPred.condPredicted 4\<newline>system.cpu.branchPred.condIncorrect 1'')
       ''stats.txt''
     = Inr [(''system.cpu.numInsts'', PyInt 1000), (''system.cpu.numCycles'', PyInt 500),
            (''system.cpu.branchPred.condPredicted'', PyInt 4),
            (''system.cpu.branchPred.condIncorrect'', PyInt 1)]"
    by (simp add: analyze_results_parse_stats_file_def only_file_def
          analyze_results_store_def text_eval dict_eval)
  note T1 = ipc_cpi_derivation
    [of "only_file ''stats.txt'' ''system.cpu.numInsts 1000\<newline>system.cpu.numCycles 500''"
        "''stats.txt''"
        "[(''system.cpu.numInsts'', PyInt 1000), (''system.cpu.numCycles'', PyInt 500)]",
     OF p1]
  note T2 = ipc_cpi_derivation
    [of "only_file ''stats.txt'' ''system.cpu.numInsts 1000''" "''stats.txt''"
        "[(''system.cpu.numInsts'', PyInt 1000)]", OF p2]
  note T3 = ipc_cpi_derivation
    [of "only_file ''stats.txt'' ''system.cpu.numInsts 1000.0\<newline>system.cpu.numCycles 500''"
        "''stats.txt''"
        "[(''system.cpu.numInsts'', PyFloat (Finite 1000)),
          (''system.cpu.numCycles'', PyInt 500)]",
     OF p3]
  note T4 = ipc_cpi_derivation
    [of "only_file ''stats.txt''
          ''system.cpu.numInsts 1000\<newline>system.cpu.numCycles 500\<newline>system.cpu.branchPred.condPredicted 4\<newline>system.cpu.branchPred.condIncorrect 1''"
        "''stats.txt''"
        "[(''system.cpu.numInsts'', PyInt 1000), (''system.cpu.numCycles'', PyInt 500),
          (''system.cpu.branchPred.condPredicted'', PyInt 4),
          (''system.cpu.branchPred.condIncorrect'', PyInt 1)]",
     OF p4]
  have a1: "analyze_experiment
       (only_file ''stats.txt'' ''system.cpu.numInsts 1000\<newline>system.cpu.numCycles 500'')
       ''stats.txt''
     = Inr (Some [(''instructions'', PyInt 1000), (''cycles'', PyInt 500),
                  (''ipc'', PyFloat (round_double (of_int 1000 / of_int 500))),
                  (''cpi'', PyFloat (round_double (of_int 500 / of_int 1000)))])"
    by (rule T1 [THEN conjunct2, THEN conjunct2, THEN conjunct2, THEN conjunct1,
                 rule_format])
       (simp add: insts_operand_def dict_get_def)
  have a2: "analyze_experiment (only_file ''stats.txt'' ''system.cpu.numInsts 1000'')
       ''stats.txt'' = Inr (Some [])"
    by (rule T2 [THEN conjunct2, THEN conjunct1, rule_format])
       (simp add: dict_get_def)
  have d1: "py_truediv (PyFloat (Finite 1000)) (PyInt 500) = Inr (PyFloat (Finite 2))"
    by (simp add: bind_def int_to_float_def round_double_int [of 500, simplified] round_two)
  have d2: "py_truediv (PyInt 500) (PyFloat (Finite 1000)) = Inr (PyFloat (Finite (1 / 2)))"
    by (simp add: bind_def int_to_float_def round_double_int [of 500, simplified] round_half)
  have d3: "py_truediv (PyInt 1000) (PyInt 500) = Inr (PyFloat (Finite 2))"
    by (simp add: round_two)
  have d4: "py_truediv (PyInt 500) (PyInt 1000) = Inr (PyFloat (Finite (1 / 2)))"
    by (simp add: round_half)
  have d5: "py_truediv (PyInt 3) (PyInt 4) = Inr (PyFloat (Finite (3 / 4)))"
    by (simp add: round_three_quarters)
  have d6: "fmul (Finite (3 / 4)) (Finite 100) = Finite 75"
    by (simp add: round_double_int [of 75, simplified])
  have h3: "insts_operand [(''system.cpu.numInsts'', PyFloat (Finite 1000)),
                           (''system.cpu.numCycles'', PyInt 500)]
              = Some (PyFloat (Finite 1000))
            \<and> dict_get [(''system.cpu.numInsts'', PyFloat (Finite 1000)),
                        (''system.cpu.numCycles'', PyInt 500)] ''system.cpu.numCycles''
              = Some (PyInt 500)
            \<and> finite_number (PyFloat (Finite 1000)) \<and> finite_number (PyInt 500)
            \<and> \<not> is_zero (PyFloat (Finite 1000)) \<and> \<not> is_zero (PyInt 500)
            \<and> py_gt_int (bp_predicted [(''system.cpu.numInsts'', PyFloat (Finite 1000)),
                                       (''system.cpu.numCycles'', PyInt 500)]) 0
              = Inr False"
    by (simp add: insts_operand_def bp_predicted_def is_zero_def dict_eval)
  from T3 [THEN conjunct2, THEN conjunct2, THEN conjunct2, THEN conjunct2, THEN conjunct1,
           rule_format, OF h3]
  have a3: "analyze_experiment
       (only_file ''stats.txt'' ''system.cpu.numInsts 1000.0\<newline>system.cpu.numCycles 500'')
       ''stats.txt''
     = Inr (Some [(''instructions'', PyFloat (Finite 1000)), (''cycles'', PyInt 500),
                  (''ipc'', PyFloat (Finite 2)), (''cpi'', PyFloat (Finite (1 / 2)))])"
    unfolding d1 d2 by auto
  have b4: "bp_predicted [(''system.cpu.numInsts'', PyInt 1000),
                          (''system.cpu.numCycles'', PyInt 500),
                          (''system.cpu.branchPred.condPredicted'', PyInt 4),
                          (''system.cpu.branchPred.condIncorrect'', PyInt 1)] = PyInt 4"
           "bp_incorrect [(''system.cpu.numInsts'', PyInt 1000),
                          (''system.cpu.numCycles'', PyInt 500),
                          (''system.cpu.branchPred.condPredicted'', PyInt 4),
                          (''system.cpu.branchPred.condIncorrect'', PyInt 1)] = PyInt 1"
    by (simp_all add: bp_predicted_def bp_incorrect_def dict_eval)
  have h4: "insts_operand [(''system.cpu.numInsts'', PyInt 1000),
                           (''system.cpu.numCycles'', PyInt 500),
                           (''system.cpu.branchPred.condPredicted'', PyInt 4),
                           (''system.cpu.branchPred.condIncorrect'', PyInt 1)]
              = Some (PyInt 1000)
            \<and> dict_get [(''system.cpu.numInsts'', PyInt 1000),
                        (''system.cpu.numCycles'', PyInt 500),
                        (''system.cpu.branchPred.condPredicted'', PyInt 4),
                        (''system.cpu.branchPred.condIncorrect'', PyInt 1)]
                ''system.cpu.numCycles''
              = Some (PyInt 500)
            \<and> finite_number (PyInt 1000) \<and> finite_number (PyInt 500)
            \<and> \<not> is_zero (PyInt 1000) \<and> \<not> is_zero (PyInt 500)
            \<and> py_gt_int (bp_predicted [(''system.cpu.numInsts'', PyInt 1000),
                          (''system.cpu.numCycles'', PyInt 500),
                          (''system.cpu.branchPred.condPredicted'', PyInt 4),
                          (''system.cpu.branchPred.condIncorrect'', PyInt 1)]) 0 = Inr True
            \<and> plain_number (bp_predicted [(''system.cpu.numInsts'', PyInt 1000),
                          (''system.cpu.numCycles'', PyInt 500),
                          (''system.cpu.branchPred.condPredicted'', PyInt 4),
                          (''system.cpu.branchPred.condIncorrect'', PyInt 1)])
            \<and> plain_number (bp_incorrect [(''system.cpu.numInsts'', PyInt 1000),
                          (''system.cpu.numCycles'', PyInt 500),
                          (''system.cpu.branchPred.condPredicted'', PyInt 4),
                          (''system.cpu.branchPred.condIncorrect'', PyInt 1)])"
    unfolding b4 by (simp add: insts_operand_def is_zero_def dict_eval)
  from T4 [THEN conjunct2, THEN conjunct2, THEN conjunct2, THEN conjunct2, THEN conjunct2,
           THEN conjunct1, rule_format, OF h4]
  have a4: "analyze_experiment
       (only_file ''stats.txt''
          ''system.cpu.numInsts 1000\<newline>system.cpu.numCycles 500\<newline>system.cpu.branchPred.condPredicted 4\<newline>system.cpu.branchPred.condIncorrect 1'')
       ''stats.txt''
     = Inr (Some [(''instructions'', PyInt 1000), (''cycles'', PyInt 500),
                  (''ipc'', PyFloat (Finite 2)), (''cpi'', PyFloat (Finite (1 / 2))),
                  (''branch_accuracy'', PyFloat (Finite 75))])"
    unfolding b4 d3 d4 using d5 d6 by (auto simp del: py_truediv.simps)
  from a1 have a1': "analyze_experiment
       (only_file ''stats.txt'' ''system.cpu.numInsts 1000\<newline>system.cpu.numCycles 500'')
       ''stats.txt''
     = Inr (Some [(''instructions'', PyInt 1000), (''cycles'', PyInt 500),
                  (''ipc'', PyFloat (Finite 2)), (''cpi'', PyFloat (Finite (1 / 2)))])"
    by (simp add: round_two round_half)
  from p1 a1' p2 a2 p3 a3 p4 a4 show ?thesis by (intro conjI)
qed

section \<open>Energy and efficiency\<close>

lemma py_mul_floats: "py_mul (PyFloat a) (PyFloat b) = Inr (PyFloat (fmul a b))"
  by (simp add: bind_def)

lemma py_mul_float_int:
  "\<bar>n\<bar> < 2 ^ 53 \<Longrightarrow> py_mul (PyFloat a) (PyInt n) = Inr (PyFloat (fmul a (Finite (of_int n))))"
  by (simp add: bind_def int_to_float_def round_double_int)

lemma py_mul_int_float:
  "\<bar>n\<bar> < 2 ^ 53 \<Longrightarrow> py_mul (PyInt n) (PyFloat a) = Inr (PyFloat (fmul (Finite (of_int n)) a))"
  by (simp add: bind_def int_to_float_def round_double_int)

lemma fmul_zero_left: "fmul (Finite 0) (Finite b) = Finite 0"
  by (simp add: round_double_def)

lemma float_lit_unit:
  assumes "0 \<le> r" "r \<le> 1"
  obtains x where "float_lit r = Finite x" "0 \<le> x" "x \<le> 1"
  using round_double_unit [OF assms] by (auto simp add: float_lit_def)

lemma float_lit_int: "\<bar>n\<bar> < 2 ^ 53 \<Longrightarrow> float_lit (of_int n) = Finite (of_int n)"
  by (simp add: float_lit_def round_double_int)

lemma float_lit_one: "float_lit 1 = Finite 1"
  using float_lit_int [of 1] by simp

lemma round_seven_halves: "round_double (7 / 2) = Finite (7 / 2)"
  by (rule round_double_exact [of _ 7 "- 1"]) (simp_all add: pow2_def)

lemma float_lit_seven_halves: "float_lit (7 / 2) = Finite (7 / 2)"
  by (simp add: float_lit_def round_seven_halves)

lemma round_zero: "round_double 0 = Finite 0"
  by (simp add: round_double_def)

lemma calculate_power_zero_tdp:
  "calculate_power zero_tdp_config (PyFloat (float_lit 1)) = Inr (PyFloat (Finite 0))"
proof -
  obtain r3 where r3: "float_lit (3 / 10) = Finite r3"
    by (rule float_lit_unit [of "3 / 10"]) simp_all
  obtain r7 where r7: "float_lit (7 / 10) = Finite r7"
    by (rule float_lit_unit [of "7 / 10"]) simp_all
  show ?thesis
    by (simp add: calculate_power_def zero_tdp_config_def scalar_cpu_def bind_def
          int_to_float_def r3 r7 float_lit_one round_zero)
qed

lemma calculate_performance_zero_tdp:
  "\<exists>p. calculate_performance zero_tdp_config (PyInt 1000000) = Inr (PyFloat (Finite p))
       \<and> 1 \<le> p"
proof -
  have small: "pow2 (- 1022) \<le> 1 / 1024"
    using pow2_mono [of "- 1022" "- 10"] by (simp add: pow2_def)
  have "pow2 (- 1022) \<le> 85 / 100" using small by linarith
  from round_double_normal [OF this] obtain r85 where
    r85: "float_lit (17 / 20) = Finite r85" and lo85: "(85 / 100) / 2 \<le> r85"
    and hi85: "r85 \<le> 2 * (85 / 100)"
    by (auto simp add: float_lit_def)
  have "pow2 (- 1022) \<le> 3500000000 * r85" using small lo85 by linarith
  moreover have "3500000000 * r85 < 2 ^ 1023"
  proof -
    have "3500000000 * r85 \<le> 2 ^ 40" using hi85 by simp
    moreover have "(2::rat) ^ 40 < 2 ^ 1023" by simp
    ultimately show ?thesis by linarith
  qed
  ultimately obtain s where
    s: "round_double (3500000000 * r85) = Finite s" and los: "(3500000000 * r85) / 2 \<le> s"
    and his: "s \<le> 2 * (3500000000 * r85)"
    using round_double_normal [of "3500000000 * r85"] by auto
  have "pow2 (- 1022) \<le> s" using small los lo85 by linarith
  moreover have "s < 2 ^ 1023"
  proof -
    have "s \<le> 2 ^ 40" using his hi85 by simp
    moreover have "(2::rat) ^ 40 < 2 ^ 1023" by simp
    ultimately show ?thesis by linarith
  qed
  ultimately obtain p where
    p: "round_double s = Finite p" and lop: "s / 2 \<le> p"
    using round_double_normal [of s] by auto
  have p1: "1 \<le> p" using lop los lo85 by linarith
  have e9: "float_lit (pow10 9) = Finite 1000000000"
    using float_lit_int [of 1000000000] by (simp add: pow10_def)
  have e6: "float_lit (pow10 6) = Finite 1000000"
    using float_lit_int [of 1000000] by (simp add: pow10_def)
  have i1: "int_to_float 1 = Inr (Finite 1)"
    using round_double_int [of 1] by (simp add: int_to_float_def)
  have i8: "int_to_float 8 = Inr (Finite 8)"
    using round_double_int [of 8] by (simp add: int_to_float_def)
  have im: "int_to_float 1000000 = Inr (Finite 1000000)"
    using round_double_int [of 1000000] by (simp add: int_to_float_def)
  note a1 = round_seven_halves
  have a2: "round_double 3500000000 = Finite 3500000000"
    using round_double_int [of 3500000000] by simp
  have a3: "round_double 1 = Finite 1" using round_double_int [of 1] by simp
  have a4: "round_double 8 = Finite 8" using round_double_int [of 8] by simp
  have "calculate_performance zero_tdp_config (PyInt 1000000) = Inr (PyFloat (Finite p))"
    by (simp add: calculate_performance_def zero_tdp_config_def scalar_cpu_def bind_def
          py_min_def float_lit_seven_halves float_lit_one e9 e6 r85 i1 i8 im a1 a2 a3 a4 s p)
  with p1 show ?thesis by blast
qed

lemma calculate_energy_zero_tdp:
  "calculate_energy zero_tdp_config (PyInt 1000000) = Inr (PyFloat (Finite 0))"
proof -
  from calculate_performance_zero_tdp obtain p where
    perf: "calculate_performance zero_tdp_config (PyInt 1000000) = Inr (PyFloat (Finite p))"
    and p1: "1 \<le> p"
    by blast
  have im: "int_to_float 1000000 = Inr (Finite 1000000)"
    using round_double_int [of 1000000] by (simp add: int_to_float_def)
  have "\<bar>1000000 / p\<bar> \<le> 1000000" using p1 by (simp add: field_simps)
  moreover have "(1000000::rat) < 2 ^ 1023" by simp
  ultimately have "\<bar>1000000 / p\<bar> < 2 ^ 1023" by linarith
  from round_double_finite [OF this] obtain t where t: "round_double (1000000 / p) = Finite t"
    by blast
  have pn: "p \<noteq> 0" using p1 by auto
  have time: "py_truediv (PyInt 1000000) (PyFloat (Finite p)) = Inr (PyFloat (Finite t))"
    by (simp add: bind_def im pn t)
  show ?thesis
    by (simp add: calculate_energy_def perf bind_def time calculate_power_zero_tdp
          round_zero del: py_truediv.simps)
qed
lemma fless_zero_ne: "fless (Finite 0) n \<Longrightarrow> n \<noteq> Finite 0"
  by auto

lemma float_lit_pow10_12: "float_lit (pow10 12) = Finite (10 ^ 12)"
  using float_lit_int [of "10 ^ 12"] by (simp add: pow10_def)

lemma calculate_power_metrics_result:
  assumes "dict_get metrics ''sim_seconds'' = Some (PyFloat s)"
      and "dict_get metrics ''sim_insts'' = Some (PyFloat n)"
  shows "\<exists>P r. calculate_power_metrics pw metrics op_name = Inr r
           \<and> dict_get r ''total_power_mW'' = Some (PyFloat (fmul P (Finite 1000)))
           \<and> dict_get r ''total_energy_mJ'' = Some (PyFloat (fmul (fmul P s) (Finite 1000)))
           \<and> dict_get r ''energy_per_inst_pJ''
               = Some (PyFloat (if fless (Finite 0) n
                                then fmul (fdiv (fmul P s) n) (Finite (10 ^ 12))
                                else Finite 0))"
proof -
  obtain freq voltage where fv:
    "(case map_of op_params op_name of
        None \<Rightarrow> (float_lit 200000000, float_lit (75 / 100))
      | Some fv \<Rightarrow> fv) = (freq, voltage)"
    by (cases "case map_of op_params op_name of
                 None \<Rightarrow> (float_lit 200000000, float_lit (75 / 100))
               | Some fv \<Rightarrow> fv")
  define dyn where
    "dyn = fmul (fmul (fmul (float_lit (50 * pow10 (- 12))) (pw voltage (Finite 2))) freq)
             (float_lit (5 / 10))"
  define sta where "sta = fmul (float_lit (3 / 1000)) (pw voltage (float_lit (15 / 10)))"
  define P where "P = fadd dyn sta"
  have ix: "dict_index metrics ''sim_seconds'' = Inr (PyFloat s)"
           "dict_index metrics ''sim_insts'' = Inr (PyFloat n)"
    using assms by (simp_all add: dict_index_def dict_get_def)
  have m1000: "py_mul (PyFloat x) (PyInt 1000) = Inr (PyFloat (fmul x (Finite 1000)))" for x
    using py_mul_float_int [of 1000 x] by simp
  have m0: "py_mul (PyInt 0) (PyFloat (Finite 1000000000000)) = Inr (PyFloat (Finite 0))"
    using py_mul_int_float [of 0 "Finite 1000000000000"] by (simp add: round_zero)
  have dv: "fless (Finite 0) n \<Longrightarrow>
              py_truediv (PyFloat e) (PyFloat n) = Inr (PyFloat (fdiv e n))" for e
    by (auto simp add: bind_def dest: fless_zero_ne)
  show ?thesis
  proof (cases "fless (Finite 0) n")
    case True
    have "calculate_power_metrics pw metrics op_name =
        Inr [(''frequency_MHz'', PyFloat (fdiv freq (float_lit 1000000))),
             (''voltage_V'', PyFloat voltage),
             (''dynamic_power_mW'', PyFloat (fmul dyn (Finite 1000))),
             (''static_power_mW'', PyFloat (fmul sta (Finite 1000))),
             (''total_power_mW'', PyFloat (fmul P (Finite 1000))),
             (''total_energy_mJ'', PyFloat (fmul (fmul P s) (Finite 1000))),
             (''energy_per_inst_pJ'',
                PyFloat (fmul (fdiv (fmul P s) n) (Finite (10 ^ 12))))]"
      unfolding calculate_power_metrics_def fv
      using True
      by (simp add: Let_def ix bind_def py_mul_floats m1000 dv float_lit_pow10_12
            dyn_def sta_def P_def del: py_mul.simps py_truediv.simps)
    with True show ?thesis by (simp add: dict_get_def) blast
  next
    case False
    have "calculate_power_metrics pw metrics op_name =
        Inr [(''frequency_MHz'', PyFloat (fdiv freq (float_lit 1000000))),
             (''voltage_V'', PyFloat voltage),
             (''dynamic_power_mW'', PyFloat (fmul dyn (Finite 1000))),
             (''static_power_mW'', PyFloat (fmul sta (Finite 1000))),
             (''total_power_mW'', PyFloat (fmul P (Finite 1000))),
             (''total_energy_mJ'', PyFloat (fmul (fmul P s) (Finite 1000))),
             (''energy_per_inst_pJ'', PyFloat (Finite 0))]"
      unfolding calculate_power_metrics_def fv
      using False
      by (simp add: Let_def ix bind_def py_mul_floats m1000 m0 float_lit_pow10_12
            dyn_def sta_def P_def del: py_mul.simps py_truediv.simps)
    with False show ?thesis by (simp add: dict_get_def) blast
  qed
qed

lemma py_truediv_zero:
  assumes "is_zero e" "to_float w = Inr x"
  shows "py_truediv w e = Inl ZeroDivisionError"
  using assms
  by (cases w) (auto simp add: is_zero_def bind_def int_to_float_def round_zero)

text \<open>
  C6, as stated, fails for \<open>calculate_energy_efficiency\<close>, which divides the workload
  by the energy without any test. For the configuration \<open>Scalar CPU\<close> with a thermal
  design power of zero the power and so the energy are \<open>0.0\<close>, and the division raises
  \<open>ZeroDivisionError\<close>; for the configuration \<open>Scalar CPU\<close> itself and a workload of
  zero operations, the division by \<open>workload_size / 1e6\<close> in \<open>calculate_performance\<close>
  raises it before any energy is known.
\<close>

theorem energy_efficiency_zero_energy:
  "calculate_energy zero_tdp_config (PyInt 1000000) = Inr (PyFloat (Finite 0))
   \<and> calculate_energy_efficiency zero_tdp_config (PyInt 1000000) = Inl ZeroDivisionError
   \<and> calculate_energy_efficiency scalar_cpu (PyInt 0) = Inl ZeroDivisionError"
proof -
  have im: "int_to_float 1000000 = Inr (Finite 1000000)"
    using round_double_int [of 1000000] by (simp add: int_to_float_def)
  have a: "calculate_energy_efficiency zero_tdp_config (PyInt 1000000)
             = Inl ZeroDivisionError"
    by (simp add: calculate_energy_efficiency_def calculate_energy_zero_tdp bind_def im)
  have e6: "float_lit (pow10 6) = Finite 1000000"
    using float_lit_int [of 1000000] by (simp add: pow10_def)
  have i0: "int_to_float 0 = Inr (Finite 0)" by (simp add: int_to_float_def round_zero)
  have i1: "int_to_float 1 = Inr (Finite 1)"
    using round_double_int [of 1] by (simp add: int_to_float_def)
  have i8: "int_to_float 8 = Inr (Finite 8)"
    using round_double_int [of 8] by (simp add: int_to_float_def)
  have "calculate_performance scalar_cpu (PyInt 0) = Inl ZeroDivisionError"
    by (simp add: calculate_performance_def scalar_cpu_def bind_def e6 i0 i1 i8 round_zero)
  then have b: "calculate_energy_efficiency scalar_cpu (PyInt 0) = Inl ZeroDivisionError"
    by (simp add: calculate_energy_efficiency_def calculate_energy_def bind_def)
  from a b calculate_energy_zero_tdp show ?thesis by simp
qed

text \<open>
  C6, amended: \<open>calculate_power_metrics\<close> computes the energy as total power times the
  simulated seconds and never raises on a parsed report; its energy per instruction is
  the energy divided by the instruction count when the count is greater than zero and
  the sentinel \<open>0\<close> otherwise, in particular for a count of zero.
  \<open>calculate_energy\<close> is power times time and \<open>calculate_energy_efficiency\<close> is the
  workload divided by that energy, both without any test: an energy of zero raises
  \<open>ZeroDivisionError\<close>.
\<close>

theorem energy_derivations:
  "(\<forall>s n. dict_get metrics ''sim_seconds'' = Some (PyFloat s)
          \<and> dict_get metrics ''sim_insts'' = Some (PyFloat n)
      \<longrightarrow> (\<exists>P r. calculate_power_metrics pw metrics op_name = Inr r
             \<and> dict_get r ''total_power_mW'' = Some (PyFloat (fmul P (Finite 1000)))
             \<and> dict_get r ''total_energy_mJ''
                 = Some (PyFloat (fmul (fmul P s) (Finite 1000)))
             \<and> dict_get r ''energy_per_inst_pJ''
                 = Some (PyFloat (if fless (Finite 0) n
                                  then fmul (fdiv (fmul P s) n) (Finite (10 ^ 12))
                                  else Finite 0))))
   \<and> (\<forall>perf t p. calculate_performance config w = Inr perf
          \<and> py_truediv w perf = Inr t
          \<and> calculate_power config (PyFloat (float_lit 1)) = Inr p
      \<longrightarrow> calculate_energy config w = py_mul p t)
   \<and> (\<forall>energy. calculate_energy config w = Inr energy
      \<longrightarrow> calculate_energy_efficiency config w = py_truediv w energy)
   \<and> (\<forall>energy x. calculate_energy config w = Inr energy \<and> is_zero energy
          \<and> to_float w = Inr x
      \<longrightarrow> calculate_energy_efficiency config w = Inl ZeroDivisionError)"
proof (intro conjI allI impI)
  fix s n
  assume "dict_get metrics ''sim_seconds'' = Some (PyFloat s)
          \<and> dict_get metrics ''sim_insts'' = Some (PyFloat n)"
  then show "\<exists>P r. calculate_power_metrics pw metrics op_name = Inr r
             \<and> dict_get r ''total_power_mW'' = Some (PyFloat (fmul P (Finite 1000)))
             \<and> dict_get r ''total_energy_mJ''
                 = Some (PyFloat (fmul (fmul P s) (Finite 1000)))
             \<and> dict_get r ''energy_per_inst_pJ''
                 = Some (PyFloat (if fless (Finite 0) n
                                  then fmul (fdiv (fmul P s) n) (Finite (10 ^ 12))
                                  else Finite 0))"
    using calculate_power_metrics_result [of metrics s n pw op_name] by blast
next
  fix perf t p
  assume "calculate_performance config w = Inr perf
          \<and> py_truediv w perf = Inr t
          \<and> calculate_power config (PyFloat (float_lit 1)) = Inr p"
  then show "calculate_energy config w = py_mul p t"
    by (simp add: calculate_energy_def bind_def)
next
  fix energy
  assume "calculate_energy config w = Inr energy"
  then show "calculate_energy_efficiency config w = py_truediv w energy"
    by (simp add: calculate_energy_efficiency_def bind_def)
next
  fix energy x
  assume h: "calculate_energy config w = Inr energy \<and> is_zero energy \<and> to_float w = Inr x"
  then have "py_truediv w energy = Inl ZeroDivisionError"
    by (intro py_truediv_zero [of energy w x]) simp_all
  with h show "calculate_energy_efficiency config w = Inl ZeroDivisionError"
    by (simp add: calculate_energy_efficiency_def bind_def)
qed
text \<open>
  C6, witness: a parsed report with half a second and zero instructions gives the
  sentinel \<open>0\<close> as energy per instruction; the configuration with a thermal design
  power of zero has the energy \<open>0.0\<close>, and its efficiency raises.
\<close>

theorem energy_derivations_witness:
  "dict_get [(''sim_seconds'', PyFloat (Finite (1 / 2))), (''sim_insts'', PyFloat (Finite 0))]
     ''sim_seconds'' = Some (PyFloat (Finite (1 / 2)))
   \<and> dict_get [(''sim_seconds'', PyFloat (Finite (1 / 2))), (''sim_insts'', PyFloat (Finite 0))]
       ''sim_insts'' = Some (PyFloat (Finite 0))
   \<and> (\<exists>r. calculate_power_metrics sample_pow
              [(''sim_seconds'', PyFloat (Finite (1 / 2))),
               (''sim_insts'', PyFloat (Finite 0))] ''balanced'' = Inr r
          \<and> dict_get r ''energy_per_inst_pJ'' = Some (PyFloat (Finite 0)))
   \<and> calculate_energy zero_tdp_config (PyInt 1000000) = Inr (PyFloat (Finite 0))
   \<and> is_zero (PyFloat (Finite 0))
   \<and> to_float (PyInt 1000000) = Inr (Finite 1000000)
   \<and> calculate_energy_efficiency zero_tdp_config (PyInt 1000000) = Inl ZeroDivisionError"
proof -
  note T = energy_derivations
    [of "[(''sim_seconds'', PyFloat (Finite (1 / 2))), (''sim_insts'', PyFloat (Finite 0))]"
        sample_pow "''balanced''" zero_tdp_config "PyInt 1000000"]
  have g1: "dict_get [(''sim_seconds'', PyFloat (Finite (1 / 2))),
                      (''sim_insts'', PyFloat (Finite 0))]
              ''sim_seconds'' = Some (PyFloat (Finite (1 / 2)))"
    by (simp add: dict_get_def)
  have g2: "dict_get [(''sim_seconds'', PyFloat (Finite (1 / 2))),
                      (''sim_insts'', PyFloat (Finite 0))]
              ''sim_insts'' = Some (PyFloat (Finite 0))"
    by (simp add: dict_get_def)
  from T [THEN conjunct1, rule_format, of "Finite (1 / 2)" "Finite 0"] g1 g2
  have p1: "\<exists>r. calculate_power_metrics sample_pow
              [(''sim_seconds'', PyFloat (Finite (1 / 2))),
               (''sim_insts'', PyFloat (Finite 0))] ''balanced'' = Inr r
          \<and> dict_get r ''energy_per_inst_pJ'' = Some (PyFloat (Finite 0))"
    by auto
  have z: "is_zero (PyFloat (Finite 0))" by (simp add: is_zero_def)
  have tf: "to_float (PyInt 1000000) = Inr (Finite 1000000)"
    using round_double_int [of 1000000] by (simp add: int_to_float_def)
  have "calculate_energy_efficiency zero_tdp_config (PyInt 1000000) = Inl ZeroDivisionError"
    by (rule T [THEN conjunct2, THEN conjunct2, THEN conjunct2, rule_format,
                of "PyFloat (Finite 0)" "Finite 1000000"])
       (simp add: calculate_energy_zero_tdp z tf del: to_float.simps)
  with g1 g2 p1 z tf calculate_energy_zero_tdp show ?thesis by blast
qed

section \<open>Bounds of the derived quantities\<close>

lemma pow10_nonneg: "0 \<le> pow10 e"
  by (simp add: pow10_def)

lemma parse_decimal_nonneg: "parse_decimal b = Some r \<Longrightarrow> 0 \<le> r"
  by (auto simp add: parse_decimal_def Let_def pow10_nonneg
        split: prod.splits option.splits if_splits)

lemma fle_zero_round: "0 \<le> r \<Longrightarrow> fle (Finite 0) (round_double r)"
  using round_double_nonneg [of r] by (auto simp add: fle_def)

lemma class_char:
  assumes "in_class cls c"
  shows "is_digit c \<or> c = CHR ''.''"
  using assms by (cases cls) auto

lemma class_char_facts:
  assumes "is_digit c \<or> c = CHR ''.''"
  shows "\<not> is_space c" "c \<noteq> CHR ''-''" "c \<noteq> CHR ''+''" "lower c = c"
        "c \<noteq> CHR ''i''" "c \<noteq> CHR ''n''"
  using assms by (auto simp add: is_digit_def is_space_def lower_def Let_def)

lemma py_float_digits_dots:
  assumes "\<forall>c \<in> set g. is_digit c \<or> c = CHR ''.''" "g \<noteq> []" "py_float g = Inr x"
  shows "fle (Finite 0) x"
proof -
  have st: "py_strip g = g"
    using assms(1) class_char_facts(1) by (intro py_strip_no_space) blast
  obtain c r where g: "g = c # r" using assms(2) by (cases g) auto
  have c: "is_digit c \<or> c = CHR ''.''" using assms(1) g by simp
  have sg: "split_sign g = (False, g)"
    using class_char_facts(2,3) [OF c] by (simp add: g)
  have lw: "map lower g = g"
    using assms(1) class_char_facts(4) by (intro map_idI) blast
  have ni: "g \<noteq> ''inf''" "g \<noteq> ''infinity''" "g \<noteq> ''nan''"
    using class_char_facts(5,6) [OF c] by (auto simp add: g)
  from assms(3) obtain q where q: "parse_decimal g = Some q" and x: "x = round_double q"
    by (auto simp add: py_float_def st sg lw ni split: option.splits)
  from parse_decimal_nonneg [OF q] show ?thesis unfolding x by (rule fle_zero_round)
qed

lemma match_here_class:
  assumes "match_here lit cls s = Some g"
  shows "g \<noteq> [] \<and> (\<forall>c \<in> set g. is_digit c \<or> c = CHR ''.'')"
proof -
  from assms have g: "g = takeWhile (in_class cls) (dropWhile is_space (drop (length lit) s))"
    and ne: "g \<noteq> []"
    by (auto simp add: match_here_def Let_def split: if_splits)
  have "\<forall>c \<in> set g. in_class cls c" unfolding g by (auto dest: set_takeWhileD)
  with ne show ?thesis by (auto dest: class_char)
qed

lemma re_search_class:
  "re_search lit cls s = Some g \<Longrightarrow> g \<noteq> [] \<and> (\<forall>c \<in> set g. is_digit c \<or> c = CHR ''.'')"
proof (induction s)
  case Nil
  then show ?case using match_here_class [of lit cls "[]" g] by simp
next
  case (Cons a s)
  then show ?case
    using match_here_class [of lit cls "a # s" g] by (auto split: option.splits)
qed

lemma extract_patterns_nonneg:
  assumes "extract_patterns c patterns [] = Inr m" "(key, lit, cls) \<in> set patterns"
  shows "\<exists>x. dict_get m key = Some (PyFloat x) \<and> fle (Finite 0) x"
proof -
  from extract_patterns_value [OF assms(1) distinct_patterns assms(2)]
  consider "dict_get m key = Some (PyFloat (Finite 0))"
    | g x where "re_search lit cls c = Some g" "py_float g = Inr x"
                "dict_get m key = Some (PyFloat x)"
    by blast
  then show ?thesis
  proof cases
    case 1
    then show ?thesis by (simp add: fle_def)
  next
    case 2
    from re_search_class [OF 2(1)] py_float_digits_dots [of g x] 2(2)
    have "fle (Finite 0) x" by blast
    with 2(3) show ?thesis by blast
  qed
qed

text \<open>One minus a miss rate that is not negative.\<close>

lemma hit_rate_bounds:
  assumes "fle (Finite 0) a"
  shows "fle (fsub (Finite 1) a) (Finite 1)"
    and "fle a (Finite 1) \<Longrightarrow> fle (Finite 0) (fsub (Finite 1) a)"
proof -
  show "fle (fsub (Finite 1) a) (Finite 1)"
  proof (cases a)
    case (Finite r)
    with assms have r0: "0 \<le> r" by (auto simp add: fle_def)
    show ?thesis
    proof (cases "r \<le> 1")
      case True
      with r0 round_double_unit [of "1 - r"] show ?thesis
        by (auto simp add: Finite fsub_def fle_def)
    next
      case False
      then have "0 \<le> r - 1" by simp
      from round_double_nonneg [OF this] have
        "round_double (r - 1) = PosInf \<or> (\<exists>y. round_double (r - 1) = Finite y \<and> 0 \<le> y)" .
      moreover have "round_double (1 - r) = fneg (round_double (r - 1))"
        using round_double_neg [of "r - 1"] by simp
      ultimately show ?thesis
        by (auto simp add: Finite fsub_def fle_def)
    qed
  next
    case PosInf
    then show ?thesis by (simp add: fsub_def fle_def)
  next
    case NegInf
    with assms show ?thesis by (simp add: fle_def)
  next
    case NaN
    with assms show ?thesis by (simp add: fle_def)
  qed
  show "fle (Finite 0) (fsub (Finite 1) a)" if "fle a (Finite 1)"
  proof (cases a)
    case (Finite r)
    with assms that have "0 \<le> r" "r \<le> 1" by (auto simp add: fle_def)
    with round_double_unit [of "1 - r"] show ?thesis
      by (auto simp add: Finite fsub_def fle_def)
  next
    case PosInf
    with that show ?thesis by (simp add: fle_def)
  next
    case NegInf
    with assms show ?thesis by (simp add: fle_def)
  next
    case NaN
    with assms show ?thesis by (simp add: fle_def)
  qed
qed

text \<open>Rounding a value that is zero or greater at most doubles it, up to one.\<close>

lemma round_double_upper:
  assumes "0 \<le> x" "x < 2 ^ 1022"
  shows "\<exists>r. round_double x = Finite r \<and> 0 \<le> r \<and> r \<le> 2 * x + 1"
proof (cases "x = 0")
  case True
  then show ?thesis by (simp add: round_double_def)
next
  case False
  with assms have xp: "0 < x" by simp
  define q where "q = max (ilog2 x) (- 1022) - 52"
  define y where "y = of_int (round_half_even (x / pow2 q)) * pow2 q"
  have pq: "pow2 q \<le> x + 1"
  proof (cases "- 1022 \<le> ilog2 x")
    case True
    then have "q \<le> ilog2 x" by (simp add: q_def)
    then have "pow2 q \<le> pow2 (ilog2 x)" by (rule pow2_mono)
    also have "\<dots> \<le> x" using xp by (rule ilog2_lower)
    finally show ?thesis by simp
  next
    case False
    then have "q \<le> 0" by (simp add: q_def)
    then have "pow2 q \<le> pow2 0" by (rule pow2_mono)
    then have "pow2 q \<le> 1" by (simp add: pow2_def)
    with xp show ?thesis by linarith
  qed
  from round_double_close(2) [OF xp q_def y_def] pq have up: "y \<le> 2 * x + 1" by linarith
  have "(2::rat) * 2 ^ 1022 + 1 \<le> 2 ^ 1024" by simp
  with up assms(2) have small: "\<not> 2 ^ 1024 \<le> y" by linarith
  have "0 \<le> x / pow2 q" using xp pow2_pos [of q] by simp
  then have "0 \<le> round_half_even (x / pow2 q)" by (rule round_half_even_nonneg)
  then have y0: "0 \<le> y" unfolding y_def using pow2_pos [of q] by simp
  have "round_double x = Finite y"
    unfolding round_double_pos_unfold [OF xp]
    using small by (simp add: Let_def flip: q_def y_def)
  with y0 up show ?thesis by blast
qed

lemma fmul_bounded:
  assumes "0 \<le> x" "x \<le> X" "0 \<le> y" "y \<le> Y" "X * Y < 2 ^ 1022"
  shows "\<exists>r. fmul (Finite x) (Finite y) = Finite r \<and> 0 \<le> r \<and> r \<le> 2 * (X * Y) + 1"
proof -
  have p0: "0 \<le> x * y" using assms(1,3) by simp
  have le: "x * y \<le> X * Y" using assms(1-4) by (intro mult_mono) auto
  with assms(5) have "x * y < 2 ^ 1022" by linarith
  from round_double_upper [OF p0 this] obtain r
    where "round_double (x * y) = Finite r" "0 \<le> r" "r \<le> 2 * (x * y) + 1" by blast
  with le show ?thesis by (intro exI [of _ r]) auto
qed

lemma fmul_unit:
  assumes "0 \<le> x" "x \<le> 1" "0 \<le> y" "y \<le> 1"
  shows "\<exists>r. fmul (Finite x) (Finite y) = Finite r \<and> 0 \<le> r \<and> r \<le> 1"
proof -
  have "0 \<le> x * y" using assms(1,3) by simp
  moreover have "x * y \<le> 1 * 1" using assms by (intro mult_mono) auto
  ultimately show ?thesis using round_double_unit [of "x * y"] by simp
qed

text \<open>Zero or greater is kept by a finite factor or divisor above zero.\<close>

lemma fle_zero_fmul_pos:
  assumes "fle (Finite 0) x" "0 < b"
  shows "fle (Finite 0) (fmul x (Finite b))"
proof (cases x)
  case (Finite a)
  with assms have "0 \<le> a * b" by (auto simp add: fle_def)
  then show ?thesis unfolding Finite fmul.simps by (rule fle_zero_round)
next
  case PosInf
  with assms(2) show ?thesis by (simp add: fle_def fsign_inf_def)
next
  case NegInf
  with assms(1) show ?thesis by (simp add: fle_def)
next
  case NaN
  with assms(1) show ?thesis by (simp add: fle_def)
qed

lemma fle_zero_fdiv_pos:
  assumes "fle (Finite 0) x" "0 < b"
  shows "fle (Finite 0) (fdiv x (Finite b))"
proof (cases x)
  case (Finite a)
  with assms have "0 \<le> a / b" by (auto simp add: fle_def)
  then show ?thesis unfolding Finite fdiv.simps by (rule fle_zero_round)
next
  case PosInf
  with assms(2) show ?thesis by (simp add: fle_def fsign_inf_def)
next
  case NegInf
  with assms(1) show ?thesis by (simp add: fle_def)
next
  case NaN
  with assms(1) show ?thesis by (simp add: fle_def)
qed

lemma fle_zero_Finite: "fle (Finite 0) (Finite r) \<longleftrightarrow> 0 \<le> r"
  by (auto simp add: fle_def)

text \<open>Every operating point has a frequency of at most 500 MHz and a voltage of at most 1.\<close>

lemma operating_point_values:
  "\<exists>fr v. operating_point op_name = (Finite fr, Finite v)
     \<and> 0 \<le> fr \<and> fr \<le> 500000000 \<and> 0 \<le> v \<and> v \<le> 1"
proof -
  have f: "float_lit 100000000 = Finite 100000000" "float_lit 200000000 = Finite 200000000"
          "float_lit 350000000 = Finite 350000000" "float_lit 500000000 = Finite 500000000"
    using float_lit_int [of 100000000] float_lit_int [of 200000000]
          float_lit_int [of 350000000] float_lit_int [of 500000000]
    by simp_all
  have v: "\<exists>x. float_lit r = Finite x \<and> 0 \<le> x \<and> x \<le> 1" if "0 \<le> r" "r \<le> 1" for r
    using float_lit_unit [OF that] by metis
  have v1: "\<exists>x. float_lit (6 / 10) = Finite x \<and> 0 \<le> x \<and> x \<le> 1" by (rule v) simp_all
  have v2: "\<exists>x. float_lit (75 / 100) = Finite x \<and> 0 \<le> x \<and> x \<le> 1" by (rule v) simp_all
  have v3: "\<exists>x. float_lit (9 / 10) = Finite x \<and> 0 \<le> x \<and> x \<le> 1" by (rule v) simp_all
  have v4: "\<exists>x. float_lit 1 = Finite x \<and> 0 \<le> x \<and> x \<le> 1" by (rule v) simp_all
  show ?thesis
  proof (cases "map_of op_params op_name")
    case None
    with v2 show ?thesis by (auto simp add: operating_point_def f)
  next
    case (Some fv)
    then have "(op_name, fv) \<in> set op_params" by (rule map_of_SomeD)
    then have "fv = (float_lit 100000000, float_lit (6 / 10))
             \<or> fv = (float_lit 200000000, float_lit (75 / 100))
             \<or> fv = (float_lit 350000000, float_lit (9 / 10))
             \<or> fv = (float_lit 500000000, float_lit 1)"
      by (auto simp add: op_params_def)
    then show ?thesis
      using v1 v2 v3 v4 Some by (auto simp add: operating_point_def f)
  qed
qed

lemma dynamic_power_finite:
  assumes "pw volt (Finite 2) = Finite a" "0 \<le> a" "a \<le> 1" "0 \<le> fr" "fr \<le> 500000000"
  shows "\<exists>d. dynamic_power pw (Finite fr) volt = Finite d \<and> 0 \<le> d \<and> d \<le> 2000000003"
proof -
  obtain c0 where c0: "float_lit (50 * pow10 (- 12)) = Finite c0" "0 \<le> c0" "c0 \<le> 1"
    by (rule float_lit_unit [of "50 * pow10 (- 12)"]) (simp_all add: pow10_def)
  obtain a0 where a0: "float_lit (5 / 10) = Finite a0" "0 \<le> a0" "a0 \<le> 1"
    by (rule float_lit_unit [of "5 / 10"]) simp_all
  from fmul_unit [OF c0(2,3) assms(2,3)] obtain c1
    where c1: "fmul (Finite c0) (Finite a) = Finite c1" "0 \<le> c1" "c1 \<le> 1" by blast
  from fmul_bounded [OF c1(2,3) assms(4,5)] obtain c2
    where c2: "fmul (Finite c1) (Finite fr) = Finite c2" "0 \<le> c2" "c2 \<le> 1000000001"
    by auto
  from fmul_bounded [OF c2(2,3) a0(2,3)] obtain c3
    where c3: "fmul (Finite c2) (Finite a0) = Finite c3" "0 \<le> c3" "c3 \<le> 2000000003"
    by auto
  have "dynamic_power pw (Finite fr) volt = Finite c3"
    unfolding dynamic_power_def c0(1) a0(1) assms(1) c1(1) c2(1) c3(1) ..
  with c3 show ?thesis by blast
qed

lemma static_power_finite:
  assumes "pw volt (float_lit (15 / 10)) = Finite b" "0 \<le> b" "b \<le> 1"
  shows "\<exists>s. static_power pw volt = Finite s \<and> 0 \<le> s \<and> s \<le> 1"
proof -
  obtain s0 where s0: "float_lit (3 / 1000) = Finite s0" "0 \<le> s0" "s0 \<le> 1"
    by (rule float_lit_unit [of "3 / 1000"]) simp_all
  from fmul_unit [OF s0(2,3) assms(2,3)] obtain s1
    where s1: "fmul (Finite s0) (Finite b) = Finite s1" "0 \<le> s1" "s1 \<le> 1" by blast
  have "static_power pw volt = Finite s1"
    unfolding static_power_def s0(1) assms(1) s1(1) ..
  with s1 show ?thesis by blast
qed

lemma total_power_finite:
  assumes "0 \<le> d" "d \<le> 2000000003" "0 \<le> s" "s \<le> 1"
  shows "\<exists>P. fadd (Finite d) (Finite s) = Finite P \<and> 0 \<le> P"
proof -
  have "0 \<le> d + s" using assms by simp
  moreover have "d + s < 2 ^ 1022"
  proof -
    have "d + s \<le> 2000000004" using assms by simp
    moreover have "(2000000004::rat) < 2 ^ 1022" by simp
    ultimately show ?thesis by linarith
  qed
  ultimately obtain P where "round_double (d + s) = Finite P" "0 \<le> P"
    using round_double_upper [of "d + s"] by blast
  then show ?thesis by simp
qed

text \<open>The result of \<open>calculate_power_metrics\<close> for a report with two \<open>float\<close> entries.\<close>

lemma calculate_power_metrics_explicit:
  assumes "dict_get metrics ''sim_seconds'' = Some (PyFloat s)"
      and "dict_get metrics ''sim_insts'' = Some (PyFloat n)"
      and "operating_point op_name = (freq, volt)"
  shows "calculate_power_metrics pw metrics op_name =
      Inr [(''frequency_MHz'', PyFloat (fdiv freq (float_lit 1000000))),
           (''voltage_V'', PyFloat volt),
           (''dynamic_power_mW'', PyFloat (fmul (dynamic_power pw freq volt) (Finite 1000))),
           (''static_power_mW'', PyFloat (fmul (static_power pw volt) (Finite 1000))),
           (''total_power_mW'',
              PyFloat (fmul (fadd (dynamic_power pw freq volt) (static_power pw volt))
                         (Finite 1000))),
           (''total_energy_mJ'',
              PyFloat (fmul (fmul (fadd (dynamic_power pw freq volt)
                                     (static_power pw volt)) s) (Finite 1000))),
           (''energy_per_inst_pJ'',
              PyFloat (if fless (Finite 0) n
                       then fmul (fdiv (fmul (fadd (dynamic_power pw freq volt)
                                                (static_power pw volt)) s) n)
                              (Finite (10 ^ 12))
                       else Finite 0))]"
proof -
  have ix: "dict_index metrics ''sim_seconds'' = Inr (PyFloat s)"
           "dict_index metrics ''sim_insts'' = Inr (PyFloat n)"
    using assms by (simp_all add: dict_index_def dict_get_def)
  have m1000: "py_mul (PyFloat x) (PyInt 1000) = Inr (PyFloat (fmul x (Finite 1000)))" for x
    using py_mul_float_int [of 1000 x] by simp
  have m0: "py_mul (PyInt 0) (PyFloat (Finite 1000000000000)) = Inr (PyFloat (Finite 0))"
    using py_mul_int_float [of 0 "Finite 1000000000000"] by (simp add: round_zero)
  have dv: "fless (Finite 0) n \<Longrightarrow>
              py_truediv (PyFloat e) (PyFloat n) = Inr (PyFloat (fdiv e n))" for e
    by (auto simp add: bind_def dest: fless_zero_ne)
  show ?thesis
    unfolding calculate_power_metrics_def assms(3) [unfolded operating_point_def]
    by (cases "fless (Finite 0) n")
       (simp_all add: Let_def ix bind_def py_mul_floats m1000 m0 dv float_lit_pow10_12
          dynamic_power_def static_power_def del: py_mul.simps py_truediv.simps)
qed

lemma calculate_power_metrics_non_negative:
  assumes "pw (snd (operating_point op_name)) (Finite 2) = Finite a" "0 \<le> a" "a \<le> 1"
      and "pw (snd (operating_point op_name)) (float_lit (15 / 10)) = Finite b"
          "0 \<le> b" "b \<le> 1"
      and "dict_get metrics ''sim_seconds'' = Some (PyFloat (Finite s))" "0 \<le> s"
      and "dict_get metrics ''sim_insts'' = Some (PyFloat (Finite n))"
  shows "\<exists>r. calculate_power_metrics pw metrics op_name = Inr r
           \<and> (\<forall>kv \<in> set r. value_non_negative (snd kv))"
proof -
  from operating_point_values [of op_name] obtain fr v
    where op: "operating_point op_name = (Finite fr, Finite v)"
      and fr: "0 \<le> fr" "fr \<le> 500000000" and v: "0 \<le> v" "v \<le> 1"
    by blast
  from assms(1,4) op have pa: "pw (Finite v) (Finite 2) = Finite a"
    and pb: "pw (Finite v) (float_lit (15 / 10)) = Finite b" by simp_all
  from dynamic_power_finite [of pw "Finite v" a fr, OF pa assms(2,3) fr] obtain d
    where d: "dynamic_power pw (Finite fr) (Finite v) = Finite d" "0 \<le> d" "d \<le> 2000000003"
    by blast
  from static_power_finite [of pw "Finite v" b, OF pb assms(5,6)] obtain st
    where st: "static_power pw (Finite v) = Finite st" "0 \<le> st" "st \<le> 1" by blast
  from total_power_finite [OF d(2,3) st(2,3)] obtain P
    where P: "fadd (Finite d) (Finite st) = Finite P" "0 \<le> P" by blast
  have mhz: "fle (Finite 0) (fdiv (Finite fr) (float_lit 1000000))"
    using float_lit_int [of 1000000] fr(1) by (simp add: fle_zero_round)
  have k: "(0::rat) < 1000" "(0::rat) < 10 ^ 12" by simp_all
  have E: "fle (Finite 0) (fmul (Finite P) (Finite s))"
    using P(2) assms(8) by (simp add: fle_zero_round)
  have per: "fle (Finite 0)
               (if fless (Finite 0) (Finite n)
                then fmul (fdiv (fmul (Finite P) (Finite s)) (Finite n)) (Finite (10 ^ 12))
                else Finite 0)"
  proof (cases "0 < n")
    case True
    from fle_zero_fdiv_pos [OF E True]
    have "fle (Finite 0)
            (fmul (fdiv (fmul (Finite P) (Finite s)) (Finite n)) (Finite (10 ^ 12)))"
      using k(2) by (rule fle_zero_fmul_pos)
    with True show ?thesis by simp
  next
    case False
    then show ?thesis by (simp add: fle_def)
  qed
  have vals:
    "fle (Finite 0) (Finite v)"
    "fle (Finite 0) (fmul (Finite d) (Finite 1000))"
    "fle (Finite 0) (fmul (Finite st) (Finite 1000))"
    "fle (Finite 0) (fmul (Finite P) (Finite 1000))"
    "fle (Finite 0) (fmul (fmul (Finite P) (Finite s)) (Finite 1000))"
    using v(1) d(2) st(2) P(2) E k(1)
    by (simp_all add: fle_zero_Finite fle_zero_fmul_pos del: fmul.simps)
  show ?thesis
    unfolding calculate_power_metrics_explicit [OF assms(7,9) op] d(1) st(1) P(1)
    using mhz vals per by (simp del: fmul.simps fdiv.simps)
qed

text \<open>
  With an infinite time and an infinite count of instructions, the energy per
  instruction is not-a-number, whatever the power.
\<close>

lemma fdiv_infinite: "fdiv (fmul P PosInf) PosInf = NaN"
  by (cases P) (simp_all add: fsign_inf_def)

lemma calculate_power_metrics_nan:
  assumes "dict_get metrics ''sim_seconds'' = Some (PyFloat PosInf)"
      and "dict_get metrics ''sim_insts'' = Some (PyFloat PosInf)"
  shows "\<exists>r. calculate_power_metrics pw metrics op_name = Inr r
           \<and> dict_get r ''energy_per_inst_pJ'' = Some (PyFloat NaN)"
proof -
  obtain freq volt where op: "operating_point op_name = (freq, volt)"
    by (cases "operating_point op_name")
  show ?thesis
    unfolding calculate_power_metrics_explicit [OF assms op]
    by (simp add: dict_get_def fdiv_infinite)
qed

text \<open>The quotient of hits and accesses in \<open>extract_key_metrics\<close>.\<close>

lemma rate_operand_float:
  assumes "rate_operand x = Some h"
  shows "to_float x = Inr (Finite h)"
proof (cases x)
  case (PyInt i)
  with assms have "\<bar>i\<bar> < 2 ^ 53" "h = of_int i" by (simp_all split: if_splits)
  then show ?thesis by (simp add: PyInt int_to_float_def round_double_int)
next
  case (PyFloat y)
  with assms show ?thesis by (cases y) simp_all
next
  case (PyStr s)
  with assms show ?thesis by simp
qed

lemma hit_rate_in_unit:
  assumes "rate_operand x = Some h" "rate_operand y = Some a" "0 \<le> h" "h \<le> a" "0 < a"
  shows "\<exists>d. py_truediv x y = Inr (PyFloat (Finite d)) \<and> 0 \<le> d \<and> d \<le> 1"
proof -
  have "0 \<le> h / a" "h / a \<le> 1" using assms(3-5) by simp_all
  from round_double_unit [OF this] obtain d
    where d: "round_double (h / a) = Finite d" "0 \<le> d" "d \<le> 1" by blast
  have ane: "a \<noteq> 0" using assms(5) by simp
  have "py_truediv x y = Inr (PyFloat (Finite d))"
  proof (cases x)
    case ix: (PyInt i)
    with assms(1) have i: "\<bar>i\<bar> < 2 ^ 53" "h = of_int i" by (simp_all split: if_splits)
    show ?thesis
    proof (cases y)
      case (PyInt j)
      with assms(2) have j: "a = of_int j" by (simp split: if_splits)
      with ane have "j \<noteq> 0" by auto
      with d(1) show ?thesis by (simp add: ix PyInt i(2) j)
    next
      case (PyFloat f)
      with assms(2) have f: "f = Finite a" by (cases f) simp_all
      from rate_operand_float [OF assms(1)] ix
      have "int_to_float i = Inr (Finite h)" by simp
      with ane d(1) show ?thesis by (simp add: ix PyFloat f bind_def)
    next
      case (PyStr s)
      with assms(2) show ?thesis by simp
    qed
  next
    case fx: (PyFloat g)
    with assms(1) have g: "g = Finite h" by (cases g) simp_all
    show ?thesis
    proof (cases y)
      case (PyInt j)
      from rate_operand_float [OF assms(2)] PyInt
      have "int_to_float j = Inr (Finite a)" by simp
      with ane d(1) show ?thesis by (simp add: fx g PyInt bind_def)
    next
      case (PyFloat f)
      with assms(2) have f: "f = Finite a" by (cases f) simp_all
      with ane d(1) show ?thesis by (simp add: fx g PyFloat bind_def)
    next
      case (PyStr s)
      with assms(2) show ?thesis by simp
    qed
  next
    case (PyStr s)
    with assms(1) show ?thesis by simp
  qed
  with d show ?thesis by blast
qed

lemma extract_key_metrics_rates:
  assumes "extract_key_metrics stats = Inr r"
  shows "\<exists>x y. py_truediv (dcache_hits stats) (dcache_accesses stats) = Inr x
           \<and> py_truediv (icache_hits stats) (icache_accesses stats) = Inr y
           \<and> dict_get r ''dcache_hit_rate'' = Some x
           \<and> dict_get r ''icache_hit_rate'' = Some y"
  using assms
  by (auto simp add: extract_key_metrics_def dcache_hits_def dcache_accesses_def
        icache_hits_def icache_accesses_def bind_def dict_get_def
        simp del: py_truediv.simps split: sum.splits)

lemma extract_key_metrics_returns:
  assumes "py_truediv (dcache_hits stats) (dcache_accesses stats) = Inr x"
      and "py_truediv (icache_hits stats) (icache_accesses stats) = Inr y"
  shows "\<exists>r. extract_key_metrics stats = Inr r
           \<and> dict_get r ''dcache_hit_rate'' = Some x
           \<and> dict_get r ''icache_hit_rate'' = Some y"
  using assms
  by (simp add: extract_key_metrics_def dcache_hits_def dcache_accesses_def
        icache_hits_def icache_accesses_def bind_def dict_get_def
        del: py_truediv.simps)

lemma round_five_halves: "round_double (5 / 2) = Finite (5 / 2)"
  by (rule round_double_exact [of _ 5 "- 1"]) (simp_all add: pow2_def)

lemma round_minus_three_halves: "round_double (- (3 / 2)) = Finite (- (3 / 2))"
  by (rule round_double_exact [of _ "- 3" "- 1"]) (simp_all add: pow2_def)

lemma round_three_halves: "round_double (3 / 2) = Finite (3 / 2)"
  by (rule round_double_exact [of _ 3 "- 1"]) (simp_all add: pow2_def)

lemma round_three: "round_double 3 = Finite 3"
  using round_double_int [of 3] by simp

text \<open>
  C5, as stated, fails: no derivation clamps its result. A report with the miss rate
  \<open>2.5\<close> gives the hit rate \<open>-1.5\<close> in \<open>extract_comparison_report.py\<close>, and a report
  with three hits for two accesses gives the hit rate \<open>1.5\<close> in \<open>parse_gem_stat.py\<close>.
\<close>

theorem hit_rate_outside_unit_interval:
  "extract_comparison_report_parse_stats_file
     (only_file ''stats.txt'' ''system.cpu.icache.overallMissRate::total 2.5'') ''stats.txt''
     = Some [(''sim_seconds'', PyFloat (Finite 0)), (''sim_insts'', PyFloat (Finite 0)),
             (''ipc'', PyFloat (Finite 0)), (''num_cycles'', PyFloat (Finite 0)),
             (''icache_miss_rate'', PyFloat (Finite (5 / 2))),
             (''dcache_miss_rate'', PyFloat (Finite 0)),
             (''l2cache_miss_rate'', PyFloat (Finite 0)),
             (''icache_misses'', PyFloat (Finite 0)), (''dcache_misses'', PyFloat (Finite 0)),
             (''l2cache_misses'', PyFloat (Finite 0)),
             (''icache_hit_rate'', PyFloat (Finite (- (3 / 2)))),
             (''dcache_hit_rate'', PyFloat (Finite 1)),
             (''l2cache_hit_rate'', PyFloat (Finite 1))]
   \<and> fless (Finite (- (3 / 2))) (Finite 0)
   \<and> bind (parse_gem_stat_parse_stats_file
              (only_file ''stats.txt''
                 ''system.cpu.dcache.overallHits::total 3\<newline>system.cpu.dcache.overallAccesses::total 2'')
              ''stats.txt'')
        extract_key_metrics
     = Inr [(''sim_seconds'', PyInt 0), (''sim_ticks'', PyInt 0), (''sim_insts'', PyInt 0),
            (''ipc'', PyInt 0), (''dcache_hit_rate'', PyFloat (Finite (3 / 2))),
            (''icache_hit_rate'', PyFloat (Finite 0))]
   \<and> fless (Finite 1) (Finite (3 / 2))"
proof -
  have a: "extract_comparison_report_parse_stats_file
     (only_file ''stats.txt'' ''system.cpu.icache.overallMissRate::total 2.5'') ''stats.txt''
     = Some [(''sim_seconds'', PyFloat (Finite 0)), (''sim_insts'', PyFloat (Finite 0)),
             (''ipc'', PyFloat (Finite 0)), (''num_cycles'', PyFloat (Finite 0)),
             (''icache_miss_rate'', PyFloat (Finite (5 / 2))),
             (''dcache_miss_rate'', PyFloat (Finite 0)),
             (''l2cache_miss_rate'', PyFloat (Finite 0)),
             (''icache_misses'', PyFloat (Finite 0)), (''dcache_misses'', PyFloat (Finite 0)),
             (''l2cache_misses'', PyFloat (Finite 0)),
             (''icache_hit_rate'', PyFloat (Finite (- (3 / 2)))),
             (''dcache_hit_rate'', PyFloat (Finite 1)),
             (''l2cache_hit_rate'', PyFloat (Finite 1))]"
    by (simp add: only_file_def extract_comparison_report_parse_stats_file_def patterns_def
          match_here_def calculate_hit_rates_def hit_rate_of_def text_eval dict_eval
          fsub_def round_five_halves round_minus_three_halves round_one)
  have b: "bind (parse_gem_stat_parse_stats_file
              (only_file ''stats.txt''
                 ''system.cpu.dcache.overallHits::total 3\<newline>system.cpu.dcache.overallAccesses::total 2'')
              ''stats.txt'')
        extract_key_metrics
     = Inr [(''sim_seconds'', PyInt 0), (''sim_ticks'', PyInt 0), (''sim_insts'', PyInt 0),
            (''ipc'', PyInt 0), (''dcache_hit_rate'', PyFloat (Finite (3 / 2))),
            (''icache_hit_rate'', PyFloat (Finite 0))]"
    by (simp add: only_file_def parse_gem_stat_parse_stats_file_def parse_gem_stat_store_def
          extract_key_metrics_def text_eval dict_eval round_three round_two
          round_three_halves round_zero)
  from a b show ?thesis by simp
qed

text \<open>
  C5, amended: in every report that \<open>parse_stats_file\<close> of
  \<open>extract_comparison_report.py\<close> returns, each extracted count or rate is a \<open>float\<close>
  that is zero or greater, and each hit rate is \<open>1.0\<close> minus its miss rate, is at most
  \<open>1\<close>, and lies in \<open>[0, 1]\<close> whenever the miss rate is at most \<open>1\<close> (the miss rate is
  not checked). For a report with a finite time that is zero or greater and a finite count
  of instructions, every quantity that \<open>calculate_power_metrics\<close> returns is zero or
  greater, provided the power operator gives finite results between \<open>0\<close> and \<open>1\<close> for the
  voltage of the operating point (which is at most \<open>1\<close>) and the exponents \<open>2\<close> and
  \<open>1.5\<close>; with an infinite time and an infinite count of instructions the energy per
  instruction is not-a-number. In \<open>parse_gem_stat.py\<close> the hit rate of a cache lies in
  \<open>[0, 1]\<close> whenever its hits (\<open>0\<close> when missing) are at least zero and at most its
  accesses (\<open>1\<close> when missing), and the accesses are greater than zero; when this holds
  for both caches, \<open>extract_key_metrics\<close> returns.
\<close>

theorem derived_quantity_bounds:
  "(\<forall>m. extract_comparison_report_parse_stats_file fs f = Some m
      \<longrightarrow> (\<forall>p \<in> set patterns.
             \<exists>x. dict_get m (fst p) = Some (PyFloat x) \<and> fle (Finite 0) x)
        \<and> (\<forall>k \<in> set rate_keys.
             \<exists>a h. dict_get m (fst k) = Some (PyFloat a)
                  \<and> dict_get m (snd k) = Some (PyFloat h)
                  \<and> h = fsub (Finite 1) a \<and> fle h (Finite 1)
                  \<and> (fle a (Finite 1) \<longrightarrow> fle (Finite 0) h)))
   \<and> (\<forall>a b s n.
          pw (snd (operating_point op_name)) (Finite 2) = Finite a \<and> 0 \<le> a \<and> a \<le> 1
          \<and> pw (snd (operating_point op_name)) (float_lit (15 / 10)) = Finite b
          \<and> 0 \<le> b \<and> b \<le> 1
          \<and> dict_get metrics ''sim_seconds'' = Some (PyFloat (Finite s)) \<and> 0 \<le> s
          \<and> dict_get metrics ''sim_insts'' = Some (PyFloat (Finite n))
      \<longrightarrow> (\<exists>r. calculate_power_metrics pw metrics op_name = Inr r
             \<and> (\<forall>kv \<in> set r. value_non_negative (snd kv))))
   \<and> (dict_get metrics ''sim_seconds'' = Some (PyFloat PosInf)
          \<and> dict_get metrics ''sim_insts'' = Some (PyFloat PosInf)
      \<longrightarrow> (\<exists>r. calculate_power_metrics pw metrics op_name = Inr r
             \<and> dict_get r ''energy_per_inst_pJ'' = Some (PyFloat NaN)))
   \<and> (\<forall>h a h' a'.
          rate_operand (dcache_hits stats) = Some h
          \<and> rate_operand (dcache_accesses stats) = Some a
          \<and> rate_operand (icache_hits stats) = Some h'
          \<and> rate_operand (icache_accesses stats) = Some a'
          \<and> 0 \<le> h \<and> h \<le> a \<and> 0 < a \<and> 0 \<le> h' \<and> h' \<le> a' \<and> 0 < a'
      \<longrightarrow> (\<exists>r d i. extract_key_metrics stats = Inr r
             \<and> dict_get r ''dcache_hit_rate'' = Some (PyFloat (Finite d))
             \<and> 0 \<le> d \<and> d \<le> 1
             \<and> dict_get r ''icache_hit_rate'' = Some (PyFloat (Finite i))
             \<and> 0 \<le> i \<and> i \<le> 1))
   \<and> (\<forall>r h a.
          extract_key_metrics stats = Inr r
          \<and> rate_operand (dcache_hits stats) = Some h
          \<and> rate_operand (dcache_accesses stats) = Some a
          \<and> 0 \<le> h \<and> h \<le> a \<and> 0 < a
      \<longrightarrow> (\<exists>d. dict_get r ''dcache_hit_rate'' = Some (PyFloat (Finite d))
             \<and> 0 \<le> d \<and> d \<le> 1))
   \<and> (\<forall>r h a.
          extract_key_metrics stats = Inr r
          \<and> rate_operand (icache_hits stats) = Some h
          \<and> rate_operand (icache_accesses stats) = Some a
          \<and> 0 \<le> h \<and> h \<le> a \<and> 0 < a
      \<longrightarrow> (\<exists>i. dict_get r ''icache_hit_rate'' = Some (PyFloat (Finite i))
             \<and> 0 \<le> i \<and> i \<le> 1))"
proof (intro conjI allI impI)
  fix m
  assume res: "extract_comparison_report_parse_stats_file fs f = Some m"
  from parse_stats_file_Some [OF res] obtain content m10 a b c where
    m10: "extract_patterns content patterns [] = Inr m10" and
    a: "dict_get m10 ''icache_miss_rate'' = Some (PyFloat a)" and
    b: "dict_get m10 ''dcache_miss_rate'' = Some (PyFloat b)" and
    c: "dict_get m10 ''l2cache_miss_rate'' = Some (PyFloat c)" and
    m: "m = with_hit_rates m10 a b c"
    by blast
  have old: "dict_get m key = dict_get m10 key" if "(key, lit, cls) \<in> set patterns"
    for key lit cls
    using that by (auto simp add: m with_hit_rates_def dict_get_set patterns_def)
  show "\<forall>p \<in> set patterns. \<exists>x. dict_get m (fst p) = Some (PyFloat x) \<and> fle (Finite 0) x"
  proof
    fix p
    assume p: "p \<in> set patterns"
    obtain key lit cls where pe: "p = (key, lit, cls)" by (cases p)
    from extract_patterns_nonneg [OF m10, of key lit cls] old [of key lit cls] p pe
    show "\<exists>x. dict_get m (fst p) = Some (PyFloat x) \<and> fle (Finite 0) x" by simp
  qed
  have na: "fle (Finite 0) a"
    using extract_patterns_nonneg [OF m10, of "''icache_miss_rate''"] a
    by (auto simp add: patterns_def)
  have nb: "fle (Finite 0) b"
    using extract_patterns_nonneg [OF m10, of "''dcache_miss_rate''"] b
    by (auto simp add: patterns_def)
  have nc: "fle (Finite 0) c"
    using extract_patterns_nonneg [OF m10, of "''l2cache_miss_rate''"] c
    by (auto simp add: patterns_def)
  have vals:
    "dict_get m ''icache_miss_rate'' = Some (PyFloat a)"
    "dict_get m ''dcache_miss_rate'' = Some (PyFloat b)"
    "dict_get m ''l2cache_miss_rate'' = Some (PyFloat c)"
    "dict_get m ''icache_hit_rate'' = Some (PyFloat (fsub (Finite 1) a))"
    "dict_get m ''dcache_hit_rate'' = Some (PyFloat (fsub (Finite 1) b))"
    "dict_get m ''l2cache_hit_rate'' = Some (PyFloat (fsub (Finite 1) c))"
    using a b c by (simp_all add: m with_hit_rates_def dict_get_set)
  show "\<forall>k \<in> set rate_keys.
             \<exists>a h. dict_get m (fst k) = Some (PyFloat a)
                  \<and> dict_get m (snd k) = Some (PyFloat h)
                  \<and> h = fsub (Finite 1) a \<and> fle h (Finite 1)
                  \<and> (fle a (Finite 1) \<longrightarrow> fle (Finite 0) h)"
    using vals hit_rate_bounds [OF na] hit_rate_bounds [OF nb] hit_rate_bounds [OF nc]
    by (simp add: rate_keys_def)
next
  fix a b s n
  assume h: "pw (snd (operating_point op_name)) (Finite 2) = Finite a \<and> 0 \<le> a \<and> a \<le> 1
          \<and> pw (snd (operating_point op_name)) (float_lit (15 / 10)) = Finite b
          \<and> 0 \<le> b \<and> b \<le> 1
          \<and> dict_get metrics ''sim_seconds'' = Some (PyFloat (Finite s)) \<and> 0 \<le> s
          \<and> dict_get metrics ''sim_insts'' = Some (PyFloat (Finite n))"
  show "\<exists>r. calculate_power_metrics pw metrics op_name = Inr r
             \<and> (\<forall>kv \<in> set r. value_non_negative (snd kv))"
    by (rule calculate_power_metrics_non_negative [of pw op_name a b metrics s n])
       (use h in blast)+
next
  assume "dict_get metrics ''sim_seconds'' = Some (PyFloat PosInf)
          \<and> dict_get metrics ''sim_insts'' = Some (PyFloat PosInf)"
  then show "\<exists>r. calculate_power_metrics pw metrics op_name = Inr r
             \<and> dict_get r ''energy_per_inst_pJ'' = Some (PyFloat NaN)"
    using calculate_power_metrics_nan [of metrics pw op_name] by blast
next
  fix h a h' a'
  assume hyp: "rate_operand (dcache_hits stats) = Some h
          \<and> rate_operand (dcache_accesses stats) = Some a
          \<and> rate_operand (icache_hits stats) = Some h'
          \<and> rate_operand (icache_accesses stats) = Some a'
          \<and> 0 \<le> h \<and> h \<le> a \<and> 0 < a \<and> 0 \<le> h' \<and> h' \<le> a' \<and> 0 < a'"
  from hyp hit_rate_in_unit [of "dcache_hits stats" h "dcache_accesses stats" a] obtain d
    where d: "py_truediv (dcache_hits stats) (dcache_accesses stats)
                = Inr (PyFloat (Finite d))" "0 \<le> d" "d \<le> 1"
    by blast
  from hyp hit_rate_in_unit [of "icache_hits stats" h' "icache_accesses stats" a'] obtain i
    where i: "py_truediv (icache_hits stats) (icache_accesses stats)
                = Inr (PyFloat (Finite i))" "0 \<le> i" "i \<le> 1"
    by blast
  from extract_key_metrics_returns [OF d(1) i(1)] d(2,3) i(2,3)
  show "\<exists>r d i. extract_key_metrics stats = Inr r
             \<and> dict_get r ''dcache_hit_rate'' = Some (PyFloat (Finite d))
             \<and> 0 \<le> d \<and> d \<le> 1
             \<and> dict_get r ''icache_hit_rate'' = Some (PyFloat (Finite i))
             \<and> 0 \<le> i \<and> i \<le> 1"
    by blast
next
  fix r h a
  assume hyp: "extract_key_metrics stats = Inr r
          \<and> rate_operand (dcache_hits stats) = Some h
          \<and> rate_operand (dcache_accesses stats) = Some a
          \<and> 0 \<le> h \<and> h \<le> a \<and> 0 < a"
  from hyp hit_rate_in_unit [of "dcache_hits stats" h "dcache_accesses stats" a] obtain d
    where d: "py_truediv (dcache_hits stats) (dcache_accesses stats)
                = Inr (PyFloat (Finite d))" "0 \<le> d" "d \<le> 1"
    by blast
  from hyp extract_key_metrics_rates [of stats r] d
  show "\<exists>d. dict_get r ''dcache_hit_rate'' = Some (PyFloat (Finite d)) \<and> 0 \<le> d \<and> d \<le> 1"
    by auto
next
  fix r h a
  assume hyp: "extract_key_metrics stats = Inr r
          \<and> rate_operand (icache_hits stats) = Some h
          \<and> rate_operand (icache_accesses stats) = Some a
          \<and> 0 \<le> h \<and> h \<le> a \<and> 0 < a"
  from hyp hit_rate_in_unit [of "icache_hits stats" h "icache_accesses stats" a] obtain i
    where i: "py_truediv (icache_hits stats) (icache_accesses stats)
                = Inr (PyFloat (Finite i))" "0 \<le> i" "i \<le> 1"
    by blast
  from hyp extract_key_metrics_rates [of stats r] i
  show "\<exists>i. dict_get r ''icache_hit_rate'' = Some (PyFloat (Finite i)) \<and> 0 \<le> i \<and> i \<le> 1"
    by auto
qed

text \<open>
  C5, witness: a report with the miss rate \<open>0.25\<close> of the second-level cache; a parsed
  report of half a second and 42 instructions, and one with an infinite time and count;
  and statistics with one hit for two accesses of the data cache and no entry for the
  instruction cache.
\<close>

theorem derived_quantity_bounds_witness:
  "extract_comparison_report_parse_stats_file
     (only_file ''stats.txt'' ''system.l2cache.overallMissRate::total 0.25'') ''stats.txt''
     = Some [(''sim_seconds'', PyFloat (Finite 0)), (''sim_insts'', PyFloat (Finite 0)),
             (''ipc'', PyFloat (Finite 0)), (''num_cycles'', PyFloat (Finite 0)),
             (''icache_miss_rate'', PyFloat (Finite 0)),
             (''dcache_miss_rate'', PyFloat (Finite 0)),
             (''l2cache_miss_rate'', PyFloat (Finite (1 / 4))),
             (''icache_misses'', PyFloat (Finite 0)), (''dcache_misses'', PyFloat (Finite 0)),
             (''l2cache_misses'', PyFloat (Finite 0)),
             (''icache_hit_rate'', PyFloat (Finite 1)),
             (''dcache_hit_rate'', PyFloat (Finite 1)),
             (''l2cache_hit_rate'', PyFloat (Finite (3 / 4)))]
   \<and> (''l2cache_miss_rate'', ''l2cache_hit_rate'') \<in> set rate_keys
   \<and> fle (Finite (1 / 4)) (Finite 1)
   \<and> fle (Finite 0) (Finite (3 / 4)) \<and> fle (Finite (3 / 4)) (Finite 1)
   \<and> sample_pow (snd (operating_point ''balanced'')) (Finite 2) = Finite 1
   \<and> sample_pow (snd (operating_point ''balanced'')) (float_lit (15 / 10)) = Finite 1
   \<and> (\<exists>r. calculate_power_metrics sample_pow
              [(''sim_seconds'', PyFloat (Finite (1 / 2))),
               (''sim_insts'', PyFloat (Finite 42))] ''balanced'' = Inr r
          \<and> list_all value_non_negative (map snd r))
   \<and> (\<exists>r. calculate_power_metrics sample_pow
              [(''sim_seconds'', PyFloat PosInf), (''sim_insts'', PyFloat PosInf)]
              ''balanced'' = Inr r
          \<and> dict_get r ''energy_per_inst_pJ'' = Some (PyFloat NaN))
   \<and> rate_operand (dcache_hits
        [(''system.cpu.dcache.overallHits::total'', PyFloat (Finite 1)),
         (''system.cpu.dcache.overallAccesses::total'', PyFloat (Finite 2))]) = Some 1
   \<and> rate_operand (dcache_accesses
        [(''system.cpu.dcache.overallHits::total'', PyFloat (Finite 1)),
         (''system.cpu.dcache.overallAccesses::total'', PyFloat (Finite 2))]) = Some 2
   \<and> rate_operand (icache_hits
        [(''system.cpu.dcache.overallHits::total'', PyFloat (Finite 1)),
         (''system.cpu.dcache.overallAccesses::total'', PyFloat (Finite 2))]) = Some 0
   \<and> rate_operand (icache_accesses
        [(''system.cpu.dcache.overallHits::total'', PyFloat (Finite 1)),
         (''system.cpu.dcache.overallAccesses::total'', PyFloat (Finite 2))]) = Some 1
   \<and> (\<exists>r d i. extract_key_metrics
                [(''system.cpu.dcache.overallHits::total'', PyFloat (Finite 1)),
                 (''system.cpu.dcache.overallAccesses::total'', PyFloat (Finite 2))] = Inr r
          \<and> dict_get r ''dcache_hit_rate'' = Some (PyFloat (Finite d)) \<and> 0 \<le> d \<and> d \<le> 1
          \<and> dict_get r ''icache_hit_rate'' = Some (PyFloat (Finite i)) \<and> 0 \<le> i \<and> i \<le> 1)"
proof -
  note T = derived_quantity_bounds
    [of "only_file ''stats.txt'' ''system.l2cache.overallMissRate::total 0.25''" "''stats.txt''"
        sample_pow "''balanced''"
        "[(''sim_seconds'', PyFloat (Finite (1 / 2))), (''sim_insts'', PyFloat (Finite 42))]"
        "[(''system.cpu.dcache.overallHits::total'', PyFloat (Finite 1)),
          (''system.cpu.dcache.overallAccesses::total'', PyFloat (Finite 2))]"]
  note U = derived_quantity_bounds
    [of "only_file ''stats.txt'' ''system.l2cache.overallMissRate::total 0.25''" "''stats.txt''"
        sample_pow "''balanced''"
        "[(''sim_seconds'', PyFloat PosInf), (''sim_insts'', PyFloat PosInf)]"
        "[(''system.cpu.dcache.overallHits::total'', PyFloat (Finite 1)),
          (''system.cpu.dcache.overallAccesses::total'', PyFloat (Finite 2))]"]
  have e: "extract_comparison_report_parse_stats_file
     (only_file ''stats.txt'' ''system.l2cache.overallMissRate::total 0.25'') ''stats.txt''
     = Some [(''sim_seconds'', PyFloat (Finite 0)), (''sim_insts'', PyFloat (Finite 0)),
             (''ipc'', PyFloat (Finite 0)), (''num_cycles'', PyFloat (Finite 0)),
             (''icache_miss_rate'', PyFloat (Finite 0)),
             (''dcache_miss_rate'', PyFloat (Finite 0)),
             (''l2cache_miss_rate'', PyFloat (Finite (1 / 4))),
             (''icache_misses'', PyFloat (Finite 0)), (''dcache_misses'', PyFloat (Finite 0)),
             (''l2cache_misses'', PyFloat (Finite 0)),
             (''icache_hit_rate'', PyFloat (Finite 1)),
             (''dcache_hit_rate'', PyFloat (Finite 1)),
             (''l2cache_hit_rate'', PyFloat (Finite (3 / 4)))]"
    by (simp add: only_file_def extract_comparison_report_parse_stats_file_def patterns_def
          match_here_def calculate_hit_rates_def hit_rate_of_def text_eval dict_eval
          fsub_def round_quarter round_three_quarters round_one)
  have k: "(''l2cache_miss_rate'', ''l2cache_hit_rate'') \<in> set rate_keys"
    by (simp add: rate_keys_def)
  from T [THEN conjunct1, rule_format, OF e, THEN conjunct2, rule_format, OF k]
  have b: "fle (Finite (3 / 4)) (Finite 1)
           \<and> (fle (Finite (1 / 4)) (Finite 1) \<longrightarrow> fle (Finite 0) (Finite (3 / 4)))"
    by (auto simp add: dict_get_def)
  have q: "fle (Finite (1 / 4)) (Finite 1)" by (simp add: fle_def)
  have pa: "sample_pow (snd (operating_point ''balanced'')) (Finite 2) = Finite 1"
    by (simp add: sample_pow_def)
  have pb: "sample_pow (snd (operating_point ''balanced'')) (float_lit (15 / 10)) = Finite 1"
    by (simp add: sample_pow_def)
  have hp: "sample_pow (snd (operating_point ''balanced'')) (Finite 2) = Finite 1
          \<and> (0::rat) \<le> 1 \<and> (1::rat) \<le> 1
          \<and> sample_pow (snd (operating_point ''balanced'')) (float_lit (15 / 10)) = Finite 1
          \<and> (0::rat) \<le> 1 \<and> (1::rat) \<le> 1
          \<and> dict_get [(''sim_seconds'', PyFloat (Finite (1 / 2))),
                       (''sim_insts'', PyFloat (Finite 42))] ''sim_seconds''
              = Some (PyFloat (Finite (1 / 2))) \<and> (0::rat) \<le> 1 / 2
          \<and> dict_get [(''sim_seconds'', PyFloat (Finite (1 / 2))),
                       (''sim_insts'', PyFloat (Finite 42))] ''sim_insts''
              = Some (PyFloat (Finite 42))"
    using pa pb by (simp add: dict_get_def)
  from T [THEN conjunct2, THEN conjunct1, rule_format, OF hp]
  have p: "\<exists>r. calculate_power_metrics sample_pow
              [(''sim_seconds'', PyFloat (Finite (1 / 2))),
               (''sim_insts'', PyFloat (Finite 42))] ''balanced'' = Inr r
          \<and> list_all value_non_negative (map snd r)"
    by (auto simp add: list_all_iff)
  have hn: "dict_get [(''sim_seconds'', PyFloat PosInf), (''sim_insts'', PyFloat PosInf)]
              ''sim_seconds'' = Some (PyFloat PosInf)
          \<and> dict_get [(''sim_seconds'', PyFloat PosInf), (''sim_insts'', PyFloat PosInf)]
              ''sim_insts'' = Some (PyFloat PosInf)"
    by (simp add: dict_get_def)
  from U [THEN conjunct2, THEN conjunct2, THEN conjunct1, rule_format, OF hn]
  have n: "\<exists>r. calculate_power_metrics sample_pow
              [(''sim_seconds'', PyFloat PosInf), (''sim_insts'', PyFloat PosInf)]
              ''balanced'' = Inr r
          \<and> dict_get r ''energy_per_inst_pJ'' = Some (PyFloat NaN)" .
  have o: "rate_operand (dcache_hits
        [(''system.cpu.dcache.overallHits::total'', PyFloat (Finite 1)),
         (''system.cpu.dcache.overallAccesses::total'', PyFloat (Finite 2))]) = Some 1"
    "rate_operand (dcache_accesses
        [(''system.cpu.dcache.overallHits::total'', PyFloat (Finite 1)),
         (''system.cpu.dcache.overallAccesses::total'', PyFloat (Finite 2))]) = Some 2"
    "rate_operand (icache_hits
        [(''system.cpu.dcache.overallHits::total'', PyFloat (Finite 1)),
         (''system.cpu.dcache.overallAccesses::total'', PyFloat (Finite 2))]) = Some 0"
    "rate_operand (icache_accesses
        [(''system.cpu.dcache.overallHits::total'', PyFloat (Finite 1)),
         (''system.cpu.dcache.overallAccesses::total'', PyFloat (Finite 2))]) = Some 1"
    by (simp_all add: dcache_hits_def dcache_accesses_def icache_hits_def
          icache_accesses_def dict_get_default_def)
  have ho: "rate_operand (dcache_hits
        [(''system.cpu.dcache.overallHits::total'', PyFloat (Finite 1)),
         (''system.cpu.dcache.overallAccesses::total'', PyFloat (Finite 2))]) = Some 1
     \<and> rate_operand (dcache_accesses
        [(''system.cpu.dcache.overallHits::total'', PyFloat (Finite 1)),
         (''system.cpu.dcache.overallAccesses::total'', PyFloat (Finite 2))]) = Some 2
     \<and> rate_operand (icache_hits
        [(''system.cpu.dcache.overallHits::total'', PyFloat (Finite 1)),
         (''system.cpu.dcache.overallAccesses::total'', PyFloat (Finite 2))]) = Some 0
     \<and> rate_operand (icache_accesses
        [(''system.cpu.dcache.overallHits::total'', PyFloat (Finite 1)),
         (''system.cpu.dcache.overallAccesses::total'', PyFloat (Finite 2))]) = Some 1
     \<and> (0::rat) \<le> 1 \<and> (1::rat) \<le> 2 \<and> (0::rat) < 2
     \<and> (0::rat) \<le> 0 \<and> (0::rat) \<le> 1 \<and> (0::rat) < 1"
    using o by simp
  from T [THEN conjunct2, THEN conjunct2, THEN conjunct2, THEN conjunct1, rule_format, OF ho]
  have d: "\<exists>r d i. extract_key_metrics
                [(''system.cpu.dcache.overallHits::total'', PyFloat (Finite 1)),
                 (''system.cpu.dcache.overallAccesses::total'', PyFloat (Finite 2))] = Inr r
          \<and> dict_get r ''dcache_hit_rate'' = Some (PyFloat (Finite d)) \<and> 0 \<le> d \<and> d \<le> 1
          \<and> dict_get r ''icache_hit_rate'' = Some (PyFloat (Finite i)) \<and> 0 \<le> i \<and> i \<le> 1" .
  from e k b q pa pb p n o d show ?thesis by blast
qed

end
